(* ===== verification/Prelude.thy ===== *)
theory Prelude
  imports Main "HOL-Library.Sublist" "HOL-Library.Word"
begin

text \<open>
  What every component shares: the error values of the program and the outcome of a Go
  call, Go strings as byte strings (\<open>string\<close>, a list of 8-bit characters) with the
  operations of the packages \<open>strings\<close>, \<open>strconv\<close> and \<open>fmt\<close> that the sources call, and
  the collections of rewrite rules the component theories extend.
\<close>

named_theorems outcome_simps "inversion of outcomes that are known to be Ret or Fail"

section \<open>Errors and outcomes\<close>

text \<open>
  The sentinel errors of the packages \<open>store\<close>, \<open>auth\<close> and \<open>provision\<close>, compared by
  \<open>errors.Is\<close>, and every other error, of which the program only ever reads the text.
\<close>

datatype goerr =
    StoreErrNotFound
  | StoreErrConflict
  | ErrUnauthorized
  | ErrInvalidName
  | ErrAlreadyExists
  | ErrNotFound
  | ErrConfirmationNeeded
  | ErrConfirmMismatch
  | ErrText string

fun errText :: "goerr \<Rightarrow> string" where
  "errText StoreErrNotFound = ''not found''"
| "errText StoreErrConflict = ''conflict''"
| "errText ErrUnauthorized = ''unauthorized''"
| "errText ErrInvalidName = ''invalid project name''"
| "errText ErrAlreadyExists = ''database project already exists''"
| "errText ErrNotFound = ''database project not found''"
| "errText ErrConfirmationNeeded = ''confirmation required''"
| "errText ErrConfirmMismatch = ''confirmation does not match project name''"
| "errText (ErrText s) = s"

text \<open>The outcome of a Go call: it returns a value, returns an error, or panics.\<close>

datatype 'a outcome = Ret 'a | Fail goerr | Panic string

definition is_ret :: "'a outcome \<Rightarrow> bool" where
  "is_ret r \<longleftrightarrow> (case r of Ret _ \<Rightarrow> True | _ \<Rightarrow> False)"

lemma is_ret_simps [simp]:
  "is_ret (Ret x)" "\<not> is_ret (Fail e)" "\<not> is_ret (Panic p)"
  by (simp_all add: is_ret_def)

lemma is_ret_iff [outcome_simps]: "is_ret r \<longleftrightarrow> (\<exists>x. r = Ret x)"
  by (cases r) auto

section \<open>Characters\<close>

text \<open>
  Go compares runes by their code. A byte of a non-ASCII rune is at least 128, and so is
  the rune itself (or it is the replacement rune), so a loop over runes that accepts ASCII
  ranges only accepts a string exactly when every byte of it is in those ranges.
\<close>

abbreviation code :: "char \<Rightarrow> nat" where
  "code c \<equiv> of_char c"

definition in_range :: "char \<Rightarrow> char \<Rightarrow> char \<Rightarrow> bool" where
  "in_range lo hi c \<longleftrightarrow> code lo \<le> code c \<and> code c \<le> code hi"

definition is_lower :: "char \<Rightarrow> bool" where
  "is_lower c \<longleftrightarrow> in_range (CHR ''a'') (CHR ''z'') c"

definition is_upper :: "char \<Rightarrow> bool" where
  "is_upper c \<longleftrightarrow> in_range (CHR ''A'') (CHR ''Z'') c"

definition is_digit :: "char \<Rightarrow> bool" where
  "is_digit c \<longleftrightarrow> in_range (CHR ''0'') (CHR ''9'') c"

lemmas char_class_defs = in_range_def is_lower_def is_upper_def is_digit_def

lemma is_lower_hyphen [simp]: "\<not> is_lower (CHR ''-'')" "\<not> is_digit (CHR ''-'')"
  and is_lower_underscore [simp]: "\<not> is_lower (CHR ''_'')" "\<not> is_digit (CHR ''_'')"
  by (simp_all add: char_class_defs)

lemma char_eq_code: "c = d \<longleftrightarrow> code c = code d"
  by simp

text \<open>Lower-casing of ASCII letters.\<close>

definition lower_char :: "char \<Rightarrow> char" where
  "lower_char c = (if is_upper c then char_of (code c + 32) else c)"

lemma code_lower_char: "code (lower_char c) = (if is_upper c then code c + 32 else code c)"
  by (auto simp: lower_char_def char_class_defs)

lemma lower_char_not_upper [simp]: "\<not> is_upper (lower_char c)"
  by (auto simp: lower_char_def char_class_defs)

lemma lower_char_id [simp]: "\<not> is_upper c \<Longrightarrow> lower_char c = c"
  by (simp add: lower_char_def)

section \<open>The operations of package strings\<close>

definition HasPrefix :: "string \<Rightarrow> string \<Rightarrow> bool" where
  "HasPrefix s p \<longleftrightarrow> take (length p) s = p"

definition HasSuffix :: "string \<Rightarrow> string \<Rightarrow> bool" where
  "HasSuffix s p \<longleftrightarrow> length p \<le> length s \<and> drop (length s - length p) s = p"

lemma HasPrefix_append [simp]: "HasPrefix (p @ s) p"
  by (simp add: HasPrefix_def)

lemma HasPrefix_iff: "HasPrefix s p \<longleftrightarrow> (\<exists>r. s = p @ r)"
  unfolding HasPrefix_def by (metis append_eq_conv_conj append_take_drop_id)

lemma HasSuffix_append [simp]: "HasSuffix (s @ p) p"
  by (simp add: HasSuffix_def)

text \<open>\<open>strings.CutPrefix\<close>: the rest after the prefix, or None when it is not there.\<close>

definition CutPrefix :: "string \<Rightarrow> string \<Rightarrow> string option" where
  "CutPrefix s p = (if HasPrefix s p then Some (drop (length p) s) else None)"

lemma CutPrefix_append [simp]: "CutPrefix (p @ s) p = Some s"
  by (simp add: CutPrefix_def)

lemma CutPrefix_Some: "CutPrefix s p = Some r \<longleftrightarrow> s = p @ r"
  by (auto simp: CutPrefix_def HasPrefix_iff)

text \<open>\<open>strings.Cut\<close> at a one-byte separator.\<close>

fun Cut :: "string \<Rightarrow> char \<Rightarrow> (string \<times> string) option" where
  "Cut [] c = None"
| "Cut (x # xs) c =
     (if x = c then Some ([], xs)
      else map_option (\<lambda>(a, b). (x # a, b)) (Cut xs c))"

lemma Cut_Cons_Some:
  "x \<noteq> c \<Longrightarrow> Cut (x # s) c = Some (a, b) \<longleftrightarrow> (\<exists>a'. a = x # a' \<and> Cut s c = Some (a', b))"
  by auto

lemma Cut_Some: "Cut s c = Some (a, b) \<longleftrightarrow> s = a @ c # b \<and> c \<notin> set a"
proof (induction s arbitrary: a)
  case Nil
  then show ?case by simp
next
  case (Cons x s)
  show ?case
  proof (cases "x = c")
    case True
    then show ?thesis by (cases a) auto
  next
    case False
    then show ?thesis
      using Cons.IH by (cases a) (auto simp del: Cut.simps simp: Cut_Cons_Some)
  qed
qed

text \<open>\<open>strings.Contains\<close> and \<open>strings.IndexByte\<close>.\<close>

fun Contains :: "string \<Rightarrow> string \<Rightarrow> bool" where
  "Contains [] sub = (sub = [])"
| "Contains (x # xs) sub = (HasPrefix (x # xs) sub \<or> Contains xs sub)"

lemma Contains_appendI: "Contains s sub \<Longrightarrow> Contains (a @ s) sub"
  by (induction a) auto

lemma Contains_prefixI: "Contains (sub @ b) sub"
proof (cases "sub @ b")
  case (Cons x r)
  then have "HasPrefix (x # r) sub" by (metis HasPrefix_append)
  with Cons show ?thesis by simp
qed simp

lemma Contains_split: "Contains s sub \<Longrightarrow> \<exists>a b. s = a @ sub @ b"
proof (induction s)
  case Nil
  then show ?case by simp
next
  case (Cons x s)
  show ?case
  proof (cases "HasPrefix (x # s) sub")
    case True
    then obtain r where "x # s = [] @ sub @ r" by (auto simp: HasPrefix_iff)
    then show ?thesis by blast
  next
    case False
    with Cons obtain a b where "s = a @ sub @ b" by auto
    then have "x # s = (x # a) @ sub @ b" by simp
    then show ?thesis by blast
  qed
qed

lemma Contains_iff: "Contains s sub \<longleftrightarrow> (\<exists>a b. s = a @ sub @ b)"
  using Contains_split Contains_appendI Contains_prefixI by blast

lemma Contains_mid [simp]: "Contains (a @ sub @ b) sub"
  by (auto simp: Contains_iff)

lemma Contains_prefix [simp]: "Contains (sub @ b) sub"
  using Contains_mid [of "[]" sub b] by simp

lemma Contains_suffix [simp]: "Contains (a @ sub) sub"
  using Contains_mid [of a sub "[]"] by simp

fun IndexByte :: "string \<Rightarrow> char \<Rightarrow> nat option" where
  "IndexByte [] c = None"
| "IndexByte (x # xs) c = (if x = c then Some 0 else map_option Suc (IndexByte xs c))"

lemma IndexByte_None: "IndexByte s c = None \<longleftrightarrow> c \<notin> set s"
  by (induction s) auto

lemma IndexByte_append: "c \<notin> set a \<Longrightarrow> IndexByte (a @ c # b) c = Some (length a)"
  by (induction a) auto

text \<open>\<open>strings.Split\<close> at a one-byte separator.\<close>

fun Split :: "char \<Rightarrow> string \<Rightarrow> string list" where
  "Split sep [] = [[]]"
| "Split sep (c # s) =
     (if c = sep then [] # Split sep s
      else (case Split sep s of [] \<Rightarrow> [[c]] | x # xs \<Rightarrow> (c # x) # xs))"

lemma Split_ne [simp]: "Split sep s \<noteq> []"
  by (cases s) (auto split: list.splits)

lemma Split_end: "sep \<notin> set a \<Longrightarrow> Split sep a = [a]"
  by (induction a) auto

lemma Split_more: "sep \<notin> set b \<Longrightarrow> Split sep (a @ b) = butlast (Split sep a) @ [last (Split sep a) @ b]"
proof (induction a)
  case Nil
  then show ?case by (simp add: Split_end)
next
  case (Cons c a)
  then show ?case using Split_ne [of sep a] by (cases "Split sep a") (auto split: list.split)
qed

lemma Split_append: "sep \<notin> set a \<Longrightarrow> Split sep (a @ sep # s) = a # Split sep s"
  by (induction a) auto

lemma Split_snoc: "sep \<notin> set b \<Longrightarrow> Split sep (a @ sep # b) = Split sep a @ [b]"
proof (induction a)
  case Nil
  then show ?case by (simp add: Split_end)
next
  case (Cons c a)
  then show ?case by (cases "Split sep a") (auto)
qed

text \<open>\<open>strings.Join\<close>, \<open>strings.ReplaceAll\<close> for one-byte texts, \<open>strings.Trim\<close> and
  \<open>strings.TrimRight\<close> for an ASCII cutset.\<close>

fun Join :: "string list \<Rightarrow> string \<Rightarrow> string" where
  "Join [] sep = []"
| "Join [x] sep = x"
| "Join (x # y # r) sep = x @ sep @ Join (y # r) sep"

definition ReplaceByte :: "string \<Rightarrow> char \<Rightarrow> char \<Rightarrow> string" where
  "ReplaceByte s a b = map (\<lambda>c. if c = a then b else c) s"

definition TrimRight :: "string \<Rightarrow> string \<Rightarrow> string" where
  "TrimRight s cutset = rev (dropWhile (\<lambda>c. c \<in> set cutset) (rev s))"

definition TrimCut :: "string \<Rightarrow> string \<Rightarrow> string" where
  "TrimCut s cutset = TrimRight (dropWhile (\<lambda>c. c \<in> set cutset) s) cutset"

text \<open>
  \<open>strings.TrimSpace\<close>: removes the UTF-8 encodings of the Unicode white-space runes at
  both ends. None of the encodings is a prefix of another, and Go decodes the last rune
  from its first byte, so stripping by encoding is what the package does.
\<close>

definition space_seqs :: "string list" where
  "space_seqs =
     [[CHR '' ''], [CHR 0x09], [CHR 0x0A], [CHR 0x0B], [CHR 0x0C], [CHR 0x0D],
      [CHR 0xC2, CHR 0x85], [CHR 0xC2, CHR 0xA0], [CHR 0xE1, CHR 0x9A, CHR 0x80],
      [CHR 0xE2, CHR 0x80, CHR 0x80], [CHR 0xE2, CHR 0x80, CHR 0x81],
      [CHR 0xE2, CHR 0x80, CHR 0x82], [CHR 0xE2, CHR 0x80, CHR 0x83],
      [CHR 0xE2, CHR 0x80, CHR 0x84], [CHR 0xE2, CHR 0x80, CHR 0x85],
      [CHR 0xE2, CHR 0x80, CHR 0x86], [CHR 0xE2, CHR 0x80, CHR 0x87],
      [CHR 0xE2, CHR 0x80, CHR 0x88], [CHR 0xE2, CHR 0x80, CHR 0x89],
      [CHR 0xE2, CHR 0x80, CHR 0x8A], [CHR 0xE2, CHR 0x80, CHR 0xA8],
      [CHR 0xE2, CHR 0x80, CHR 0xA9], [CHR 0xE2, CHR 0x80, CHR 0xAF],
      [CHR 0xE2, CHR 0x81, CHR 0x9F], [CHR 0xE3, CHR 0x80, CHR 0x80]]"

function strip_seqs :: "string list \<Rightarrow> string \<Rightarrow> string" where
  "strip_seqs seqs s =
     (case find (\<lambda>p. p \<noteq> [] \<and> HasPrefix s p) seqs of
        None \<Rightarrow> s
      | Some p \<Rightarrow> strip_seqs seqs (drop (length p) s))"
  by pat_completeness auto
termination
proof (relation "measure (\<lambda>(seqs, s). length s)")
  fix seqs :: "string list" and s p :: string
  assume "find (\<lambda>p. p \<noteq> [] \<and> HasPrefix s p) seqs = Some p"
  then have "p \<noteq> []" "HasPrefix s p" by (auto simp: find_Some_iff)
  then have "0 < length p" "length p \<le> length s" by (auto simp: HasPrefix_iff)
  then have "length s - length p < length s" by linarith
  then show "((seqs, drop (length p) s), seqs, s) \<in> measure (\<lambda>(seqs, s). length s)"
    by simp
qed simp

declare strip_seqs.simps [simp del]

definition TrimSpace :: "string \<Rightarrow> string" where
  "TrimSpace s =
     rev (strip_seqs (map rev space_seqs) (rev (strip_seqs space_seqs s)))"

text \<open>A string whose first and last byte can neither begin nor end a white-space encoding
  is left alone. \<open>plain_char\<close> holds of every visible ASCII character.\<close>

definition plain_char :: "char \<Rightarrow> bool" where
  "plain_char c \<longleftrightarrow> 33 \<le> code c \<and> code c < 128"

lemma strip_seqs_stop:
  assumes "\<And>p. p \<in> set seqs \<Longrightarrow> \<not> (p \<noteq> [] \<and> HasPrefix s p)"
  shows "strip_seqs seqs s = s"
proof -
  have "find (\<lambda>p. p \<noteq> [] \<and> HasPrefix s p) seqs = None"
    using assms by (auto simp: find_None_iff)
  then show ?thesis by (subst strip_seqs.simps) simp
qed

lemma strip_seqs_Nil [simp]: "strip_seqs seqs [] = []"
  by (rule strip_seqs_stop) (auto simp: HasPrefix_def)

lemma strip_spaces_plain:
  assumes "plain_char c"
  shows "strip_seqs space_seqs (c # s) = c # s"
    and "strip_seqs (map rev space_seqs) (c # s) = c # s"
  using assms
  by (auto intro!: strip_seqs_stop simp: space_seqs_def HasPrefix_def plain_char_def)

lemma TrimSpace_plain:
  assumes "s = [] \<or> plain_char (hd s) \<and> plain_char (last s)"
  shows "TrimSpace s = s"
proof (cases "s = []")
  case True
  then show ?thesis by (simp add: TrimSpace_def)
next
  case False
  with assms have h: "plain_char (hd s)" and l: "plain_char (last s)" by auto
  from False obtain c r where s: "s = c # r" by (cases s) auto
  from False obtain r' d where s': "s = r' @ [d]" by (cases s rule: rev_cases) auto
  from h s have "strip_seqs space_seqs s = s"
    by (simp add: strip_spaces_plain)
  moreover from l s' have "strip_seqs (map rev space_seqs) (rev s) = rev s"
    by (simp add: strip_spaces_plain)
  ultimately show ?thesis by (simp add: TrimSpace_def)
qed

lemma TrimSpace_all_plain: "list_all plain_char s \<Longrightarrow> TrimSpace s = s"
  by (rule TrimSpace_plain) (auto simp: list_all_iff)

text \<open>What is left after stripping starts with no white-space encoding.\<close>

lemma strip_seqs_done:
  "p \<in> set seqs \<Longrightarrow> p \<noteq> [] \<Longrightarrow> \<not> HasPrefix (strip_seqs seqs s) p"
proof (induction seqs s rule: strip_seqs.induct)
  case (1 seqs s)
  show ?case
  proof (cases "find (\<lambda>p. p \<noteq> [] \<and> HasPrefix s p) seqs")
    case None
    then have "strip_seqs seqs s = s" by (subst strip_seqs.simps) simp
    with None 1(2,3) show ?thesis by (auto simp: find_None_iff)
  next
    case (Some q)
    with 1 show ?thesis by (subst strip_seqs.simps) simp
  qed
qed

lemma strip_seqs_suffix: "\<exists>r. s = r @ strip_seqs seqs s"
proof (induction seqs s rule: strip_seqs.induct)
  case (1 seqs s)
  show ?case
  proof (cases "find (\<lambda>p. p \<noteq> [] \<and> HasPrefix s p) seqs")
    case None
    then show ?thesis by (subst strip_seqs.simps) simp
  next
    case (Some q)
    with "1" obtain r where "drop (length q) s = r @ strip_seqs seqs (drop (length q) s)"
      by blast
    then have "s = (take (length q) s @ r) @ strip_seqs seqs (drop (length q) s)"
      by (metis append.assoc append_take_drop_id)
    moreover from Some have "strip_seqs seqs s = strip_seqs seqs (drop (length q) s)"
      by (subst strip_seqs.simps) simp
    ultimately show ?thesis by metis
  qed
qed

text \<open>\<open>TrimSpace\<close> never ends in a space.\<close>

lemma TrimSpace_last: "TrimSpace s \<noteq> [] \<Longrightarrow> last (TrimSpace s) \<noteq> CHR '' ''"
proof
  let ?t = "strip_seqs (map rev space_seqs) (rev (strip_seqs space_seqs s))"
  assume ne: "TrimSpace s \<noteq> []" and "last (TrimSpace s) = CHR '' ''"
  then have "?t \<noteq> []" "hd ?t = CHR '' ''"
    by (auto simp: TrimSpace_def last_rev)
  then have "HasPrefix ?t [CHR '' '']"
    by (cases ?t) (auto simp: HasPrefix_def)
  moreover have "[CHR '' ''] \<in> set (map rev space_seqs)"
    by (simp add: space_seqs_def)
  ultimately show False using strip_seqs_done by blast
qed

section \<open>Numbers and quoting\<close>

fun digits_of :: "nat \<Rightarrow> nat \<Rightarrow> string" where
  "digits_of 0 n = []"
| "digits_of (Suc k) n = digits_of k (n div 10) @ [char_of (48 + n mod 10)]"

text \<open>Decimal text: \<open>strconv.Itoa\<close> of a non-negative number, and the zero-padded
  fields of a timestamp (\<open>digits_of w n\<close> is \<open>n\<close> in exactly \<open>w\<close> digits).\<close>

function Itoa :: "nat \<Rightarrow> string" where
  "Itoa n = (if n < 10 then [char_of (48 + n)] else Itoa (n div 10) @ [char_of (48 + n mod 10)])"
  by pat_completeness auto
termination
  by (relation "measure id") auto

declare Itoa.simps [simp del]

lemma digits_of_numeral [simp]:
  "digits_of (numeral k) n = digits_of (pred_numeral k) (n div 10) @ [char_of (48 + n mod 10)]"
  unfolding numeral_eq_Suc [of k] by (rule digits_of.simps)

lemma length_digits_of [simp]: "length (digits_of k n) = k"
  by (induction k arbitrary: n) auto

definition digit_val :: "char \<Rightarrow> nat" where
  "digit_val c = code c - 48"

definition nat_of_digits :: "string \<Rightarrow> nat" where
  "nat_of_digits s = foldl (\<lambda>a c. 10 * a + digit_val c) 0 s"

lemma code_char_of_small [simp]: "n < 256 \<Longrightarrow> code (char_of n) = n"
  by simp

lemma digits_of_digit: "list_all is_digit (digits_of k n)"
  by (induction k arbitrary: n) (auto simp: char_class_defs)

lemma nat_of_digits_snoc [simp]:
  "nat_of_digits (s @ [c]) = 10 * nat_of_digits s + digit_val c"
  by (simp add: nat_of_digits_def)

lemma nat_of_digits_Nil [simp]: "nat_of_digits [] = 0"
  by (simp add: nat_of_digits_def)

lemma nat_of_digits_of: "n < 10 ^ k \<Longrightarrow> nat_of_digits (digits_of k n) = n"
proof (induction k arbitrary: n)
  case 0
  then show ?case by simp
next
  case (Suc k)
  have "48 + n mod 10 < 256"
    by (rule less_trans [of _ "48 + 10"]) auto
  then have "digit_val (char_of (48 + n mod 10)) = n mod 10"
    by (simp add: digit_val_def)
  moreover from Suc.prems have "n div 10 < 10 ^ k" by (simp add: less_mult_imp_div_less)
  with Suc.IH have "nat_of_digits (digits_of k (n div 10)) = n div 10" by blast
  ultimately show ?case by simp
qed

text \<open>
  \<open>fmt\<close>'s \<open>%q\<close>: a double-quoted Go string literal. ASCII text is quoted exactly as
  \<open>strconv.Quote\<close> does it; bytes above 127 are kept, as it does for printable text.
\<close>

definition hex_digit :: "nat \<Rightarrow> char" where
  "hex_digit n = (if n < 10 then char_of (48 + n) else char_of (87 + n))"

definition quote_char :: "char \<Rightarrow> string" where
  "quote_char c =
     (if c = CHR 0x22 then [CHR 0x5C, CHR 0x22]
      else if c = CHR 0x5C then [CHR 0x5C, CHR 0x5C]
      else if c = CHR 0x07 then [CHR 0x5C, CHR ''a'']
      else if c = CHR 0x08 then [CHR 0x5C, CHR ''b'']
      else if c = CHR 0x0C then [CHR 0x5C, CHR ''f'']
      else if c = CHR 0x0A then [CHR 0x5C, CHR ''n'']
      else if c = CHR 0x0D then [CHR 0x5C, CHR ''r'']
      else if c = CHR 0x09 then [CHR 0x5C, CHR ''t'']
      else if c = CHR 0x0B then [CHR 0x5C, CHR ''v'']
      else if code c < 32 \<or> code c = 127 then
        [CHR 0x5C, CHR ''x'', hex_digit (code c div 16), hex_digit (code c mod 16)]
      else [c])"

definition Quote :: "string \<Rightarrow> string" where
  "Quote s = [CHR 0x22] @ concat (map quote_char s) @ [CHR 0x22]"

end
