(* ===== verification/GoTime.thy ===== *)
theory GoTime
  imports Prelude "HOL-Library.Monad_Syntax"
begin

text \<open>
  The part of package \<open>time\<close> the program uses: a UTC reading of the clock, its RFC 3339
  text with and without the fraction of a second, and the parser of that text. The store
  keeps every time as text and sorts by that text, so the format matters.
\<close>

section \<open>Clock readings\<close>

record gotime =
  yr :: nat
  mon :: nat
  day :: nat
  hr :: nat
  mnt :: nat
  sec :: nat
  nsec :: nat

definition zeroTime :: gotime where
  "zeroTime = \<lparr>yr = 1, mon = 1, day = 1, hr = 0, mnt = 0, sec = 0, nsec = 0\<rparr>"

definition IsZero :: "gotime \<Rightarrow> bool" where
  "IsZero t \<longleftrightarrow> t = zeroTime"

definition leap :: "nat \<Rightarrow> bool" where
  "leap y \<longleftrightarrow> y mod 4 = 0 \<and> (y mod 100 \<noteq> 0 \<or> y mod 400 = 0)"

definition days_in :: "nat \<Rightarrow> nat \<Rightarrow> nat" where
  "days_in m y =
     (if m = 2 then (if leap y then 29 else 28)
      else if m = 4 \<or> m = 6 \<or> m = 9 \<or> m = 11 then 30 else 31)"

text \<open>Readings with a four-digit year: all that RFC 3339 can write.\<close>

definition wf_time :: "gotime \<Rightarrow> bool" where
  "wf_time t \<longleftrightarrow>
     yr t < 10000 \<and> 1 \<le> mon t \<and> mon t \<le> 12 \<and> 1 \<le> day t \<and> day t \<le> days_in (mon t) (yr t)
     \<and> hr t < 24 \<and> mnt t < 60 \<and> sec t < 60 \<and> nsec t < 1000000000"

text \<open>Which of two readings is earlier.\<close>

definition earlier :: "gotime \<Rightarrow> gotime \<Rightarrow> bool" where
  "earlier a b \<longleftrightarrow>
     (let key = (\<lambda>t. [yr t, mon t, day t, hr t, mnt t, sec t, nsec t])
      in (key a, key b) \<in> lexord {(m, n). m < n})"

section \<open>Formatting\<close>

definition format_secs :: "gotime \<Rightarrow> string" where
  "format_secs t =
     digits_of 4 (yr t) @ ''-'' @ digits_of 2 (mon t) @ ''-'' @ digits_of 2 (day t) @ ''T''
     @ digits_of 2 (hr t) @ '':'' @ digits_of 2 (mnt t) @ '':'' @ digits_of 2 (sec t)"

text \<open>\<open>time.RFC3339\<close>, as the API views use it.\<close>

definition formatRFC3339 :: "gotime \<Rightarrow> string" where
  "formatRFC3339 t = format_secs t @ ''Z''"

text \<open>\<open>time.RFC3339Nano\<close>: the fraction loses its trailing zeros, and the point with the
  last digit.\<close>

definition frac :: "nat \<Rightarrow> string" where
  "frac n = (if n = 0 then '''' else ''.'' @ TrimRight (digits_of 9 n) ''0'')"

definition formatNano :: "gotime \<Rightarrow> string" where
  "formatNano t = format_secs t @ frac (nsec t) @ ''Z''"

section \<open>Parsing\<close>

definition num :: "nat \<Rightarrow> string \<Rightarrow> (nat \<times> string) option" where
  "num k s =
     (if k \<le> length s \<and> list_all is_digit (take k s)
      then Some (nat_of_digits (take k s), drop k s) else None)"

fun lit :: "char \<Rightarrow> string \<Rightarrow> string option" where
  "lit c [] = None"
| "lit c (x # r) = (if x = c then Some r else None)"

definition parse_frac :: "string \<Rightarrow> (nat \<times> string) option" where
  "parse_frac s =
     (case lit (CHR ''.'') s of
        None \<Rightarrow> Some (0, s)
      | Some r \<Rightarrow>
          (let d = takeWhile is_digit r
           in if d = [] then None
              else Some (nat_of_digits (take 9 (d @ replicate 9 (CHR ''0''))), drop (length d) r)))"

definition parseTime :: "string \<Rightarrow> gotime option" where
  "parseTime s = do {
     (y, s) \<leftarrow> num 4 s; s \<leftarrow> lit (CHR ''-'') s;
     (mo, s) \<leftarrow> num 2 s; s \<leftarrow> lit (CHR ''-'') s;
     (d, s) \<leftarrow> num 2 s; s \<leftarrow> lit (CHR ''T'') s;
     (h, s) \<leftarrow> num 2 s; s \<leftarrow> lit (CHR '':'') s;
     (mi, s) \<leftarrow> num 2 s; s \<leftarrow> lit (CHR '':'') s;
     (se, s) \<leftarrow> num 2 s;
     (ns, s) \<leftarrow> parse_frac s;
     let t = \<lparr>yr = y, mon = mo, day = d, hr = h, mnt = mi, sec = se, nsec = ns\<rparr>;
     if s = ''Z'' \<and> wf_time t then Some t else None
   }"

text \<open>The program drops the parse error: \<open>t, _ = time.Parse(...)\<close> leaves the zero time.\<close>

definition parse_or_zero :: "string \<Rightarrow> gotime" where
  "parse_or_zero s = (case parseTime s of Some t \<Rightarrow> t | None \<Rightarrow> zeroTime)"

section \<open>Printing and parsing agree\<close>

declare digits_of_numeral [simp del]

lemma num_digits_of [simp]: "n < 10 ^ k \<Longrightarrow> num k (digits_of k n @ r) = Some (n, r)"
  by (simp add: num_def digits_of_digit nat_of_digits_of)

lemma takeWhile_eq_replicate: "takeWhile (\<lambda>x. x = c) s = replicate (length (takeWhile (\<lambda>x. x = c) s)) c"
  by (induction s) auto

lemma TrimRight_zeros:
  "\<exists>j. s = TrimRight s ''0'' @ replicate j (CHR ''0'')"
proof -
  let ?p = "\<lambda>c. c = CHR ''0''"
  let ?j = "length (takeWhile ?p (rev s))"
  have "rev s = replicate ?j (CHR ''0'') @ dropWhile ?p (rev s)"
    using takeWhile_dropWhile_id [of ?p "rev s"] takeWhile_eq_replicate [of "CHR ''0''" "rev s"]
    by simp
  then have "rev (rev s) = rev (replicate ?j (CHR ''0'') @ dropWhile ?p (rev s))"
    by (rule arg_cong)
  then have "s = rev (dropWhile ?p (rev s)) @ replicate ?j (CHR ''0'')"
    by simp
  moreover have "TrimRight s ''0'' = rev (dropWhile ?p (rev s))" by (simp add: TrimRight_def)
  ultimately show ?thesis by auto
qed

lemma take9_TrimRight:
  assumes "length s = 9"
  shows "take 9 (TrimRight s ''0'' @ replicate 9 (CHR ''0'')) = s"
proof -
  obtain j where j: "s = TrimRight s ''0'' @ replicate j (CHR ''0'')"
    using TrimRight_zeros by blast
  with assms have len: "length (TrimRight s ''0'') + j = 9"
    by (metis length_append length_replicate)
  then have "take 9 (TrimRight s ''0'' @ replicate 9 (CHR ''0''))
      = TrimRight s ''0'' @ replicate j (CHR ''0'')"
    by (simp add: take_replicate min_def)
  with j show ?thesis by simp
qed

lemma TrimRight_digits_ne:
  assumes "0 < n" "n < 10 ^ 9"
  shows "TrimRight (digits_of 9 n) ''0'' \<noteq> []"
proof
  assume e: "TrimRight (digits_of 9 n) ''0'' = []"
  have "digits_of 9 n = replicate 9 (CHR ''0'')"
    using take9_TrimRight [of "digits_of 9 n"] e by simp
  moreover have "nat_of_digits (replicate 9 (CHR ''0'')) = 0" by code_simp
  ultimately show False using nat_of_digits_of [OF assms(2)] assms(1) by simp
qed

lemma TrimRight_set: "set (TrimRight s c) \<subseteq> set s"
  by (auto simp: TrimRight_def dest: set_dropWhileD)

lemma parse_frac_frac [simp]:
  assumes "n < 1000000000"
  shows "parse_frac (frac n @ ''Z'') = Some (n, ''Z'')"
proof (cases "n = 0")
  case True
  then show ?thesis by (simp add: parse_frac_def frac_def)
next
  case False
  let ?d = "TrimRight (digits_of 9 n) ''0''"
  have n: "n < 10 ^ 9" using assms by simp
  have dig: "\<forall>c \<in> set ?d. is_digit c"
    using digits_of_digit TrimRight_set by (fastforce simp: list_all_iff)
  have z: "\<not> is_digit (CHR ''Z'')" by (simp add: char_class_defs)
  have "takeWhile is_digit (?d @ ''Z'') = ?d"
    using dig z by (simp add: takeWhile_append2)
  moreover have "?d \<noteq> []" using False n by (intro TrimRight_digits_ne) auto
  ultimately show ?thesis
    using False nat_of_digits_of [OF n] take9_TrimRight [of "digits_of 9 n"]
    by (simp add: parse_frac_def frac_def Let_def)
qed

lemma parse_format: "wf_time t \<Longrightarrow> parseTime (formatNano t) = Some t"
proof -
  assume wf: "wf_time t"
  have dm: "days_in m y < 100" for m y by (simp add: days_in_def)
  have b: "yr t < 10 ^ 4" "mon t < 10 ^ 2" "day t < 10 ^ 2" "hr t < 10 ^ 2" "mnt t < 10 ^ 2"
    "sec t < 10 ^ 2" "nsec t < 1000000000"
    using wf dm [of "mon t" "yr t"] by (auto simp: wf_time_def)
  show ?thesis
    using wf b by (cases t) (simp add: parseTime_def formatNano_def format_secs_def Let_def)
qed

lemma parse_or_zero_format [simp]: "wf_time t \<Longrightarrow> parse_or_zero (formatNano t) = t"
  by (simp add: parse_or_zero_def parse_format)

lemma formatNano_inj: "wf_time a \<Longrightarrow> wf_time b \<Longrightarrow> formatNano a = formatNano b \<Longrightarrow> a = b"
  by (metis option.inject parse_format)

text \<open>Every clock reading with a four-digit year survives the trip through its
  RFC3339Nano text: what the store writes in a time column, it reads back unchanged.\<close>

theorem time_text_roundtrip:
  "wf_time t \<Longrightarrow> parse_or_zero (formatNano t) = t"
  by (rule parse_or_zero_format)

theorem time_text_roundtrip_witness:
  "parse_or_zero (formatNano zeroTime) = zeroTime \<and> formatNano zeroTime = ''0001-01-01T00:00:00Z''"
proof -
  have "wf_time zeroTime" by (simp add: wf_time_def zeroTime_def days_in_def)
  moreover have "formatNano zeroTime = ''0001-01-01T00:00:00Z''"
    by (simp add: formatNano_def format_secs_def zeroTime_def frac_def char_of_def digits_of_numeral bit_Suc_0_iff)
  ultimately show ?thesis using time_text_roundtrip by blast
qed

end
