(* ===== verification/Model.thy ===== *)
theory Model
  imports GoTime
begin

text \<open>
  The domain types of \<open>internal/model/model.go\<close> and the constants of that file.
\<close>

record DatabaseProject =
  ID :: int
  Name :: string
  Engine :: string
  DatabaseName :: string
  DatabaseUser :: string
  SecretPath :: string
  Status :: string
  LastError :: string
  CreatedAt :: gotime
  UpdatedAt :: gotime

record Token =
  tokID :: int
  tokName :: string
  TokenHash :: string
  tokCreatedAt :: gotime
  LastUsedAt :: "gotime option"
  RevokedAt :: "gotime option"

record AuditLog =
  audID :: int
  Action :: string
  Resource :: string
  ResourceName :: string
  Success :: bool
  Message :: string
  RemoteIP :: string
  audCreatedAt :: gotime

definition StatusPending :: string where "StatusPending = ''pending''"

definition StatusReady :: string where "StatusReady = ''ready''"

definition StatusError :: string where "StatusError = ''error''"

definition StatusDeleted :: string where "StatusDeleted = ''deleted''"

lemmas status_defs = StatusPending_def StatusReady_def StatusError_def StatusDeleted_def

lemma status_distinct [simp]:
  "StatusPending \<noteq> StatusReady" "StatusReady \<noteq> StatusPending"
  "StatusError \<noteq> StatusReady" "StatusReady \<noteq> StatusError"
  "StatusError \<noteq> StatusPending" "StatusPending \<noteq> StatusError"
  by (simp_all add: status_defs)

definition ActionDatabaseCreate :: string where "ActionDatabaseCreate = ''database.create''"

definition ActionDatabaseGet :: string where "ActionDatabaseGet = ''database.get''"

definition ActionDatabaseRotate :: string where "ActionDatabaseRotate = ''database.rotate''"

definition ActionDatabaseDelete :: string where "ActionDatabaseDelete = ''database.delete''"

definition ActionAuthSuccess :: string where "ActionAuthSuccess = ''auth.success''"

definition ActionAuthFailure :: string where "ActionAuthFailure = ''auth.failure''"

text \<open>The zero value of a project, which the code returns beside an error.\<close>

definition zeroProject :: DatabaseProject where
  "zeroProject = \<lparr>ID = 0, Name = '''', Engine = '''', DatabaseName = '''', DatabaseUser = '''',
     SecretPath = '''', Status = '''', LastError = '''', CreatedAt = zeroTime, UpdatedAt = zeroTime\<rparr>"

end
