(* ===== verification/Utf8.thy ===== *)
theory Utf8
  imports Prelude
begin

text \<open>
  Go strings read rune by rune: \<open>utf8.DecodeRune\<close> with its replacement rune for malformed
  bytes, \<open>utf8.EncodeRune\<close>, and \<open>strings.ToLower\<close> on them.
\<close>

section \<open>Runes\<close>

definition RuneError :: nat where "RuneError = 0xFFFD"

definition continuation :: "char \<Rightarrow> bool" where
  "continuation c \<longleftrightarrow> 0x80 \<le> code c \<and> code c \<le> 0xBF"

text \<open>The bytes that may follow a first byte: the length of the encoding, and the range of the
  second byte. None for a byte that cannot start a longer encoding.\<close>

definition lead :: "nat \<Rightarrow> (nat \<times> nat \<times> nat) option" where
  "lead b =
     (if 0xC2 \<le> b \<and> b \<le> 0xDF then Some (2, 0x80, 0xBF)
      else if b = 0xE0 then Some (3, 0xA0, 0xBF)
      else if b = 0xED then Some (3, 0x80, 0x9F)
      else if 0xE1 \<le> b \<and> b \<le> 0xEF then Some (3, 0x80, 0xBF)
      else if b = 0xF0 then Some (4, 0x90, 0xBF)
      else if 0xF1 \<le> b \<and> b \<le> 0xF3 then Some (4, 0x80, 0xBF)
      else if b = 0xF4 then Some (4, 0x80, 0x8F)
      else None)"

definition well_formed :: "nat \<times> nat \<times> nat \<Rightarrow> string \<Rightarrow> bool" where
  "well_formed l s =
     (case l of (n, lo, hi) \<Rightarrow>
        n \<le> length s \<and> lo \<le> code (s ! 1) \<and> code (s ! 1) \<le> hi \<and> list_all continuation (take (n - 2) (drop 2 s)))"

definition low_bits :: "string \<Rightarrow> nat" where
  "low_bits cs = foldl (\<lambda>r c. r * 64 + (code c - 0x80)) 0 cs"

text \<open>The first rune of a non-empty string, and its width.\<close>

definition DecodeRune :: "string \<Rightarrow> nat \<times> nat" where
  "DecodeRune s =
     (let b = code (hd s) in
      if b < 0x80 then (b, 1)
      else case lead b of
        None \<Rightarrow> (RuneError, 1)
      | Some l \<Rightarrow>
          (if well_formed l s
           then ((if fst l = 2 then b - 0xC0 else if fst l = 3 then b - 0xE0 else b - 0xF0) * 64 ^ (fst l - 1)
                   + low_bits (take (fst l - 1) (tl s)), fst l)
           else (RuneError, 1)))"

lemma lead_width: "lead b = Some l \<Longrightarrow> 2 \<le> fst l \<and> fst l \<le> 4"
  by (auto simp: lead_def split: if_splits)

lemma DecodeRune_width: "0 < snd (DecodeRune s)"
  by (auto simp: DecodeRune_def Let_def split: option.splits dest: lead_width)

text \<open>A loop \<open>for _, r := range s\<close>.\<close>

function runes :: "string \<Rightarrow> nat list" where
  "runes [] = []"
| "runes (c # s) = fst (DecodeRune (c # s)) # runes (drop (snd (DecodeRune (c # s))) (c # s))"
  by pat_completeness auto
termination
proof (relation "measure length")
  fix c :: char and s :: string
  show "(drop (snd (DecodeRune (c # s))) (c # s), c # s) \<in> measure length"
    using DecodeRune_width [of "c # s"] by simp
qed simp

declare runes.simps(2) [simp del]

lemma runes_ASCII_Cons: "code c < 0x80 \<Longrightarrow> runes (c # s) = code c # runes s"
  by (simp add: runes.simps(2) DecodeRune_def)

lemma runes_ASCII: "list_all (\<lambda>c. code c < 0x80) s \<Longrightarrow> runes s = map code s"
  by (induction s) (simp_all add: runes_ASCII_Cons)

definition EncodeRune :: "nat \<Rightarrow> string" where
  "EncodeRune r0 =
     (let r = if r0 > 0x10FFFF \<or> (0xD800 \<le> r0 \<and> r0 \<le> 0xDFFF) then RuneError else r0 in
      if r < 0x80 then [char_of r]
      else if r < 0x800 then [char_of (0xC0 + r div 64), char_of (0x80 + r mod 64)]
      else if r < 0x10000 then
        [char_of (0xE0 + r div 4096), char_of (0x80 + r div 64 mod 64), char_of (0x80 + r mod 64)]
      else
        [char_of (0xF0 + r div 262144), char_of (0x80 + r div 4096 mod 64), char_of (0x80 + r div 64 mod 64),
         char_of (0x80 + r mod 64)])"

lemma EncodeRune_ASCII: "r < 0x80 \<Longrightarrow> EncodeRune r = [char_of r]"
  by (simp add: EncodeRune_def)

section \<open>Formatting\<close>

text \<open>A verb such as \<open>%-20s\<close>: padded on the right to a number of runes.\<close>

definition pad :: "nat \<Rightarrow> string \<Rightarrow> string" where
  "pad n s = s @ replicate (n - length (runes s)) (CHR '' '')"

text \<open>\<open>%d\<close> of an integer.\<close>

definition Itoa_int :: "int \<Rightarrow> string" where
  "Itoa_int i = (if i < 0 then CHR ''-'' # Itoa (nat (- i)) else Itoa (nat i))"

section \<open>Lower case\<close>

text \<open>
  \<open>unicode.ToLower\<close>: the ASCII letters, and the only two other runes whose lower case is an
  ASCII letter. Every other rune is mapped to a non-ASCII rune and stands for itself here:
  the sources compare the result with ASCII text only, or replace its other runes.
\<close>

definition lower_rune :: "nat \<Rightarrow> nat" where
  "lower_rune r =
     (if 65 \<le> r \<and> r \<le> 90 then r + 32
      else if r = 0x130 then 105
      else if r = 0x212A then 107
      else r)"

definition ToLower :: "string \<Rightarrow> string" where
  "ToLower s = concat (map (EncodeRune \<circ> lower_rune) (runes s))"

lemma ToLower_Nil [simp]: "ToLower [] = []"
  by (simp add: ToLower_def)

lemma lower_rune_ASCII: "r < 0x80 \<Longrightarrow> lower_rune r < 0x80"
  by (simp add: lower_rune_def)

lemma EncodeRune_lower: "code c < 0x80 \<Longrightarrow> EncodeRune (lower_rune (code c)) = [lower_char c]"
  by (auto simp: EncodeRune_ASCII lower_rune_def lower_char_def char_class_defs)

lemma ToLower_ASCII: "list_all (\<lambda>c. code c < 0x80) s \<Longrightarrow> ToLower s = map lower_char s"
  by (induction s) (simp_all add: ToLower_def runes_ASCII_Cons EncodeRune_lower)

lemma ToLower_id:
  assumes "list_all (\<lambda>c. code c < 0x80 \<and> \<not> is_upper c) s"
  shows "ToLower s = s"
proof -
  have "list_all (\<lambda>c. code c < 0x80) s" using assms by (simp add: list_all_iff)
  then have "ToLower s = map lower_char s" by (rule ToLower_ASCII)
  also have "\<dots> = s" using assms by (induction s) auto
  finally show ?thesis .
qed

end
