(* ===== verification/Names.thy ===== *)
theory Names
  imports Model Utf8
begin

text \<open>
  \<open>internal/model/name.go\<close>: the project-name policy, the normaliser, and the MySQL
  identifiers derived from a name. The lemmas say what a validated name can hold, that the
  normaliser's output passes the policy, and exactly when two names share identifiers.
\<close>

section \<open>The name policy\<close>

definition MaxProjectNameLen :: nat where
  "MaxProjectNameLen = 63"

definition name_char :: "char \<Rightarrow> bool" where
  "name_char c \<longleftrightarrow> is_lower c \<or> is_digit c \<or> c = CHR ''_'' \<or> c = CHR ''-''"

text \<open>\<open>projectNameRegex\<close>: \<open>^[a-z0-9][a-z0-9_-]{0,62}$\<close>.\<close>

definition projectNameRegexText :: string where
  "projectNameRegexText = ''^[a-z0-9][a-z0-9_-]{0,62}$''"

fun projectNameRegex :: "string \<Rightarrow> bool" where
  "projectNameRegex [] = False"
| "projectNameRegex (c # cs) =
     ((is_lower c \<or> is_digit c) \<and> length cs \<le> 62 \<and> list_all name_char cs)"

definition ValidateProjectName :: "string \<Rightarrow> goerr option" where
  "ValidateProjectName name =
     (if name = [] then Some (ErrText ''project name is required'')
      else if length name > MaxProjectNameLen
        then Some (ErrText (''project name too long (max '' @ Itoa MaxProjectNameLen @ '')''))
      else if \<not> projectNameRegex name
        then Some (ErrText (''project name must match '' @ projectNameRegexText))
      else None)"

abbreviation valid_name :: "string \<Rightarrow> bool" where
  "valid_name n \<equiv> ValidateProjectName n = None"

section \<open>Normalisation\<close>

text \<open>\<open>normalizedPrefixRegex.ReplaceAllString(s, "_")\<close>: one underscore for every other rune.\<close>

definition name_rune :: "nat \<Rightarrow> bool" where
  "name_rune r \<longleftrightarrow> r < 0x80 \<and> name_char (char_of r)"

definition replace_disallowed :: "string \<Rightarrow> string" where
  "replace_disallowed s = map (\<lambda>r. if name_rune r then char_of r else CHR ''_'') (runes s)"

definition NormalizeProjectName :: "string \<Rightarrow> string" where
  "NormalizeProjectName name =
     (let s = ToLower (TrimSpace name);
          s = replace_disallowed s;
          s = TrimCut s ''_-''
      in if s = [] then []
         else if length s > MaxProjectNameLen then take MaxProjectNameLen s
         else s)"

section \<open>Derived identifiers\<close>

definition ProjectIdentifiers :: "string \<Rightarrow> string \<times> string" where
  "ProjectIdentifiers name =
     (let safe = ReplaceByte name (CHR ''-'') (CHR ''_'')
      in (safe @ ''_db'', safe @ ''_user''))"

section \<open>What the policy guarantees\<close>

lemma name_char_plain: "name_char c \<Longrightarrow> plain_char c"
  by (auto simp: name_char_def char_class_defs plain_char_def)

lemma valid_name_iff:
  "valid_name n \<longleftrightarrow>
     n \<noteq> [] \<and> length n \<le> 63 \<and> (is_lower (hd n) \<or> is_digit (hd n)) \<and> list_all name_char n"
proof (cases n)
  case Nil
  then show ?thesis by (simp add: ValidateProjectName_def)
next
  case (Cons c cs)
  have "is_lower c \<or> is_digit c \<Longrightarrow> name_char c" by (auto simp: name_char_def)
  with Cons show ?thesis
    by (auto simp: ValidateProjectName_def MaxProjectNameLen_def)
qed

lemma valid_name_chars: "valid_name n \<Longrightarrow> c \<in> set n \<Longrightarrow> name_char c"
  by (simp add: valid_name_iff list_all_iff)

lemma valid_name_length: "valid_name n \<Longrightarrow> 0 < length n \<and> length n \<le> 63"
  by (auto simp: valid_name_iff)

lemma valid_name_ne: "valid_name n \<Longrightarrow> n \<noteq> []"
  by (auto simp: valid_name_iff)

lemma valid_name_TrimSpace: "valid_name n \<Longrightarrow> TrimSpace n = n"
  by (rule TrimSpace_all_plain) (auto simp: list_all_iff valid_name_iff intro: name_char_plain)

lemma invalid_name_error: "ValidateProjectName n \<noteq> None \<Longrightarrow> \<exists>t. ValidateProjectName n = Some (ErrText t)"
  by (auto simp: ValidateProjectName_def split: if_splits)

lemma identifier_chars:
  assumes "valid_name n" and "c \<in> set (fst (ProjectIdentifiers n)) \<union> set (snd (ProjectIdentifiers n))"
  shows "is_lower c \<or> is_digit c \<or> c = CHR ''_''"
proof -
  have "is_lower c \<or> is_digit c \<or> c = CHR ''_''"
    if "c \<in> set (ReplaceByte n (CHR ''-'') (CHR ''_''))" for c
    using that valid_name_chars [OF assms(1)] by (auto simp: ReplaceByte_def name_char_def)
  moreover have "is_lower d" if "d \<in> set ''db'' \<union> set ''user''" for d
    using that by (auto simp: char_class_defs)
  ultimately show ?thesis
    using assms(2) by (auto simp: ProjectIdentifiers_def Let_def)
qed

lemma length_identifiers [simp]:
  "length (fst (ProjectIdentifiers n)) = length n + 3"
  "length (snd (ProjectIdentifiers n)) = length n + 5"
  by (simp_all add: ProjectIdentifiers_def ReplaceByte_def Let_def)

text \<open>The two names of a project are never each other's.\<close>

lemma identifiers_ne [simp]:
  "fst (ProjectIdentifiers n) \<noteq> []" "snd (ProjectIdentifiers n) \<noteq> []"
  by (simp_all add: ProjectIdentifiers_def Let_def)

section \<open>When identifiers collide\<close>

definition hyphen_fold :: "string \<Rightarrow> string" where
  "hyphen_fold n = ReplaceByte n (CHR ''-'') (CHR ''_'')"

lemma ProjectIdentifiers_eq_iff:
  "ProjectIdentifiers a = ProjectIdentifiers b \<longleftrightarrow> hyphen_fold a = hyphen_fold b"
  "fst (ProjectIdentifiers a) = fst (ProjectIdentifiers b) \<longleftrightarrow> hyphen_fold a = hyphen_fold b"
  "snd (ProjectIdentifiers a) = snd (ProjectIdentifiers b) \<longleftrightarrow> hyphen_fold a = hyphen_fold b"
  by (auto simp: ProjectIdentifiers_def hyphen_fold_def Let_def)

lemma hyphen_fold_id: "CHR ''-'' \<notin> set a \<Longrightarrow> hyphen_fold a = a"
  by (induction a) (auto simp: hyphen_fold_def ReplaceByte_def)

lemma hyphen_free_identifiers_inj:
  "CHR ''-'' \<notin> set a \<Longrightarrow> CHR ''-'' \<notin> set b \<Longrightarrow>
     ProjectIdentifiers a = ProjectIdentifiers b \<Longrightarrow> a = b"
  by (simp add: ProjectIdentifiers_eq_iff hyphen_fold_id)

section \<open>The normaliser\<close>

lemma set_TrimCut: "set (TrimCut s c) \<subseteq> set s"
proof
  fix x assume "x \<in> set (TrimCut s c)"
  then have "x \<in> set (dropWhile (\<lambda>y. y \<in> set c) s)"
    using TrimRight_set by (auto simp: TrimCut_def)
  then show "x \<in> set s" by (rule set_dropWhileD)
qed

lemma hd_TrimCut: "TrimCut s c \<noteq> [] \<Longrightarrow> hd (TrimCut s c) \<notin> set c"
proof -
  assume ne: "TrimCut s c \<noteq> []"
  let ?t = "dropWhile (\<lambda>x. x \<in> set c) s"
  have t: "?t \<noteq> []"
  proof
    assume "?t = []"
    then have "TrimCut s c = []" by (simp only: TrimCut_def) (simp add: TrimRight_def)
    with ne show False by contradiction
  qed
  have "\<exists>r. ?t = TrimRight ?t c @ r"
    unfolding TrimRight_def
    by (metis rev_append rev_rev_ident takeWhile_dropWhile_id)
  then have "hd (TrimCut s c) = hd ?t"
    using ne by (auto simp: TrimCut_def) (metis hd_append2)
  with hd_dropWhile [OF t] show ?thesis by simp
qed

lemma TrimCut_take_hd: "0 < k \<Longrightarrow> s \<noteq> [] \<Longrightarrow> hd (take k s) = hd s"
  by (cases s; cases k) auto

lemma replace_disallowed_chars: "c \<in> set (replace_disallowed s) \<Longrightarrow> name_char c"
  by (auto simp: replace_disallowed_def name_rune_def split: if_splits) (simp_all add: name_char_def)

lemma normalize_accepted: "NormalizeProjectName s = [] \<or> valid_name (NormalizeProjectName s)"
proof -
  let ?t = "TrimCut (replace_disallowed (ToLower (TrimSpace s))) ''_-''"
  have nc: "name_char c" if "c \<in> set ?t" for c
    using that set_TrimCut replace_disallowed_chars by blast
  have "valid_name (take k ?t)" if ne: "?t \<noteq> []" and k: "0 < k" "k \<le> 63" for k
  proof -
    have hd: "hd (take k ?t) = hd ?t" using ne k by (simp add: TrimCut_take_hd)
    from ne have "hd ?t \<in> set ?t" by simp
    then have "name_char (hd ?t)" by (rule nc)
    moreover have "hd ?t \<notin> set ''_-''" using hd_TrimCut [OF ne] .
    ultimately have "is_lower (hd ?t) \<or> is_digit (hd ?t)" by (auto simp: name_char_def)
    moreover have "list_all name_char (take k ?t)"
      using nc by (auto simp: list_all_iff dest: in_set_takeD)
    ultimately show ?thesis using ne k hd by (simp add: valid_name_iff)
  qed
  from this [of 63] this [of "length ?t"] show ?thesis
    by (auto simp: NormalizeProjectName_def MaxProjectNameLen_def Let_def)
qed

lemma name_char_not_upper: "name_char c \<Longrightarrow> \<not> is_upper c"
  by (auto simp: name_char_def char_class_defs)

lemma name_char_ASCII: "name_char c \<Longrightarrow> code c < 0x80"
  unfolding name_char_def char_class_defs by auto

lemma ToLower_valid: "valid_name n \<Longrightarrow> ToLower n = n"
  by (rule ToLower_id) (auto simp: list_all_iff valid_name_iff name_char_ASCII dest!: name_char_not_upper)

lemma replace_disallowed_id: "list_all name_char n \<Longrightarrow> replace_disallowed n = n"
  by (induction n) (simp_all add: replace_disallowed_def runes_ASCII_Cons name_char_ASCII name_rune_def)

lemma TrimCut_id:
  assumes "s \<noteq> []" "hd s \<notin> set c" "last s \<notin> set c"
  shows "TrimCut s c = s"
proof -
  have "dropWhile (\<lambda>x. x \<in> set c) s = s" using assms by (cases s) auto
  moreover have "dropWhile (\<lambda>x. x \<in> set c) (rev s) = rev s"
    using assms by (cases s rule: rev_cases) auto
  ultimately show ?thesis by (simp add: TrimCut_def TrimRight_def)
qed

lemma normalize_keeps_valid:
  assumes "valid_name n" and "last n \<notin> set ''_-''"
  shows "NormalizeProjectName n = n"
proof -
  have v: "n \<noteq> []" "length n \<le> 63" "list_all name_char n" "is_lower (hd n) \<or> is_digit (hd n)"
    using assms(1) by (simp_all add: valid_name_iff)
  from v(4) have "hd n \<notin> set ''_-''" by auto
  then have "TrimCut n ''_-'' = n" using v(1) assms(2) by (intro TrimCut_id)
  with v show ?thesis
    by (simp add: NormalizeProjectName_def MaxProjectNameLen_def ToLower_valid [OF assms(1)]
        valid_name_TrimSpace [OF assms(1)] replace_disallowed_id)
qed

text \<open>C40: two project names are given the same MySQL database exactly when they are given the
  same MySQL user, and exactly when they differ only in hyphens against underscores; the
  name policy accepts such pairs (\<open>a-b\<close> and \<open>a_b\<close>), so distinct valid projects can share
  their database and their account.\<close>

theorem identifiers_collide_iff:
  "(fst (ProjectIdentifiers a) = fst (ProjectIdentifiers b) \<longleftrightarrow> hyphen_fold a = hyphen_fold b)
   \<and> (snd (ProjectIdentifiers a) = snd (ProjectIdentifiers b) \<longleftrightarrow> hyphen_fold a = hyphen_fold b)
   \<and> (\<exists>m n. m \<noteq> n \<and> valid_name m \<and> valid_name n \<and> ProjectIdentifiers m = ProjectIdentifiers n)"
proof -
  have "''a-b'' \<noteq> ''a_b'' \<and> valid_name ''a-b'' \<and> valid_name ''a_b''
      \<and> ProjectIdentifiers ''a-b'' = ProjectIdentifiers ''a_b''"
    by (simp add: valid_name_iff name_char_def char_class_defs ProjectIdentifiers_def
        ReplaceByte_def)
  then have "\<exists>m n. m \<noteq> n \<and> valid_name m \<and> valid_name n \<and> ProjectIdentifiers m = ProjectIdentifiers n"
    by (intro exI)
  then show ?thesis by (simp only: ProjectIdentifiers_eq_iff simp_thms)
qed

text \<open>Whatever text it is given, the normaliser answers the empty string or a name
  the policy accepts, and it leaves every accepted name that does not end in a hyphen or an
  underscore as it is.\<close>

theorem normalize_sound:
  "(NormalizeProjectName s = [] \<or> valid_name (NormalizeProjectName s))
   \<and> (valid_name n \<and> last n \<notin> set ''_-'' \<longrightarrow> NormalizeProjectName n = n)"
  using normalize_accepted [of s] normalize_keeps_valid [of n] by simp

theorem normalize_sound_witness:
  "NormalizeProjectName ''with-123'' = ''with-123'' \<and> valid_name (NormalizeProjectName ''with-123'')"
proof -
  have "valid_name ''with-123''" "last ''with-123'' \<notin> set ''_-''"
    by (simp_all add: valid_name_iff name_char_def char_class_defs)
  with normalize_sound [of "''with-123''" "''with-123''"] show ?thesis by simp
qed

end
