(* ===== verification/Passwords.thy ===== *)
theory Passwords
  imports Model
begin

text \<open>
  \<open>internal/model/secret.go\<close>: the bearer tokens and the MySQL passwords. Randomness is an
  argument: \<open>ent k\<close> answers the \<open>k\<close>-th call of \<open>crypto/rand.Read\<close> with bytes or with an
  error text. Every statement below holds for every such source.
\<close>

section \<open>Randomness and base64url\<close>

type_synonym entropy = "nat \<Rightarrow> string + 8 word list"

text \<open>\<open>rand.Read(buf[:])\<close> fills the whole buffer or fails; a supply that is too short is
  padded, so that the buffer always has its declared length.\<close>

definition rand_read :: "entropy \<Rightarrow> nat \<Rightarrow> nat \<Rightarrow> string + 8 word list" where
  "rand_read ent k n =
     (case ent k of Inl e \<Rightarrow> Inl e | Inr bs \<Rightarrow> Inr (take n (bs @ replicate n 0)))"

lemma rand_read_length: "rand_read ent k n = Inr bs \<Longrightarrow> length bs = n"
  by (auto simp: rand_read_def split: sum.splits)

definition b64_alphabet :: string where
  "b64_alphabet = ''ABCDEFGHIJKLMNOPQRSTUVWXYZabcdefghijklmnopqrstuvwxyz0123456789-_''"

definition b64_char :: "nat \<Rightarrow> char" where
  "b64_char i = b64_alphabet ! i"

text \<open>\<open>base64.RawURLEncoding.EncodeToString\<close>: three bytes give four characters, and the
  rest is written without padding.\<close>

fun EncodeToString :: "8 word list \<Rightarrow> string" where
  "EncodeToString [] = []"
| "EncodeToString [a] =
     (let v = unat a in [b64_char (v div 4), b64_char (v mod 4 * 16)])"
| "EncodeToString [a, b] =
     (let v = unat a * 256 + unat b
      in [b64_char (v div 1024), b64_char (v div 16 mod 64), b64_char (v mod 16 * 4)])"
| "EncodeToString (a # b # c # r) =
     (let v = unat a * 65536 + unat b * 256 + unat c
      in b64_char (v div 262144) # b64_char (v div 4096 mod 64) # b64_char (v div 64 mod 64)
         # b64_char (v mod 64) # EncodeToString r)"

definition TokenPrefix :: string where
  "TokenPrefix = ''dbi_''"

section \<open>Tokens\<close>

definition RandomToken :: "entropy \<Rightarrow> nat \<Rightarrow> string outcome \<times> nat" where
  "RandomToken ent k =
     (case rand_read ent k 24 of
        Inl e \<Rightarrow> (Fail (ErrText (''rand: '' @ e)), Suc k)
      | Inr buf \<Rightarrow> (Ret (TokenPrefix @ EncodeToString buf), Suc k))"

section \<open>Passwords\<close>

definition lowerSet :: string where "lowerSet = ''abcdefghijklmnopqrstuvwxyz''"

definition upperSet :: string where "upperSet = ''ABCDEFGHIJKLMNOPQRSTUVWXYZ''"

definition digitSet :: string where "digitSet = ''0123456789''"

definition specSet :: string where "specSet = ''!@#$%^&*''"

text \<open>The deduplication loop over \<open>pos\<close>: a position that was seen is replaced by the first
  unseen index, if there is one.\<close>

fun dedup :: "nat \<Rightarrow> nat list \<Rightarrow> nat list \<Rightarrow> nat list" where
  "dedup n seen [] = []"
| "dedup n seen (p # ps) =
     (if p \<in> set seen then
        (case find (\<lambda>j. j \<notin> set seen) [0..<n] of
           Some j \<Rightarrow> j # dedup n (j # seen) ps
         | None \<Rightarrow> p # dedup n seen ps)
      else p # dedup n (p # seen) ps)"

declare dedup.simps [simp del]

definition overwrite_classes :: "string \<Rightarrow> nat list \<Rightarrow> 8 word list \<Rightarrow> string" where
  "overwrite_classes pw pos idx =
     pw[pos ! 0 := lowerSet ! (unat (idx ! 0) mod length lowerSet),
        pos ! 1 := upperSet ! (unat (idx ! 1) mod length upperSet),
        pos ! 2 := digitSet ! (unat (idx ! 2) mod length digitSet),
        pos ! 3 := specSet ! (unat (idx ! 3) mod length specSet)]"

definition RandomPassword :: "entropy \<Rightarrow> nat \<Rightarrow> string outcome \<times> nat" where
  "RandomPassword ent k =
     (case rand_read ent k 24 of
        Inl e \<Rightarrow> (Fail (ErrText (''rand: '' @ e)), Suc k)
      | Inr buf \<Rightarrow>
         (let pw = EncodeToString buf; n = length pw in
          if n < 8 then
            (Fail (ErrText (''internal: base64-encoded buffer too short: '' @ Itoa n)), Suc k)
          else
            (case rand_read ent (Suc k) 4 of
               Inl e \<Rightarrow> (Fail (ErrText (''rand: '' @ e)), Suc (Suc k))
             | Inr idx \<Rightarrow>
                (let pos = dedup n [] [unat (idx ! 0) mod n, unat (idx ! 1) mod n,
                                       unat (idx ! 2) mod n, unat (idx ! 3) mod n]
                 in (Ret (overwrite_classes pw pos idx), Suc (Suc k))))))"

section \<open>Base64url facts\<close>

lemma length_b64_alphabet [simp]: "length b64_alphabet = 64"
  by (simp add: b64_alphabet_def)

lemma distinct_b64_alphabet: "distinct b64_alphabet"
  unfolding b64_alphabet_def by code_simp

lemma b64_char_eq: "i < 64 \<Longrightarrow> j < 64 \<Longrightarrow> b64_char i = b64_char j \<longleftrightarrow> i = j"
  by (simp add: b64_char_def nth_eq_iff_index_eq distinct_b64_alphabet)

lemma byte_bound: "unat (a :: 8 word) < 256"
  using unsigned_less [of a, where ?'a = nat] by simp

lemma pair_decode:
  fixes a b a' b' m :: nat
  assumes "a * m + b = a' * m + b'" "b < m" "b' < m"
  shows "a = a' \<and> b = b'"
proof -
  have "(a * m + b) div m = (a' * m + b') div m" "(a * m + b) mod m = (a' * m + b') mod m"
    using assms(1) by simp_all
  then show ?thesis using assms(2,3) by simp
qed

lemma quad_decode:
  fixes v w :: nat
  assumes "v div 262144 = w div 262144" "v div 4096 mod 64 = w div 4096 mod 64"
    "v div 64 mod 64 = w div 64 mod 64" "v mod 64 = w mod 64"
  shows "v = w"
proof -
  have e: "x = ((x div 262144 * 64 + x div 4096 mod 64) * 64 + x div 64 mod 64) * 64 + x mod 64"
    for x :: nat
  proof -
    have "x div 262144 = x div 64 div 64 div 64" "x div 4096 = x div 64 div 64"
      by (simp_all add: div_mult2_eq [symmetric])
    then show ?thesis by (simp only: div_mult_mod_eq)
  qed
  show ?thesis by (subst e, subst (2) e) (simp only: assms)
qed

lemma word_triple_decode:
  fixes a b c a' b' c' :: "8 word"
  assumes "unat a * 65536 + unat b * 256 + unat c = unat a' * 65536 + unat b' * 256 + unat c'"
  shows "a = a' \<and> b = b' \<and> c = c'"
proof -
  have "(unat a * 256 + unat b) * 256 + unat c = (unat a' * 256 + unat b') * 256 + unat c'"
    using assms by simp
  then have 1: "unat a * 256 + unat b = unat a' * 256 + unat b'" and c: "unat c = unat c'"
    using pair_decode byte_bound by blast+
  then have "unat a = unat a'" "unat b = unat b'"
    using pair_decode byte_bound by blast+
  with c show ?thesis by (simp add: word_unat_eq_iff)
qed

lemma triple_bound: "unat (a :: 8 word) * 65536 + unat (b :: 8 word) * 256 + unat (c :: 8 word) < 16777216"
  using byte_bound [of a] byte_bound [of b] byte_bound [of c] by linarith

lemma encode_triple_inj:
  assumes "EncodeToString (a # b # c # r) = EncodeToString (a' # b' # c' # r')"
  shows "a = a' \<and> b = b' \<and> c = c' \<and> EncodeToString r = EncodeToString r'"
proof -
  let ?v = "unat a * 65536 + unat b * 256 + unat c"
  let ?w = "unat a' * 65536 + unat b' * 256 + unat c'"
  have lt: "?v div 262144 < 64" "?w div 262144 < 64"
    using triple_bound [of a b c] triple_bound [of a' b' c'] by linarith+
  have eqs: "b64_char (?v div 262144) = b64_char (?w div 262144)"
      "b64_char (?v div 4096 mod 64) = b64_char (?w div 4096 mod 64)"
      "b64_char (?v div 64 mod 64) = b64_char (?w div 64 mod 64)"
      "b64_char (?v mod 64) = b64_char (?w mod 64)"
      "EncodeToString r = EncodeToString r'"
    using assms by (simp_all only: EncodeToString.simps Let_def list.inject)
  have "?v div 262144 = ?w div 262144" using eqs(1) b64_char_eq [OF lt] by blast
  moreover have "?v div 4096 mod 64 = ?w div 4096 mod 64" using eqs(2) b64_char_eq by simp
  moreover have "?v div 64 mod 64 = ?w div 64 mod 64" using eqs(3) b64_char_eq by simp
  moreover have "?v mod 64 = ?w mod 64" using eqs(4) b64_char_eq by simp
  ultimately have "?v = ?w" by (rule quad_decode)
  then have "a = a' \<and> b = b' \<and> c = c'" by (rule word_triple_decode)
  with eqs(5) show ?thesis by simp
qed

text \<open>On byte strings of the same length, a multiple of three, the encoding is injective:
  the 24 bytes of a token survive in its text.\<close>

lemma encode_inj:
  "length xs = 3 * k \<Longrightarrow> length ys = 3 * k \<Longrightarrow> EncodeToString xs = EncodeToString ys \<Longrightarrow> xs = ys"
proof (induction k arbitrary: xs ys)
  case 0
  then show ?case by simp
next
  case (Suc k)
  from Suc.prems(1) obtain a b c r where xs: "xs = a # b # c # r"
    by (auto simp: eval_nat_numeral length_Suc_conv)
  from Suc.prems(2) obtain a' b' c' r' where ys: "ys = a' # b' # c' # r'"
    by (auto simp: eval_nat_numeral length_Suc_conv)
  from Suc.prems(3) have "a = a' \<and> b = b' \<and> c = c' \<and> EncodeToString r = EncodeToString r'"
    unfolding xs ys by (rule encode_triple_inj)
  moreover from this Suc.IH [of r r'] Suc.prems xs ys have "r = r'" by simp
  ultimately show ?case using xs ys by simp
qed

lemma length_encode3: "length xs = 3 * k \<Longrightarrow> length (EncodeToString xs) = 4 * k"
proof (induction k arbitrary: xs)
  case 0
  then show ?case by simp
next
  case (Suc k)
  from Suc.prems obtain a b c r where "xs = a # b # c # r"
    by (auto simp: eval_nat_numeral length_Suc_conv)
  with Suc show ?case by (simp add: Let_def)
qed

lemma encode_alphabet: "set (EncodeToString bs) \<subseteq> set b64_alphabet"
proof -
  have in_alpha: "i < 64 \<Longrightarrow> b64_char i \<in> set b64_alphabet" for i
    by (simp add: b64_char_def)
  show ?thesis
  proof (induction bs rule: EncodeToString.induct)
    case 1
    then show ?case by simp
  next
    case (2 a)
    have "unat a div 4 < 64" "unat a mod 4 * 16 < 64" using byte_bound [of a] by linarith+
    then show ?case by (simp add: Let_def in_alpha)
  next
    case (3 a b)
    have "(unat a * 256 + unat b) div 1024 < 64" "(unat a * 256 + unat b) mod 16 * 4 < 64"
      using byte_bound [of a] byte_bound [of b] by linarith+
    then show ?case by (simp add: Let_def in_alpha)
  next
    case (4 a b c r)
    have "(unat a * 65536 + unat b * 256 + unat c) div 262144 < 64"
      using triple_bound [of a b c] by linarith
    with 4 show ?case by (simp add: Let_def in_alpha)
  qed
qed

section \<open>The four positions\<close>

lemma free_slot_exists:
  assumes "length seen < n"
  shows "\<exists>j. find (\<lambda>j. j \<notin> set seen) [0..<n] = Some j \<and> j < n \<and> j \<notin> set seen"
proof -
  have "\<not> {0..<n} \<subseteq> set seen"
  proof
    assume "{0..<n} \<subseteq> set seen"
    then have "card {0..<n} \<le> card (set seen)" by (intro card_mono) auto
    with card_length [of seen] assms show False by simp
  qed
  then obtain i where "i < n" "i \<notin> set seen" unfolding subset_iff by auto
  then have "find (\<lambda>j. j \<notin> set seen) [0..<n] \<noteq> None" by (auto simp: find_None_iff)
  then obtain j where j: "find (\<lambda>j. j \<notin> set seen) [0..<n] = Some j" by blast
  then have "j \<notin> set seen" "j < n" by (auto simp: find_Some_iff)
  with j show ?thesis by blast
qed

lemma dedup_distinct:
  assumes "length seen + length ps \<le> n" and "\<forall>p \<in> set ps. p < n"
  shows "distinct (dedup n seen ps) \<and> set (dedup n seen ps) \<inter> set seen = {}
    \<and> (\<forall>p \<in> set (dedup n seen ps). p < n) \<and> length (dedup n seen ps) = length ps"
  using assms
proof (induction n seen ps rule: dedup.induct)
  case (1 n seen)
  then show ?case by (simp add: dedup.simps)
next
  case (2 n seen p ps)
  show ?case
  proof (cases "p \<in> set seen")
    case True
    have "length seen < n" using "2.prems" by simp
    then obtain j where j: "find (\<lambda>j. j \<notin> set seen) [0..<n] = Some j" "j < n" "j \<notin> set seen"
      using free_slot_exists by blast
    let ?r = "dedup n (j # seen) ps"
    have "length (j # seen) + length ps \<le> n" "\<forall>p \<in> set ps. p < n" using "2.prems" by auto
    with "2.IH"(2) [OF True j(1)]
    have "distinct ?r \<and> set ?r \<inter> set (j # seen) = {} \<and> (\<forall>p \<in> set ?r. p < n)
      \<and> length ?r = length ps" by blast
    moreover have "dedup n seen (p # ps) = j # ?r" using True j(1) by (simp add: dedup.simps)
    ultimately show ?thesis using j by simp
  next
    case False
    let ?r = "dedup n (p # seen) ps"
    have "length (p # seen) + length ps \<le> n" "\<forall>p \<in> set ps. p < n" using "2.prems" by auto
    with "2.IH"(3) [OF False]
    have "distinct ?r \<and> set ?r \<inter> set (p # seen) = {} \<and> (\<forall>p \<in> set ?r. p < n)
      \<and> length ?r = length ps" by blast
    moreover have "dedup n seen (p # ps) = p # ?r" using False by (simp add: dedup.simps)
    ultimately show ?thesis using False "2.prems" by simp
  qed
qed

lemma distinct4:
  assumes "length ps = 4" "distinct ps"
  shows "ps ! 0 \<noteq> ps ! 1" "ps ! 0 \<noteq> ps ! 2" "ps ! 0 \<noteq> ps ! 3"
    "ps ! 1 \<noteq> ps ! 2" "ps ! 1 \<noteq> ps ! 3" "ps ! 2 \<noteq> ps ! 3"
  using assms by (simp_all add: nth_eq_iff_index_eq)

section \<open>What a password holds\<close>

definition password_char :: "char \<Rightarrow> bool" where
  "password_char c \<longleftrightarrow> c \<in> set b64_alphabet \<or> c \<in> set specSet"

lemma class_sets:
  "list_all is_lower lowerSet" "list_all is_upper upperSet" "list_all is_digit digitSet"
  by (simp_all add: lowerSet_def upperSet_def digitSet_def char_class_defs)

lemma class_set_chars:
  "list_all password_char lowerSet" "list_all password_char upperSet"
  "list_all password_char digitSet" "list_all password_char specSet"
  unfolding password_char_def lowerSet_def upperSet_def digitSet_def specSet_def b64_alphabet_def
  by code_simp+

lemma overwrite_classes_nth:
  assumes "length pos = 4" "distinct pos" "\<forall>p \<in> set pos. p < length pw"
  shows "overwrite_classes pw pos idx ! (pos ! 0) = lowerSet ! (unat (idx ! 0) mod length lowerSet)"
    and "overwrite_classes pw pos idx ! (pos ! 1) = upperSet ! (unat (idx ! 1) mod length upperSet)"
    and "overwrite_classes pw pos idx ! (pos ! 2) = digitSet ! (unat (idx ! 2) mod length digitSet)"
    and "overwrite_classes pw pos idx ! (pos ! 3) = specSet ! (unat (idx ! 3) mod length specSet)"
  using assms distinct4 [OF assms(1,2)]
  by (simp_all add: overwrite_classes_def nth_list_update)

lemma length_overwrite_classes [simp]: "length (overwrite_classes pw pos idx) = length pw"
  by (simp add: overwrite_classes_def)

lemma mod_nth_in: "s \<noteq> [] \<Longrightarrow> s ! (i mod length s) \<in> set s"
  by simp

lemma class_sets_ne [simp]: "lowerSet \<noteq> []" "upperSet \<noteq> []" "digitSet \<noteq> []" "specSet \<noteq> []"
  by (simp_all add: lowerSet_def upperSet_def digitSet_def specSet_def)

lemma overwrite_classes_set:
  "set (overwrite_classes pw pos idx) \<subseteq> set pw \<union> set lowerSet \<union> set upperSet \<union> set digitSet \<union> set specSet"
  unfolding overwrite_classes_def
  by (intro order.trans [OF set_update_subset_insert] insert_subset [THEN iffD2] conjI)
     (auto intro!: order.trans [OF set_update_subset_insert] mod_nth_in)

definition medium_policy :: "string \<Rightarrow> bool" where
  "medium_policy p \<longleftrightarrow> 8 \<le> length p \<and> (\<exists>c \<in> set p. is_lower c) \<and> (\<exists>c \<in> set p. is_upper c)
     \<and> (\<exists>c \<in> set p. is_digit c) \<and> (\<exists>c \<in> set p. c \<in> set specSet)"

lemma overwrite_classes_shape:
  assumes pos: "length pos = 4" "distinct pos" "\<forall>p \<in> set pos. p < length pw"
    and len: "8 \<le> length pw" and chars: "set pw \<subseteq> set b64_alphabet"
  shows "list_all password_char (overwrite_classes pw pos idx)
    \<and> medium_policy (overwrite_classes pw pos idx)"
proof -
  let ?p = "overwrite_classes pw pos idx"
  note nth = overwrite_classes_nth [OF pos, of idx]
  have mem: "?p ! (pos ! i) \<in> set ?p" if "i < 4" for i
    using pos that by (intro nth_mem) simp
  have in_p: "lowerSet ! (unat (idx ! 0) mod length lowerSet) \<in> set ?p"
      "upperSet ! (unat (idx ! 1) mod length upperSet) \<in> set ?p"
      "digitSet ! (unat (idx ! 2) mod length digitSet) \<in> set ?p"
      "specSet ! (unat (idx ! 3) mod length specSet) \<in> set ?p"
    using mem [of 0] mem [of 1] mem [of 2] mem [of 3] by (simp_all only: nth)
  have "is_lower (lowerSet ! (unat (idx ! 0) mod length lowerSet))"
      "is_upper (upperSet ! (unat (idx ! 1) mod length upperSet))"
      "is_digit (digitSet ! (unat (idx ! 2) mod length digitSet))"
      "specSet ! (unat (idx ! 3) mod length specSet) \<in> set specSet"
    using class_sets unfolding list_all_iff by (metis class_sets_ne mod_nth_in)+
  then have "medium_policy ?p" using in_p len unfolding medium_policy_def
    by (metis length_overwrite_classes)
  moreover have "list_all password_char ?p"
    using overwrite_classes_set [of pw pos idx] class_set_chars chars
    by (auto simp: list_all_iff password_char_def)
  ultimately show ?thesis by simp
qed

lemma RandomPassword_shape:
  assumes ret: "RandomPassword ent k = (Ret p, k')"
  shows "length p = 32 \<and> list_all password_char p \<and> medium_policy p"
proof -
  from ret obtain buf where buf: "rand_read ent k 24 = Inr buf"
    by (auto simp: RandomPassword_def split: sum.splits)
  then have "length buf = 3 * 8" by (simp add: rand_read_length)
  then have len: "length (EncodeToString buf) = 32" by (simp add: length_encode3)
  from ret buf len obtain idx where idx: "rand_read ent (Suc k) 4 = Inr idx"
    by (auto simp: RandomPassword_def Let_def split: sum.splits)
  define ps where "ps = [unat (idx ! 0) mod 32, unat (idx ! 1) mod 32, unat (idx ! 2) mod 32,
    unat (idx ! 3) mod 32]"
  define pos where "pos = dedup 32 [] ps"
  have p: "p = overwrite_classes (EncodeToString buf) pos idx"
    using ret buf idx len by (simp add: RandomPassword_def Let_def pos_def ps_def)
  have "distinct pos \<and> set pos \<inter> set [] = {} \<and> (\<forall>q \<in> set pos. q < 32) \<and> length pos = length ps"
    unfolding pos_def by (rule dedup_distinct) (auto simp: ps_def)
  then have "length pos = 4" "distinct pos" "\<forall>q \<in> set pos. q < length (EncodeToString buf)"
    using len by (auto simp: ps_def)
  from overwrite_classes_shape [OF this _ encode_alphabet] len p show ?thesis by simp
qed

text \<open>C35: whatever the random source answers, a password that is returned has exactly 32
  characters, all of them letters, digits, hyphens, underscores or one of eight special
  characters, so no quote, backslash or space, and satisfies the MEDIUM policy of MySQL: at
  least one lower-case letter, one upper-case letter, one digit and one special character.\<close>

theorem password_meets_policy:
  assumes "RandomPassword ent k = (Ret p, k')"
  shows "length p = 32 \<and> medium_policy p
    \<and> (\<forall>c \<in> set p. is_lower c \<or> is_upper c \<or> is_digit c \<or> c \<in> set ''-_!@#$%^&*'')"
proof -
  let ?safe = "\<lambda>c. is_lower c \<or> is_upper c \<or> is_digit c \<or> c \<in> set ''-_!@#$%^&*''"
  have "list_all ?safe (b64_alphabet @ specSet)" by (simp add: b64_alphabet_def specSet_def char_class_defs)
  then have "?safe c" if "password_char c" for c using that unfolding password_char_def list_all_iff set_append by blast
  with RandomPassword_shape [OF assms] show ?thesis unfolding list_all_iff by blast
qed

definition zero_entropy :: entropy where
  "zero_entropy k = Inr []"

lemma zero_b64: "b64_char 0 = CHR ''A''" by (simp add: b64_char_def b64_alphabet_def)

lemma zero_read: "rand_read zero_entropy k n = Inr (replicate n 0)" by (simp add: rand_read_def zero_entropy_def)

lemma replicate_24: "replicate 24 x = [x,x,x,x,x,x,x,x,x,x,x,x,x,x,x,x,x,x,x,x,x,x,x,x]" by (simp add: numeral_eq_Suc)

lemma replicate_32: "replicate 32 x = [x,x,x,x,x,x,x,x,x,x,x,x,x,x,x,x,x,x,x,x,x,x,x,x,x,x,x,x,x,x,x,x]" by (simp add: numeral_eq_Suc)


lemma zero_encode: "EncodeToString (replicate 24 0) = replicate 32 (CHR ''A'')"
 by (simp add: replicate_24 replicate_32 zero_b64)

lemma zero_positions: "dedup 32 [] [0,0,0,0] = [0,1,2,3]"
 by (simp add: dedup.simps upt_conv_Cons)

lemma zero_password_at:
  "RandomPassword zero_entropy k = (Ret ''aA0!AAAAAAAAAAAAAAAAAAAAAAAAAAAA'', k + 2)"
proof -
  have "RandomPassword zero_entropy k = (Ret (overwrite_classes (replicate 32 (CHR ''A'')) [0,1,2,3] (replicate 4 0)), k + 2)"
    by (simp add: RandomPassword_def zero_read zero_encode zero_positions)
  also have "overwrite_classes (replicate 32 (CHR ''A'')) [0,1,2,3] (replicate 4 0) = ''aA0!AAAAAAAAAAAAAAAAAAAAAAAAAAAA''"
    by (simp add: overwrite_classes_def replicate_32 lowerSet_def upperSet_def digitSet_def specSet_def)
  finally show ?thesis .
qed

lemma zero_password: "RandomPassword zero_entropy 0 = (Ret ''aA0!AAAAAAAAAAAAAAAAAAAAAAAAAAAA'', 2)"
  using zero_password_at [of 0] by simp

lemma zero_token:
  "RandomToken zero_entropy 0 = (Ret ''dbi_AAAAAAAAAAAAAAAAAAAAAAAAAAAAAAAA'', 1)"
  by (simp add: RandomToken_def zero_read zero_encode replicate_32 TokenPrefix_def)

theorem password_meets_policy_witness:
  "\<exists>p k'. RandomPassword zero_entropy 0 = (Ret p, k') \<and> length p = 32 \<and> medium_policy p"
  using password_meets_policy [OF zero_password] zero_password by blast

text \<open>A token always starts with the public prefix, has 36 characters, and keeps all of
  its 192 random bits: two random sources give the same token only if they gave the same 24
  bytes.\<close>

theorem token_keeps_randomness:
  assumes "RandomToken ent k = (Ret t, k1)" and "RandomToken ent' j = (Ret t', j1)"
  shows "HasPrefix t TokenPrefix \<and> length t = 36
    \<and> (t = t' \<longrightarrow> rand_read ent k 24 = rand_read ent' j 24)"
proof -
  from assms(1) obtain b where b: "rand_read ent k 24 = Inr b" "t = TokenPrefix @ EncodeToString b"
    by (auto simp: RandomToken_def split: sum.splits)
  from assms(2) obtain b' where b': "rand_read ent' j 24 = Inr b'" "t' = TokenPrefix @ EncodeToString b'"
    by (auto simp: RandomToken_def split: sum.splits)
  have l: "length b = 3 * 8" "length b' = 3 * 8" using b b' rand_read_length by fastforce+
  have "t = t' \<longrightarrow> b = b'" using b b' encode_inj [OF l] by auto
  moreover have "HasPrefix t TokenPrefix" using b by simp
  moreover have "length t = 36" using b length_encode3 [OF l(1)] by (simp add: TokenPrefix_def)
  ultimately show ?thesis using b b' by simp
qed

theorem token_keeps_randomness_witness:
  "\<exists>t k'. RandomToken zero_entropy 0 = (Ret t, k') \<and> HasPrefix t TokenPrefix \<and> length t = 36"
  using token_keeps_randomness [OF zero_token zero_token] zero_token by blast

end
