(* ===== verification/Sqlite.thy ===== *)
theory Sqlite
  imports Model "HOL-Library.Char_ord" "HOL-Library.List_Lexorder" "HOL-Library.Multiset"
begin

text \<open>
  The interface between \<open>internal/store\<close> and its SQL engine. The engine
  (\<open>modernc.org/sqlite\<close> behind \<open>database/sql\<close>) is not part of the repository, so it is a
  parameter \<open>'q sqlite\<close> on an abstract state \<open>'q\<close>. What the repository does fix is the
  schema and the SQL of each statement; their meaning on tables is written out here, and
  the locale \<open>sqlite_engine\<close> states what the store relies on: a statement that succeeds
  has that meaning, a statement that fails changes nothing, an error text names a UNIQUE
  violation only when there is one, and a query that succeeds returns the rows it selects.
  Any statement may fail at any time.
\<close>

section \<open>Tables\<close>

record project_row =
  p_id :: int
  p_name :: string
  p_engine :: string
  p_database :: string
  p_user :: string
  p_secret :: string
  p_status :: string
  p_last_error :: string
  p_created :: string
  p_updated :: string

record token_row =
  t_id :: int
  t_name :: string
  t_hash :: string
  t_created :: string
  t_last_used :: "string option"
  t_revoked :: "string option"

record audit_row =
  a_id :: int
  a_action :: string
  a_resource :: string
  a_name :: string
  a_success :: int
  a_message :: string
  a_ip :: string
  a_created :: string

text \<open>Each AUTOINCREMENT table keeps the largest id it ever gave out.\<close>

record tables =
  projects :: "project_row list"
  projects_seq :: int
  tokens :: "token_row list"
  tokens_seq :: int
  audit_logs :: "audit_row list"
  audit_seq :: int

definition empty_tables :: tables where
  "empty_tables = \<lparr>projects = [], projects_seq = 0, tokens = [], tokens_seq = 0,
     audit_logs = [], audit_seq = 0\<rparr>"

section \<open>Statements\<close>

text \<open>One constructor per statement text of the store, with its bound arguments in order.\<close>

datatype sql_cmd =
    InsertProject string string string string string string string string string
  | UpdateStatus string string string string
  | DeleteProjectRow string
  | InsertToken string string string
  | TouchTokenRow string int
  | RevokeTokenRow string int
  | InsertAudit string string string int string string string

text \<open>The UNIQUE constraints of the schema: a project's name, a token's hash.\<close>

fun constraint_ok :: "sql_cmd \<Rightarrow> tables \<Rightarrow> bool" where
  "constraint_ok (InsertProject n _ _ _ _ _ _ _ _) t \<longleftrightarrow> n \<notin> p_name ` set (projects t)"
| "constraint_ok (InsertToken _ h _) t \<longleftrightarrow> h \<notin> t_hash ` set (tokens t)"
| "constraint_ok _ t \<longleftrightarrow> True"

fun cmd_effect :: "sql_cmd \<Rightarrow> tables \<Rightarrow> tables" where
  "cmd_effect (InsertProject n e d u sp st le c up) t =
     t\<lparr>projects := projects t @
         [\<lparr>p_id = projects_seq t + 1, p_name = n, p_engine = e, p_database = d, p_user = u,
           p_secret = sp, p_status = st, p_last_error = le, p_created = c, p_updated = up\<rparr>],
       projects_seq := projects_seq t + 1\<rparr>"
| "cmd_effect (UpdateStatus st le up n) t =
     t\<lparr>projects := map (\<lambda>r. if p_name r = n
         then r\<lparr>p_status := st, p_last_error := le, p_updated := up\<rparr> else r) (projects t)\<rparr>"
| "cmd_effect (DeleteProjectRow n) t =
     t\<lparr>projects := filter (\<lambda>r. p_name r \<noteq> n) (projects t)\<rparr>"
| "cmd_effect (InsertToken n h c) t =
     t\<lparr>tokens := tokens t @
         [\<lparr>t_id = tokens_seq t + 1, t_name = n, t_hash = h, t_created = c,
           t_last_used = None, t_revoked = None\<rparr>],
       tokens_seq := tokens_seq t + 1\<rparr>"
| "cmd_effect (TouchTokenRow ts i) t =
     t\<lparr>tokens := map (\<lambda>r. if t_id r = i then r\<lparr>t_last_used := Some ts\<rparr> else r) (tokens t)\<rparr>"
| "cmd_effect (RevokeTokenRow ts i) t =
     t\<lparr>tokens := map (\<lambda>r. if t_id r = i
         then r\<lparr>t_revoked := Some (case t_revoked r of Some x \<Rightarrow> x | None \<Rightarrow> ts)\<rparr> else r)
       (tokens t)\<rparr>"
| "cmd_effect (InsertAudit ac rs rn su ms ip c) t =
     t\<lparr>audit_logs := audit_logs t @
         [\<lparr>a_id = audit_seq t + 1, a_action = ac, a_resource = rs, a_name = rn,
           a_success = su, a_message = ms, a_ip = ip, a_created = c\<rparr>],
       audit_seq := audit_seq t + 1\<rparr>"

section \<open>Queries\<close>

definition select_project :: "string \<Rightarrow> tables \<Rightarrow> project_row option" where
  "select_project n t = find (\<lambda>r. p_name r = n) (projects t)"

definition select_token :: "string \<Rightarrow> tables \<Rightarrow> token_row option" where
  "select_token h t = find (\<lambda>r. t_hash r = h) (tokens t)"

text \<open>\<open>ORDER BY created_at ASC\<close> compares the text of the column; ties may come in any
  order.\<close>

definition ordered_projects :: "tables \<Rightarrow> project_row list \<Rightarrow> bool" where
  "ordered_projects t rows \<longleftrightarrow>
     mset rows = mset (projects t) \<and> sorted (map p_created rows)"

definition ordered_tokens :: "tables \<Rightarrow> token_row list \<Rightarrow> bool" where
  "ordered_tokens t rows \<longleftrightarrow>
     mset rows = mset (tokens t) \<and> sorted (map t_created rows)"

text \<open>\<open>ORDER BY id DESC LIMIT n\<close> on a table whose ids grow with every insertion.\<close>

definition select_audit :: "nat \<Rightarrow> tables \<Rightarrow> audit_row list" where
  "select_audit n t = take n (rev (sort_key a_id (audit_logs t)))"

section \<open>The engine\<close>

text \<open>\<open>Inl\<close> is a driver error; in a one-row query \<open>None\<close> is \<open>sql.ErrNoRows\<close>.\<close>

record 'q sqlite =
  sq_exec :: "sql_cmd \<Rightarrow> 'q \<Rightarrow> string option \<times> 'q"
  sq_project :: "string \<Rightarrow> 'q \<Rightarrow> string + project_row option"
  sq_projects :: "'q \<Rightarrow> string + project_row list"
  sq_token :: "string \<Rightarrow> 'q \<Rightarrow> string + token_row option"
  sq_tokens :: "'q \<Rightarrow> string + token_row list"
  sq_audit :: "nat \<Rightarrow> 'q \<Rightarrow> string + audit_row list"

definition unique_text :: "string \<Rightarrow> bool" where
  "unique_text e \<longleftrightarrow>
     Contains e ''UNIQUE constraint failed'' \<or> Contains e ''constraint failed: UNIQUE''"

locale sqlite_engine =
  fixes Q :: "'q sqlite" and view :: "'q \<Rightarrow> tables"
  assumes exec_ok: "sq_exec Q c q = (None, q') \<Longrightarrow>
      constraint_ok c (view q) \<and> view q' = cmd_effect c (view q)"
    and exec_err: "sq_exec Q c q = (Some e, q') \<Longrightarrow> view q' = view q"
    and exec_unique: "sq_exec Q c q = (Some e, q') \<Longrightarrow> unique_text e \<Longrightarrow>
      \<not> constraint_ok c (view q)"
    and project_ok: "sq_project Q n q = Inr r \<Longrightarrow> r = select_project n (view q)"
    and projects_ok: "sq_projects Q q = Inr rs \<Longrightarrow> ordered_projects (view q) rs"
    and token_ok: "sq_token Q h q = Inr s \<Longrightarrow> s = select_token h (view q)"
    and tokens_ok: "sq_tokens Q q = Inr ts \<Longrightarrow> ordered_tokens (view q) ts"
    and audit_ok: "sq_audit Q k q = Inr es \<Longrightarrow> es = select_audit k (view q)"
begin

text \<open>A statement that violates a constraint fails.\<close>

lemma violation_fails:
  "\<not> constraint_ok c (view q) \<Longrightarrow> \<exists>e. sq_exec Q c q = (Some e, snd (sq_exec Q c q))"
  by (metis exec_ok option.exhaust prod.collapse)

lemma exec_cases:
  obtains (ok) q' where "sq_exec Q c q = (None, q')" "view q' = cmd_effect c (view q)"
      "constraint_ok c (view q)"
  | (failed) e q' where "sq_exec Q c q = (Some e, q')" "view q' = view q"
proof (cases "sq_exec Q c q")
  case (Pair e q')
  show thesis
  proof (cases e)
    case None
    with Pair exec_ok [of c q q'] ok [of q'] show thesis by simp
  next
    case (Some x)
    with Pair exec_err [of c q x q'] failed [of x q'] show thesis by simp
  qed
qed

text \<open>A statement either leaves the tables alone or has its effect.\<close>

lemma exec_view: "view (snd (sq_exec Q c q)) = view q \<or> view (snd (sq_exec Q c q)) = cmd_effect c (view q)"
  by (rule exec_cases [of c q]) auto

end

section \<open>Invariants of the tables\<close>

definition unique_ok :: "tables \<Rightarrow> bool" where
  "unique_ok t \<longleftrightarrow> distinct (map p_name (projects t)) \<and> distinct (map t_hash (tokens t))"

definition ids_ok :: "tables \<Rightarrow> bool" where
  "ids_ok t \<longleftrightarrow>
     sorted_wrt (<) (map p_id (projects t)) \<and> (\<forall>r \<in> set (projects t). p_id r \<le> projects_seq t)
   \<and> sorted_wrt (<) (map t_id (tokens t)) \<and> (\<forall>r \<in> set (tokens t). t_id r \<le> tokens_seq t)
   \<and> sorted_wrt (<) (map a_id (audit_logs t)) \<and> (\<forall>r \<in> set (audit_logs t). a_id r \<le> audit_seq t)"

definition tables_ok :: "tables \<Rightarrow> bool" where
  "tables_ok t \<longleftrightarrow> unique_ok t \<and> ids_ok t"

lemma map_cond_update_field:
  assumes "\<And>r. f (g r) = f r"
  shows "map f (map (\<lambda>r. if P r then g r else r) xs) = map f xs"
  using assms by (induction xs) auto

lemma cmd_effect_unique: "constraint_ok c t \<Longrightarrow> unique_ok t \<Longrightarrow> unique_ok (cmd_effect c t)"
  by (cases c) (auto simp: unique_ok_def map_cond_update_field distinct_map_filter
      simp del: map_map)

lemma sorted_wrt_map_filter: "sorted_wrt R (map f xs) \<Longrightarrow> sorted_wrt R (map f (filter P xs))"
  by (induction xs) auto

lemma cmd_effect_ids: "ids_ok t \<Longrightarrow> ids_ok (cmd_effect c t)"
  by (cases c) (auto simp: ids_ok_def map_cond_update_field sorted_wrt_append
      sorted_wrt_map_filter simp del: map_map split: if_splits intro: order.trans less_le_trans
      dest: order_le_less_trans)

lemma empty_tables_ok: "tables_ok empty_tables"
  by (simp add: tables_ok_def unique_ok_def ids_ok_def empty_tables_def)

lemma cmd_effect_tables_ok: "constraint_ok c t \<Longrightarrow> tables_ok t \<Longrightarrow> tables_ok (cmd_effect c t)"
  by (simp add: tables_ok_def cmd_effect_unique cmd_effect_ids)

text \<open>The newest entries come first: with growing ids the sort changes nothing.\<close>

lemma select_audit_eq:
  assumes "ids_ok t"
  shows "select_audit n t = take n (rev (audit_logs t))"
proof -
  have "sorted (map a_id (audit_logs t))"
    using assms unfolding ids_ok_def by (metis strict_sorted_imp_sorted)
  then show ?thesis by (simp add: select_audit_def sorted_sort_id sort_key_id_if_sorted)
qed

section \<open>A reference engine\<close>

text \<open>The engine that keeps the tables themselves and fails only on a UNIQUE violation:
  it shows that the laws can hold, and witnesses run on it.\<close>

definition table_exec :: "sql_cmd \<Rightarrow> tables \<Rightarrow> string option \<times> tables" where
  "table_exec c t =
     (if constraint_ok c t then (None, cmd_effect c t)
      else (Some ''UNIQUE constraint failed'', t))"

definition table_engine :: "tables sqlite" where
  "table_engine = \<lparr>
     sq_exec = table_exec,
     sq_project = (\<lambda>n t. Inr (select_project n t)),
     sq_projects = (\<lambda>t. Inr (sort_key p_created (projects t))),
     sq_token = (\<lambda>h t. Inr (select_token h t)),
     sq_tokens = (\<lambda>t. Inr (sort_key t_created (tokens t))),
     sq_audit = (\<lambda>k t. Inr (select_audit k t))\<rparr>"

interpretation reference_sql: sqlite_engine table_engine "\<lambda>t. t"
  by unfold_locales
     (auto simp: table_engine_def table_exec_def ordered_projects_def ordered_tokens_def
       split: if_splits)

end
