(* ===== verification/Store.thy ===== *)
theory Store
  imports Sqlite
begin

text \<open>
  \<open>internal/store/store.go\<close>: the typed operations on the metadata database, each a
  function of the engine, of the clock reading it takes, and of the database state. The
  locale \<open>project_repo\<close> is the contract the provisioning workflow relies on: a partial map
  from names to projects; \<open>sqlite_engine\<close> gives it for every engine, and it is interpreted
  on the reference engine.
\<close>

section \<open>Substring search\<close>

text \<open>\<open>indexOf\<close>: the loop over \<open>i\<close> while \<open>i + len(substr) <= len(s)\<close>, -1 when it ends.\<close>

function indexOf_loop :: "string \<Rightarrow> string \<Rightarrow> nat \<Rightarrow> int" where
  "indexOf_loop s sub i =
     (if i + length sub \<le> length s then
        (if take (length sub) (drop i s) = sub then int i else indexOf_loop s sub (Suc i))
      else -1)"
  by pat_completeness auto
termination
  by (relation "measure (\<lambda>(s, sub, i). Suc (length s) - i)") auto

declare indexOf_loop.simps [simp del]

definition indexOf :: "string \<Rightarrow> string \<Rightarrow> int" where
  "indexOf s sub = indexOf_loop s sub 0"

definition contains :: "string \<Rightarrow> string \<Rightarrow> bool" where
  "contains s sub \<longleftrightarrow> length sub \<le> length s \<and> (s = sub \<or> 0 \<le> indexOf s sub)"

definition isUniqueViolation :: "string option \<Rightarrow> bool" where
  "isUniqueViolation err \<longleftrightarrow>
     (case err of
        None \<Rightarrow> False
      | Some msg \<Rightarrow> contains msg ''UNIQUE constraint failed'' \<or> contains msg ''constraint failed: UNIQUE'')"

lemma indexOf_loop_nonneg:
  "0 \<le> indexOf_loop s sub i \<longleftrightarrow>
     (\<exists>j \<ge> i. j + length sub \<le> length s \<and> take (length sub) (drop j s) = sub)"
proof (induction s sub i rule: indexOf_loop.induct)
  case (1 s sub i)
  show ?case
  proof (cases "i + length sub \<le> length s \<and> take (length sub) (drop i s) \<noteq> sub")
    case True
    then have "indexOf_loop s sub i = indexOf_loop s sub (Suc i)"
      by (subst indexOf_loop.simps) simp
    moreover have "(\<exists>j \<ge> Suc i. j + length sub \<le> length s \<and> take (length sub) (drop j s) = sub)
      \<longleftrightarrow> (\<exists>j \<ge> i. j + length sub \<le> length s \<and> take (length sub) (drop j s) = sub)"
      using True by (metis Suc_leD le_antisym not_less_eq_eq)
    ultimately show ?thesis using 1 True by simp
  next
    case False
    then show ?thesis by (subst indexOf_loop.simps) auto
  qed
qed

lemma occurs_iff:
  "(\<exists>j. j + length sub \<le> length s \<and> take (length sub) (drop j s) = sub) \<longleftrightarrow> Contains s sub"
proof
  assume "\<exists>j. j + length sub \<le> length s \<and> take (length sub) (drop j s) = sub"
  then obtain j where "take (length sub) (drop j s) = sub" by blast
  then have "s = take j s @ sub @ drop (length sub) (drop j s)"
    by (metis append_take_drop_id)
  then show "Contains s sub" unfolding Contains_iff by blast
next
  assume "Contains s sub"
  then obtain a b where "s = a @ sub @ b" unfolding Contains_iff by blast
  then have "length a + length sub \<le> length s \<and> take (length sub) (drop (length a) s) = sub"
    by simp
  then show "\<exists>j. j + length sub \<le> length s \<and> take (length sub) (drop j s) = sub" by blast
qed

text \<open>The hand-written search is the library's \<open>strings.Contains\<close>.\<close>

lemma contains_Contains: "contains s sub \<longleftrightarrow> Contains s sub"
proof
  assume "contains s sub"
  then consider "s = sub" | "0 \<le> indexOf s sub" by (auto simp: contains_def)
  then show "Contains s sub"
  proof cases
    case 1
    then show ?thesis using Contains_prefixI [of sub "[]"] by simp
  next
    case 2
    then have "\<exists>j. j + length sub \<le> length s \<and> take (length sub) (drop j s) = sub"
      unfolding indexOf_def indexOf_loop_nonneg by blast
    then show ?thesis by (simp only: occurs_iff)
  qed
next
  assume c: "Contains s sub"
  then obtain j where j: "j + length sub \<le> length s \<and> take (length sub) (drop j s) = sub"
    using occurs_iff by blast
  then have "0 \<le> indexOf s sub" unfolding indexOf_def indexOf_loop_nonneg by blast
  with j show "contains s sub" by (simp add: contains_def)
qed

lemma isUniqueViolation_text: "isUniqueViolation (Some e) \<longleftrightarrow> unique_text e"
  by (simp add: isUniqueViolation_def unique_text_def contains_Contains)

section \<open>Projects\<close>

definition scanProject :: "project_row \<Rightarrow> DatabaseProject" where
  "scanProject r = \<lparr>ID = p_id r, Name = p_name r, Engine = p_engine r,
     DatabaseName = p_database r, DatabaseUser = p_user r, SecretPath = p_secret r,
     Status = p_status r, LastError = p_last_error r,
     CreatedAt = parse_or_zero (p_created r), UpdatedAt = parse_or_zero (p_updated r)\<rparr>"

definition CreateProject ::
    "'q sqlite \<Rightarrow> gotime \<Rightarrow> DatabaseProject \<Rightarrow> 'q \<Rightarrow> DatabaseProject outcome \<times> 'q" where
  "CreateProject Q t p q =
     (let p = (if IsZero (CreatedAt p) then p\<lparr>CreatedAt := t\<rparr> else p);
          p = p\<lparr>UpdatedAt := t\<rparr>
      in case sq_exec Q (InsertProject (Name p) (Engine p) (DatabaseName p) (DatabaseUser p)
             (SecretPath p) (Status p) (LastError p)
             (formatNano (CreatedAt p)) (formatNano (UpdatedAt p))) q of
           (None, q') \<Rightarrow> (Ret p, q')
         | (Some err, q') \<Rightarrow>
             (if isUniqueViolation (Some err) then (Fail StoreErrConflict, q')
              else (Fail (ErrText (''insert project: '' @ err)), q')))"

definition GetProject :: "'q sqlite \<Rightarrow> string \<Rightarrow> 'q \<Rightarrow> DatabaseProject outcome" where
  "GetProject Q name q =
     (case sq_project Q name q of
        Inl err \<Rightarrow> Fail (ErrText err)
      | Inr None \<Rightarrow> Fail StoreErrNotFound
      | Inr (Some r) \<Rightarrow> Ret (scanProject r))"

definition ListProjects :: "'q sqlite \<Rightarrow> 'q \<Rightarrow> DatabaseProject list outcome" where
  "ListProjects Q q =
     (case sq_projects Q q of
        Inl err \<Rightarrow> Fail (ErrText err)
      | Inr rows \<Rightarrow> Ret (map scanProject rows))"

definition UpdateProjectStatus ::
    "'q sqlite \<Rightarrow> gotime \<Rightarrow> string \<Rightarrow> string \<Rightarrow> string \<Rightarrow> 'q \<Rightarrow> unit outcome \<times> 'q" where
  "UpdateProjectStatus Q t name status lastErr q =
     (case sq_exec Q (UpdateStatus status lastErr (formatNano t) name) q of
        (None, q') \<Rightarrow> (Ret (), q')
      | (Some err, q') \<Rightarrow> (Fail (ErrText err), q'))"

definition DeleteProject :: "'q sqlite \<Rightarrow> string \<Rightarrow> 'q \<Rightarrow> unit outcome \<times> 'q" where
  "DeleteProject Q name q =
     (case sq_exec Q (DeleteProjectRow name) q of
        (None, q') \<Rightarrow> (Ret (), q')
      | (Some err, q') \<Rightarrow> (Fail (ErrText err), q'))"

section \<open>Tokens\<close>

definition scanToken :: "token_row \<Rightarrow> Token" where
  "scanToken r = \<lparr>tokID = t_id r, tokName = t_name r, TokenHash = t_hash r,
     tokCreatedAt = parse_or_zero (t_created r),
     LastUsedAt = map_option parse_or_zero (t_last_used r),
     RevokedAt = map_option parse_or_zero (t_revoked r)\<rparr>"

definition GetTokenByHash :: "'q sqlite \<Rightarrow> string \<Rightarrow> 'q \<Rightarrow> Token outcome" where
  "GetTokenByHash Q hash q =
     (case sq_token Q hash q of
        Inl err \<Rightarrow> Fail (ErrText err)
      | Inr None \<Rightarrow> Fail StoreErrNotFound
      | Inr (Some r) \<Rightarrow> Ret (scanToken r))"

definition CreateToken ::
    "'q sqlite \<Rightarrow> gotime \<Rightarrow> string \<Rightarrow> string \<Rightarrow> 'q \<Rightarrow> Token outcome \<times> 'q" where
  "CreateToken Q t name tokenHash q =
     (case sq_exec Q (InsertToken name tokenHash (formatNano t)) q of
        (Some err, q') \<Rightarrow> (Fail (ErrText (''insert token: '' @ err)), q')
      | (None, q') \<Rightarrow> (GetTokenByHash Q tokenHash q', q'))"

definition ListTokens :: "'q sqlite \<Rightarrow> 'q \<Rightarrow> Token list outcome" where
  "ListTokens Q q =
     (case sq_tokens Q q of
        Inl err \<Rightarrow> Fail (ErrText err)
      | Inr rows \<Rightarrow> Ret (map scanToken rows))"

definition TouchToken :: "'q sqlite \<Rightarrow> gotime \<Rightarrow> int \<Rightarrow> 'q \<Rightarrow> unit outcome \<times> 'q" where
  "TouchToken Q t i q =
     (case sq_exec Q (TouchTokenRow (formatNano t) i) q of
        (None, q') \<Rightarrow> (Ret (), q')
      | (Some err, q') \<Rightarrow> (Fail (ErrText err), q'))"

definition RevokeToken :: "'q sqlite \<Rightarrow> gotime \<Rightarrow> int \<Rightarrow> 'q \<Rightarrow> unit outcome \<times> 'q" where
  "RevokeToken Q t i q =
     (case sq_exec Q (RevokeTokenRow (formatNano t) i) q of
        (None, q') \<Rightarrow> (Ret (), q')
      | (Some err, q') \<Rightarrow> (Fail (ErrText err), q'))"

section \<open>Time columns\<close>

text \<open>Two helpers that no query calls. A column is NULL, a text, a time, or of another Go type, which
  only its name stands for; the text of a parse error is an argument.\<close>

datatype column = CNull | CText string | CTime gotime | COther string

definition toTime :: "(string \<Rightarrow> string) \<Rightarrow> column \<Rightarrow> gotime \<times> goerr option" where
  "toTime parseErr v =
     (case v of
        CNull \<Rightarrow> (zeroTime, None)
      | CText x \<Rightarrow>
          (if x = [] then (zeroTime, None)
           else case parseTime x of
             Some t \<Rightarrow> (t, None)
           | None \<Rightarrow> (zeroTime, Some (ErrText (parseErr x))))
      | CTime t \<Rightarrow> (t, None)
      | COther T \<Rightarrow> (zeroTime, Some (ErrText (''unexpected time column: '' @ T))))"

definition nullTime :: "gotime option \<Rightarrow> column" where
  "nullTime t = (case t of None \<Rightarrow> CNull | Some t \<Rightarrow> CText (formatNano t))"

text \<open>A time survives both; nil comes back as the zero time.\<close>

lemma toTime_nullTime:
  "wf_time t \<Longrightarrow> toTime parseErr (nullTime (Some t)) = (t, None)"
  "toTime parseErr (nullTime None) = (zeroTime, None)"
proof -
  have "formatNano t \<noteq> []" by (simp add: formatNano_def format_secs_def)
  then show "wf_time t \<Longrightarrow> toTime parseErr (nullTime (Some t)) = (t, None)"
    by (simp add: toTime_def nullTime_def parse_format)
qed (simp add: toTime_def nullTime_def)

section \<open>Audit entries\<close>

definition boolToInt :: "bool \<Rightarrow> int" where
  "boolToInt b = (if b then 1 else 0)"

definition WriteAudit :: "'q sqlite \<Rightarrow> gotime \<Rightarrow> AuditLog \<Rightarrow> 'q \<Rightarrow> unit outcome \<times> 'q" where
  "WriteAudit Q t e q =
     (let e = (if IsZero (audCreatedAt e) then e\<lparr>audCreatedAt := t\<rparr> else e)
      in case sq_exec Q (InsertAudit (Action e) (Resource e) (ResourceName e)
             (boolToInt (Success e)) (Message e) (RemoteIP e) (formatNano (audCreatedAt e))) q of
           (None, q') \<Rightarrow> (Ret (), q')
         | (Some err, q') \<Rightarrow> (Fail (ErrText err), q'))"

definition scanAudit :: "audit_row \<Rightarrow> AuditLog" where
  "scanAudit r = \<lparr>audID = a_id r, Action = a_action r, Resource = a_resource r,
     ResourceName = a_name r, Success = (a_success r \<noteq> 0), Message = a_message r,
     RemoteIP = a_ip r, audCreatedAt = parse_or_zero (a_created r)\<rparr>"

definition ListAudit :: "'q sqlite \<Rightarrow> int \<Rightarrow> 'q \<Rightarrow> AuditLog list outcome" where
  "ListAudit Q limit q =
     (let limit = (if limit \<le> 0 then 100 else limit)
      in case sq_audit Q (nat limit) q of
           Inl err \<Rightarrow> Fail (ErrText err)
         | Inr rows \<Rightarrow> Ret (map scanAudit rows))"

section \<open>The contract of the project table\<close>

text \<open>What the workflow may assume of the store: a lookup that answers, answers what the map
  holds; an insertion that succeeds found no entry and leaves one; an operation that fails
  leaves the map alone; a status change and a removal touch one name only.\<close>

locale project_repo =
  fixes get :: "string \<Rightarrow> 's \<Rightarrow> DatabaseProject outcome"
    and create :: "gotime \<Rightarrow> DatabaseProject \<Rightarrow> 's \<Rightarrow> DatabaseProject outcome \<times> 's"
    and set_status :: "gotime \<Rightarrow> string \<Rightarrow> string \<Rightarrow> string \<Rightarrow> 's \<Rightarrow> unit outcome \<times> 's"
    and remove :: "string \<Rightarrow> 's \<Rightarrow> unit outcome \<times> 's"
    and repo :: "'s \<Rightarrow> string \<Rightarrow> DatabaseProject option"
  assumes get_ret: "get n s = Ret p \<Longrightarrow> repo s n = Some p"
    and get_missing: "get n s = Fail StoreErrNotFound \<Longrightarrow> repo s n = None"
    and get_no_panic: "get n s \<noteq> Panic m"
    and repo_name: "repo s n = Some p \<Longrightarrow> Name p = n"
    and create_ret: "create t p s = (Ret p', s') \<Longrightarrow>
      repo s (Name p) = None \<and> (\<exists>r. repo s' = (repo s)(Name p \<mapsto> r)
        \<and> Name r = Name p \<and> Engine r = Engine p \<and> DatabaseName r = DatabaseName p
        \<and> DatabaseUser r = DatabaseUser p \<and> SecretPath r = SecretPath p \<and> Status r = Status p)"
    and create_fail: "create t p s = (Fail e, s') \<Longrightarrow> repo s' = repo s"
    and create_conflict: "create t p s = (Fail StoreErrConflict, s') \<Longrightarrow> repo s (Name p) \<noteq> None"
    and create_no_panic: "create t p s \<noteq> (Panic m, s')"
    and status_ret: "set_status t n st le s = (Ret (), s') \<Longrightarrow>
      (\<exists>u. repo s' = (repo s)(n := map_option (\<lambda>p. p\<lparr>Status := st, LastError := le, UpdatedAt := u\<rparr>) (repo s n)))"
    and status_fail: "set_status t n st le s = (Fail e, s') \<Longrightarrow> repo s' = repo s"
    and status_no_panic: "set_status t n st le s \<noteq> (Panic m, s')"
    and remove_ret: "remove n s = (Ret (), s') \<Longrightarrow> repo s' = (repo s)(n := None)"
    and remove_fail: "remove n s = (Fail e, s') \<Longrightarrow> repo s' = repo s"
    and remove_no_panic: "remove n s \<noteq> (Panic m, s')"
begin

text \<open>Consequences every client uses.\<close>

lemma get_iff_ret: "get n s = Ret p \<Longrightarrow> get n s' = Ret p' \<Longrightarrow> repo s' = repo s \<Longrightarrow> p' = p"
  using get_ret [of n s p] get_ret [of n s' p'] by simp

lemma created_then_get:
  assumes "create t p s = (Ret p', s')" and "get (Name p) s' = Ret r"
  shows "DatabaseName r = DatabaseName p \<and> DatabaseUser r = DatabaseUser p \<and> Status r = Status p"
proof -
  from create_ret [OF assms(1)] obtain r' where
    "repo s' (Name p) = Some r'" "DatabaseName r' = DatabaseName p"
    "DatabaseUser r' = DatabaseUser p" "Status r' = Status p" by auto
  with get_ret [OF assms(2)] show ?thesis by simp
qed

lemma create_other: "create t p s = (r, s') \<Longrightarrow> n \<noteq> Name p \<Longrightarrow> repo s' n = repo s n"
proof (cases r)
  case (Ret p')
  assume "create t p s = (r, s')" "n \<noteq> Name p"
  with create_ret [of t p s p' s'] Ret show ?thesis by auto
qed (use create_fail create_no_panic in auto)

lemma status_other: "set_status t m st le s = (r, s') \<Longrightarrow> n \<noteq> m \<Longrightarrow> repo s' n = repo s n"
proof (cases r)
  case (Ret u)
  assume "set_status t m st le s = (r, s')" "n \<noteq> m"
  with status_ret [of t m st le s s'] Ret show ?thesis by auto
qed (use status_fail status_no_panic in auto)

lemma remove_other: "remove m s = (r, s') \<Longrightarrow> n \<noteq> m \<Longrightarrow> repo s' n = repo s n"
proof (cases r)
  case (Ret u)
  assume "remove m s = (r, s')" "n \<noteq> m"
  with remove_ret [of m s s'] Ret show ?thesis by auto
qed (use remove_fail remove_no_panic in auto)

end

text \<open>The project map of a state of the tables.\<close>

definition project_map :: "tables \<Rightarrow> string \<Rightarrow> DatabaseProject option" where
  "project_map t n = map_option scanProject (select_project n t)"

lemma find_append: "find P (xs @ ys) = (case find P xs of Some x \<Rightarrow> Some x | None \<Rightarrow> find P ys)"
  by (induction xs) auto

lemma find_map_update:
  "(\<And>r. p_name (g r) = p_name r) \<Longrightarrow>
   find (\<lambda>r. p_name r = n) (map (\<lambda>r. if p_name r = m then g r else r) xs) =
     map_option (\<lambda>r. if p_name r = m then g r else r) (find (\<lambda>r. p_name r = n) xs)"
  by (induction xs) auto

lemma find_filter_other:
  "find (\<lambda>r. p_name r = n) (filter (\<lambda>r. p_name r \<noteq> m) xs) =
     (if n = m then None else find (\<lambda>r. p_name r = n) xs)"
  by (induction xs) auto

lemma project_map_name: "project_map t n = Some p \<Longrightarrow> Name p = n"
  by (auto simp: project_map_def select_project_def scanProject_def find_Some_iff)

lemma project_map_None: "project_map t n = None \<longleftrightarrow> n \<notin> p_name ` set (projects t)"
  by (auto simp: project_map_def select_project_def find_None_iff)

lemma project_map_insert:
  assumes "constraint_ok (InsertProject n e d u sp st le c up) t"
  shows "project_map (cmd_effect (InsertProject n e d u sp st le c up) t) = (project_map t)(n \<mapsto>
    \<lparr>ID = projects_seq t + 1, Name = n, Engine = e, DatabaseName = d, DatabaseUser = u,
     SecretPath = sp, Status = st, LastError = le, CreatedAt = parse_or_zero c,
     UpdatedAt = parse_or_zero up\<rparr>)"
proof
  fix m
  have "project_map t n = None" using assms by (simp add: project_map_None)
  then have "find (\<lambda>r. p_name r = n) (projects t) = None"
    by (simp add: project_map_def select_project_def)
  then show "project_map (cmd_effect (InsertProject n e d u sp st le c up) t) m =
    ((project_map t)(n \<mapsto> \<lparr>ID = projects_seq t + 1, Name = n, Engine = e, DatabaseName = d,
     DatabaseUser = u, SecretPath = sp, Status = st, LastError = le, CreatedAt = parse_or_zero c,
     UpdatedAt = parse_or_zero up\<rparr>)) m"
    by (auto simp: project_map_def select_project_def find_append scanProject_def
        split: option.splits)
qed

lemma project_map_status:
  "project_map (cmd_effect (UpdateStatus st le up n) t) =
     (project_map t)(n := map_option
       (\<lambda>p. p\<lparr>Status := st, LastError := le, UpdatedAt := parse_or_zero up\<rparr>) (project_map t n))"
proof
  fix m
  have "find (\<lambda>r. p_name r = m) (projects t) = Some r \<Longrightarrow> p_name r = m" for r
    by (auto simp: find_Some_iff)
  then show "project_map (cmd_effect (UpdateStatus st le up n) t) m =
    ((project_map t)(n := map_option
       (\<lambda>p. p\<lparr>Status := st, LastError := le, UpdatedAt := parse_or_zero up\<rparr>) (project_map t n))) m"
    by (cases "find (\<lambda>r. p_name r = m) (projects t)")
       (auto simp: project_map_def select_project_def find_map_update scanProject_def)
qed

lemma project_map_delete:
  "project_map (cmd_effect (DeleteProjectRow n) t) = (project_map t)(n := None)"
  by (rule ext) (simp add: project_map_def select_project_def find_filter_other)

text \<open>The other statements leave the projects alone.\<close>

lemma project_map_other_cmds [simp]:
  "project_map (cmd_effect (InsertToken a b c) t) = project_map t"
  "project_map (cmd_effect (TouchTokenRow a i) t) = project_map t"
  "project_map (cmd_effect (RevokeTokenRow a i) t) = project_map t"
  "project_map (cmd_effect (InsertAudit a b c d e f g) t) = project_map t"
  by (simp_all add: project_map_def select_project_def fun_eq_iff)

sublocale sqlite_engine \<subseteq> repo: project_repo "GetProject Q" "CreateProject Q"
  "UpdateProjectStatus Q" "DeleteProject Q" "\<lambda>q. project_map (view q)"
proof unfold_locales
  fix n s p assume "GetProject Q n s = Ret p"
  then show "project_map (view s) n = Some p"
    by (auto simp: GetProject_def project_map_def split: sum.splits option.splits
        dest!: project_ok [symmetric])
next
  fix n s assume "GetProject Q n s = Fail StoreErrNotFound"
  then show "project_map (view s) n = None"
    by (auto simp: GetProject_def project_map_def split: sum.splits option.splits
        dest!: project_ok [symmetric])
next
  fix n s m show "GetProject Q n s \<noteq> Panic m"
    by (auto simp: GetProject_def split: sum.splits option.splits)
next
  fix s n p assume "project_map (view s) n = Some p"
  then show "Name p = n" by (rule project_map_name)
next
  fix t p s p' s' assume "CreateProject Q t p s = (Ret p', s')"
  then obtain c up where x: "sq_exec Q (InsertProject (Name p) (Engine p) (DatabaseName p)
      (DatabaseUser p) (SecretPath p) (Status p) (LastError p) c up) s = (None, s')"
    by (auto simp: CreateProject_def Let_def split: prod.splits option.splits if_splits)
  note k = exec_ok [OF x]
  from k have "project_map (view s) (Name p) = None" by (simp add: project_map_None)
  with k project_map_insert [OF conjunct1 [OF k]]
  show "project_map (view s) (Name p) = None \<and> (\<exists>r. project_map (view s') =
      (project_map (view s))(Name p \<mapsto> r)
        \<and> Name r = Name p \<and> Engine r = Engine p \<and> DatabaseName r = DatabaseName p
        \<and> DatabaseUser r = DatabaseUser p \<and> SecretPath r = SecretPath p \<and> Status r = Status p)"
    by auto
next
  fix t p s e s' assume "CreateProject Q t p s = (Fail e, s')"
  then show "project_map (view s') = project_map (view s)"
    by (auto simp: CreateProject_def Let_def split: prod.splits option.splits if_splits
        dest!: exec_err)
next
  fix t p s s' assume "CreateProject Q t p s = (Fail StoreErrConflict, s')"
  then obtain c up e where "sq_exec Q (InsertProject (Name p) (Engine p) (DatabaseName p)
      (DatabaseUser p) (SecretPath p) (Status p) (LastError p) c up) s = (Some e, s')"
      "unique_text e"
    by (auto simp: CreateProject_def Let_def isUniqueViolation_text
        split: prod.splits option.splits if_splits)
  from exec_unique [OF this] show "project_map (view s) (Name p) \<noteq> None"
    by (simp add: project_map_None)
next
  fix t p s m s' show "CreateProject Q t p s \<noteq> (Panic m, s')"
    by (auto simp: CreateProject_def Let_def split: prod.splits option.splits if_splits)
next
  fix t n st le s s' assume "UpdateProjectStatus Q t n st le s = (Ret (), s')"
  then have "sq_exec Q (UpdateStatus st le (formatNano t) n) s = (None, s')"
    by (auto simp: UpdateProjectStatus_def split: prod.splits option.splits)
  from exec_ok [OF this] show "\<exists>u. project_map (view s') = (project_map (view s))(n :=
      map_option (\<lambda>p. p\<lparr>Status := st, LastError := le, UpdatedAt := u\<rparr>) (project_map (view s) n))"
    by (auto simp only: project_map_status)
next
  fix t n st le s e s' assume "UpdateProjectStatus Q t n st le s = (Fail e, s')"
  then show "project_map (view s') = project_map (view s)"
    by (auto simp: UpdateProjectStatus_def split: prod.splits option.splits dest!: exec_err)
next
  fix t n st le s m s' show "UpdateProjectStatus Q t n st le s \<noteq> (Panic m, s')"
    by (auto simp: UpdateProjectStatus_def split: prod.splits option.splits)
next
  fix n s s' assume "DeleteProject Q n s = (Ret (), s')"
  then have "sq_exec Q (DeleteProjectRow n) s = (None, s')"
    by (auto simp: DeleteProject_def split: prod.splits option.splits)
  from exec_ok [OF this] show "project_map (view s') = (project_map (view s))(n := None)"
    by (simp only: project_map_delete)
next
  fix n s e s' assume "DeleteProject Q n s = (Fail e, s')"
  then show "project_map (view s') = project_map (view s)"
    by (auto simp: DeleteProject_def split: prod.splits option.splits dest!: exec_err)
next
  fix n s m s' show "DeleteProject Q n s \<noteq> (Panic m, s')"
    by (auto simp: DeleteProject_def split: prod.splits option.splits)
qed

text \<open>The contract on the reference engine.\<close>

interpretation reference_repo: project_repo "GetProject table_engine" "CreateProject table_engine"
  "UpdateProjectStatus table_engine" "DeleteProject table_engine" project_map
  by (rule reference_sql.repo.project_repo_axioms)

section \<open>Every operation keeps the tables in order\<close>

text \<open>One step per writing operation of the store, whatever its arguments and outcome.\<close>

inductive store_step :: "'q sqlite \<Rightarrow> 'q \<Rightarrow> 'q \<Rightarrow> bool" for Q where
  create_project: "store_step Q q (snd (CreateProject Q t p q))"
| update_status: "store_step Q q (snd (UpdateProjectStatus Q t n st le q))"
| delete_project: "store_step Q q (snd (DeleteProject Q n q))"
| create_token: "store_step Q q (snd (CreateToken Q t n h q))"
| touch_token: "store_step Q q (snd (TouchToken Q t i q))"
| revoke_token: "store_step Q q (snd (RevokeToken Q t i q))"
| write_audit: "store_step Q q (snd (WriteAudit Q t e q))"

inductive_cases store_stepE: "store_step Q q q'"

text \<open>Each operation runs exactly one statement.\<close>

lemma store_op_state:
  "snd (CreateProject Q t p q) = snd (sq_exec Q (InsertProject (Name p) (Engine p)
     (DatabaseName p) (DatabaseUser p) (SecretPath p) (Status p) (LastError p)
     (formatNano (if IsZero (CreatedAt p) then t else CreatedAt p)) (formatNano t)) q)"
  "snd (UpdateProjectStatus Q t n st le q) = snd (sq_exec Q (UpdateStatus st le (formatNano t) n) q)"
  "snd (DeleteProject Q n q) = snd (sq_exec Q (DeleteProjectRow n) q)"
  "snd (CreateToken Q t n h q) = snd (sq_exec Q (InsertToken n h (formatNano t)) q)"
  "snd (TouchToken Q t i q) = snd (sq_exec Q (TouchTokenRow (formatNano t) i) q)"
  "snd (RevokeToken Q t i q) = snd (sq_exec Q (RevokeTokenRow (formatNano t) i) q)"
  "snd (WriteAudit Q t e q) = snd (sq_exec Q (InsertAudit (Action e) (Resource e)
     (ResourceName e) (boolToInt (Success e)) (Message e) (RemoteIP e)
     (formatNano (if IsZero (audCreatedAt e) then t else audCreatedAt e))) q)"
  by (simp_all add: CreateProject_def UpdateProjectStatus_def DeleteProject_def CreateToken_def
      TouchToken_def RevokeToken_def WriteAudit_def Let_def split: prod.splits option.splits)

lemma store_step_exec: "store_step Q q q' \<Longrightarrow> \<exists>c. q' = snd (sq_exec Q c q)"
  by (erule store_stepE) (auto simp only: store_op_state)

context sqlite_engine
begin

lemma exec_tables_ok: "tables_ok (view q) \<Longrightarrow> tables_ok (view (snd (sq_exec Q c q)))"
  by (rule exec_cases [of c q]) (auto intro: cmd_effect_tables_ok)

lemma store_reach_ok: "(store_step Q)\<^sup>*\<^sup>* q q' \<Longrightarrow> tables_ok (view q) \<Longrightarrow> tables_ok (view q')"
proof (induction rule: rtranclp_induct)
  case (step y z)
  then show ?case using store_step_exec exec_tables_ok by metis
qed

end

context sqlite_engine
begin

lemma create_spec:
  assumes "CreateProject Q t p q = (Ret p', q')"
  shows "project_map (view q) (Name p) = None \<and> (\<exists>r. project_map (view q') = (project_map (view q))(Name p \<mapsto> r)
     \<and> DatabaseName r = DatabaseName p \<and> DatabaseUser r = DatabaseUser p \<and> Status r = Status p)"
proof -
  from repo.create_ret [OF assms] obtain r where
    "project_map (view q) (Name p) = None" "project_map (view q') = (project_map (view q))(Name p \<mapsto> r)"
    "DatabaseName r = DatabaseName p" "DatabaseUser r = DatabaseUser p" "Status r = Status p"
    by (elim conjE exE)
  then show ?thesis by (intro conjI exI)
qed

lemmas repo_laws =
  repo.create_conflict repo.create_fail repo.status_ret repo.remove_ret repo.status_fail repo.remove_fail

lemma get_spec:
  "case sq_project Q n q of
     Inl err \<Rightarrow> GetProject Q n q = Fail (ErrText err)
   | Inr None \<Rightarrow> GetProject Q n q = Fail StoreErrNotFound \<and> project_map (view q) n = None
   | Inr (Some x) \<Rightarrow> \<exists>p. GetProject Q n q = Ret p \<and> project_map (view q) n = Some p"
  using repo.get_ret [of n q] repo.get_missing [of n q]
  by (auto simp: GetProject_def split: sum.split option.split)

end

text \<open>C34: starting from an empty database, and with whatever statements fail on the way,
  no sequence of store operations ever leaves two projects with one name or two tokens with
  one hash, and the ids of projects, tokens and audit entries only grow.\<close>

theorem store_tables_invariant:
  assumes "sqlite_engine Q view" and "view q0 = empty_tables" and "(store_step Q)\<^sup>*\<^sup>* q0 q"
  shows "distinct (map p_name (projects (view q))) \<and> distinct (map t_hash (tokens (view q)))
    \<and> sorted_wrt (<) (map p_id (projects (view q))) \<and> sorted_wrt (<) (map t_id (tokens (view q)))
    \<and> sorted_wrt (<) (map a_id (audit_logs (view q)))"
proof -
  have "tables_ok (view q)"
    using sqlite_engine.store_reach_ok [OF assms(1,3)] assms(2) empty_tables_ok by simp
  then show ?thesis by (simp add: tables_ok_def unique_ok_def ids_ok_def)
qed

theorem store_tables_invariant_witness:
  "\<exists>q. (store_step table_engine)\<^sup>*\<^sup>* empty_tables q \<and> map t_hash (tokens q) = [''h'']
    \<and> distinct (map t_hash (tokens q))"
proof -
  let ?q = "snd (CreateToken table_engine zeroTime ''admin'' ''h'' empty_tables)"
  have st: "(store_step table_engine)\<^sup>*\<^sup>* empty_tables ?q"
    by (intro r_into_rtranclp store_step.create_token)
  have h: "map t_hash (tokens ?q) = [''h'']"
    by (simp add: store_op_state table_engine_def table_exec_def empty_tables_def)
  have "distinct (map t_hash (tokens ?q))"
    by (rule store_tables_invariant [OF reference_sql.sqlite_engine_axioms refl st, THEN conjunct2,
        THEN conjunct1])
  with st h show ?thesis by (intro exI conjI)
qed

text \<open>C33: the store implements a map from names to projects. An insertion that succeeds found
  the name free and adds one record under it with the given fields; a conflict is reported
  only for a name that is taken, and a taken name is never inserted; a status update and a
  deletion that succeed change one name only; whatever fails changes no project at all. A
  lookup answers the record of the name, that it is not found, which is then so, or, when the
  query fails, the error of the query.\<close>

theorem store_refines_map:
  assumes "sqlite_engine Q view"
  shows "(\<forall>t p p' q'. CreateProject Q t p q = (Ret p', q') \<longrightarrow>
       project_map (view q) (Name p) = None \<and> (\<exists>r. project_map (view q') = (project_map (view q))(Name p \<mapsto> r)
       \<and> DatabaseName r = DatabaseName p \<and> DatabaseUser r = DatabaseUser p \<and> Status r = Status p))
    \<and> (\<forall>t p q'. CreateProject Q t p q = (Fail StoreErrConflict, q') \<longrightarrow> project_map (view q) (Name p) \<noteq> None)
    \<and> (\<forall>t p e q'. CreateProject Q t p q = (Fail e, q') \<longrightarrow> project_map (view q') = project_map (view q))
    \<and> (\<forall>t n st le q'. UpdateProjectStatus Q t n st le q = (Ret (), q') \<longrightarrow>
       (\<exists>u. project_map (view q') = (project_map (view q))(n := map_option
          (\<lambda>p. p\<lparr>Status := st, LastError := le, UpdatedAt := u\<rparr>) (project_map (view q) n))))
    \<and> (\<forall>n q'. DeleteProject Q n q = (Ret (), q') \<longrightarrow> project_map (view q') = (project_map (view q))(n := None))
    \<and> (\<forall>t n st le e q'. UpdateProjectStatus Q t n st le q = (Fail e, q') \<longrightarrow> project_map (view q') = project_map (view q))
    \<and> (\<forall>n e q'. DeleteProject Q n q = (Fail e, q') \<longrightarrow> project_map (view q') = project_map (view q))
    \<and> (\<forall>n. case sq_project Q n q of
         Inl err \<Rightarrow> GetProject Q n q = Fail (ErrText err)
       | Inr None \<Rightarrow> GetProject Q n q = Fail StoreErrNotFound \<and> project_map (view q) n = None
       | Inr (Some x) \<Rightarrow> \<exists>p. GetProject Q n q = Ret p \<and> project_map (view q) n = Some p)"
proof (intro conjI; intro allI impI)
  note laws = sqlite_engine.create_spec [OF assms]
  fix t p p' q' assume "CreateProject Q t p q = (Ret p', q')"
  then show "project_map (view q) (Name p) = None \<and> (\<exists>r. project_map (view q') = (project_map (view q))(Name p \<mapsto> r)
       \<and> DatabaseName r = DatabaseName p \<and> DatabaseUser r = DatabaseUser p \<and> Status r = Status p)"
    by (rule laws)
next
  note laws = sqlite_engine.repo_laws [OF assms]
  show "project_map (view q) (Name p) \<noteq> None" if "CreateProject Q t p q = (Fail StoreErrConflict, q')"
    for t p q' using that by (rule laws)
  show "project_map (view q') = project_map (view q)" if "CreateProject Q t p q = (Fail e, q')"
    for t p e q' using that by (rule laws)
  show "\<exists>u. project_map (view q') = (project_map (view q))(n := map_option
        (\<lambda>p. p\<lparr>Status := st, LastError := le, UpdatedAt := u\<rparr>) (project_map (view q) n))"
    if "UpdateProjectStatus Q t n st le q = (Ret (), q')" for t n st le q' using that by (rule laws)
  show "project_map (view q') = (project_map (view q))(n := None)"
    if "DeleteProject Q n q = (Ret (), q')" for n q' using that by (rule laws)
  show "project_map (view q') = project_map (view q)" if "UpdateProjectStatus Q t n st le q = (Fail e, q')"
    for t n st le e q' using that by (rule laws)
  show "project_map (view q') = project_map (view q)" if "DeleteProject Q n q = (Fail e, q')" for n e q'
    using that by (rule laws)
qed (rule sqlite_engine.get_spec [OF assms])

text \<open>The rows of the witness below: a record that is created at a given time.\<close>

definition sample_project :: "string \<Rightarrow> DatabaseProject" where
  "sample_project n = zeroProject\<lparr>Name := n\<rparr>"

theorem store_refines_map_witness:
  "\<exists>p' q'. CreateProject table_engine zeroTime (sample_project ''opcos'') empty_tables = (Ret p', q')
    \<and> project_map q' ''opcos'' \<noteq> None"
proof -
  let ?c = "CreateProject table_engine zeroTime (sample_project ''opcos'') empty_tables"
  obtain p' q' where c: "?c = (Ret p', q')"
    by (auto simp: CreateProject_def table_engine_def table_exec_def empty_tables_def Let_def)
  have n: "Name (sample_project ''opcos'') = ''opcos''" by (simp add: sample_project_def)
  from store_refines_map [OF reference_sql.sqlite_engine_axioms, THEN conjunct1, rule_format, OF c]
  have "project_map q' ''opcos'' \<noteq> None" unfolding n by auto
  with c show ?thesis by (intro exI conjI)
qed

section \<open>A token until it is revoked\<close>

text \<open>A step of the store that is not the revocation of the token \<open>i\<close>.\<close>

inductive spares_token :: "'q sqlite \<Rightarrow> int \<Rightarrow> 'q \<Rightarrow> 'q \<Rightarrow> bool" for Q i where
  "spares_token Q i q (snd (CreateProject Q t p q))"
| "spares_token Q i q (snd (UpdateProjectStatus Q t n st le q))"
| "spares_token Q i q (snd (DeleteProject Q n q))"
| "spares_token Q i q (snd (CreateToken Q t n h q))"
| "spares_token Q i q (snd (TouchToken Q t j q))"
| "j \<noteq> i \<Longrightarrow> spares_token Q i q (snd (RevokeToken Q t j q))"
| "spares_token Q i q (snd (WriteAudit Q t e q))"

lemma spares_token_exec:
  "spares_token Q i q q' \<Longrightarrow> \<exists>c. q' = snd (sq_exec Q c q) \<and> (\<forall>ts. c \<noteq> RevokeTokenRow ts i)"
  by (induction rule: spares_token.induct) (simp_all only: store_op_state, blast+)

text \<open>The only row with a digest: its id, its name, and that it is not revoked.\<close>

definition valid_token :: "string \<Rightarrow> int \<Rightarrow> string \<Rightarrow> tables \<Rightarrow> bool" where
  "valid_token h i n t \<longleftrightarrow>
     (\<exists>r. filter (\<lambda>x. t_hash x = h) (tokens t) = [r] \<and> t_id r = i \<and> t_name r = n \<and> t_revoked r = None)"

lemma valid_token_map:
  assumes "valid_token h i n t" and "\<And>r. t_hash (f r) = t_hash r \<and> t_id (f r) = t_id r \<and> t_name (f r) = t_name r"
    and "\<And>r. t_id r = i \<Longrightarrow> t_revoked (f r) = t_revoked r"
  shows "valid_token h i n (t\<lparr>tokens := map f (tokens t)\<rparr>)"
  using assms by (fastforce simp: valid_token_def filter_map comp_def)

lemma cmd_effect_valid_token:
  assumes "valid_token h i n t" and "\<forall>ts. c \<noteq> RevokeTokenRow ts i"
    and "\<And>m k cr. c = InsertToken m k cr \<Longrightarrow> k \<notin> t_hash ` set (tokens t)"
  shows "valid_token h i n (cmd_effect c t)"
proof (cases c)
  case (InsertToken m k cr)
  from assms(1) obtain r where "filter (\<lambda>x. t_hash x = h) (tokens t) = [r]" by (auto simp: valid_token_def)
  then have "r \<in> set (filter (\<lambda>x. t_hash x = h) (tokens t))" by simp
  then have "h \<in> t_hash ` set (tokens t)" by auto
  with assms(3) [OF InsertToken] have "k \<noteq> h" by blast
  with assms(1) InsertToken show ?thesis by (simp add: valid_token_def)
next
  case (TouchTokenRow ts j)
  then show ?thesis using assms(1) by (simp add: valid_token_map)
next
  case (RevokeTokenRow ts j)
  with assms(1,2) show ?thesis by (auto intro!: valid_token_map)
qed (use assms(1) in \<open>simp_all add: valid_token_def\<close>)

context sqlite_engine
begin

lemma spared_token_valid:
  assumes "(spares_token Q i)\<^sup>*\<^sup>* q q'" and "valid_token h i n (view q)"
  shows "valid_token h i n (view q')"
  using assms
proof (induction rule: rtranclp_induct)
  case (step y z)
  from spares_token_exec [OF step(2)] obtain c where c: "z = snd (sq_exec Q c y)" "\<forall>ts. c \<noteq> RevokeTokenRow ts i"
    by blast
  obtain e where e: "sq_exec Q c y = (e, z)" using c(1) by (metis prod.collapse)
  have y: "valid_token h i n (view y)" using step by simp
  show ?case
  proof (cases e)
    case None
    from exec_ok [OF e [unfolded None]] have "view z = cmd_effect c (view y)" and
      "\<And>m k cr. c = InsertToken m k cr \<Longrightarrow> k \<notin> t_hash ` set (tokens (view y))" by auto
    with cmd_effect_valid_token [OF y c(2)] show ?thesis by simp
  next
    case (Some x)
    with exec_err [OF e [unfolded Some]] y show ?thesis by simp
  qed
qed

end

section \<open>Revocation, audit order and project order\<close>

context sqlite_engine
begin

lemma token_row_revoked:
  assumes "RevokeToken Q t i q = (Ret (), q')"
  shows "tokens (view q') = map (\<lambda>r. if t_id r = i
    then r\<lparr>t_revoked := Some (case t_revoked r of Some x \<Rightarrow> x | None \<Rightarrow> formatNano t)\<rparr> else r)
    (tokens (view q))"
proof -
  from assms have "sq_exec Q (RevokeTokenRow (formatNano t) i) q = (None, q')"
    by (auto simp: RevokeToken_def split: prod.splits option.splits)
  from exec_ok [OF this] show ?thesis by simp
qed

lemma audit_written:
  assumes "WriteAudit Q t e q = (Ret (), q')"
  shows "\<exists>i. audit_logs (view q') = audit_logs (view q) @
    [\<lparr>a_id = i, a_action = Action e, a_resource = Resource e, a_name = ResourceName e,
      a_success = boolToInt (Success e), a_message = Message e, a_ip = RemoteIP e,
      a_created = formatNano (if IsZero (audCreatedAt e) then t else audCreatedAt e)\<rparr>]"
proof -
  let ?c = "InsertAudit (Action e) (Resource e) (ResourceName e) (boolToInt (Success e))
    (Message e) (RemoteIP e) (formatNano (if IsZero (audCreatedAt e) then t else audCreatedAt e))"
  from assms have "sq_exec Q ?c q = (None, q')"
    by (auto simp: WriteAudit_def Let_def split: prod.splits option.splits if_splits)
  from exec_ok [OF this] show ?thesis by simp
qed

lemma list_audit_ret:
  assumes "ListAudit Q n q = Ret es" and "ids_ok (view q)"
  shows "es = map scanAudit (take (nat (if n \<le> 0 then 100 else n)) (rev (audit_logs (view q))))"
proof -
  from assms(1) obtain rows where r: "sq_audit Q (nat (if n \<le> 0 then 100 else n)) q = Inr rows"
    "es = map scanAudit rows"
    by (auto simp: ListAudit_def Let_def split: sum.splits if_splits)
  with audit_ok [OF r(1)] select_audit_eq [OF assms(2)] show ?thesis by simp
qed

lemma list_projects_ret:
  assumes "ListProjects Q q = Ret ps"
  obtains rows where "ps = map scanProject rows" "mset rows = mset (projects (view q))"
    "sorted (map p_created rows)"
proof -
  from assms obtain rows where "sq_projects Q q = Inr rows" "ps = map scanProject rows"
    by (auto simp: ListProjects_def split: sum.splits)
  with projects_ok that show thesis by (auto simp: ordered_projects_def)
qed

end

text \<open>An audit entry that was written is the first one listed, with its action, resource
  name, verdict and message unchanged, and a listing never holds more entries than asked for
  (100 when the limit is not positive).\<close>

theorem audit_newest_first:
  assumes "sqlite_engine Q view" and "ids_ok (view q)"
    and "WriteAudit Q t e q = (Ret (), q')" and "ListAudit Q n q' = Ret es"
  shows "es \<noteq> [] \<and> Action (hd es) = Action e \<and> ResourceName (hd es) = ResourceName e
    \<and> Success (hd es) = Success e \<and> Message (hd es) = Message e
    \<and> length es \<le> nat (if n \<le> 0 then 100 else n)"
proof -
  obtain i where a: "audit_logs (view q') = audit_logs (view q) @
    [\<lparr>a_id = i, a_action = Action e, a_resource = Resource e, a_name = ResourceName e,
      a_success = boolToInt (Success e), a_message = Message e, a_ip = RemoteIP e,
      a_created = formatNano (if IsZero (audCreatedAt e) then t else audCreatedAt e)\<rparr>]"
    using sqlite_engine.audit_written [OF assms(1,3)] by blast
  have q': "q' = snd (WriteAudit Q t e q)" using assms(3) by simp
  have "ids_ok (view q')"
    using sqlite_engine.exec_view [OF assms(1)] cmd_effect_ids [OF assms(2)] assms(2)
    unfolding q' store_op_state by metis
  from sqlite_engine.list_audit_ret [OF assms(1,4) this] a show ?thesis
    by (auto simp: take_Cons' scanAudit_def boolToInt_def min_def split: if_splits)
qed

definition sample_entry :: AuditLog where
  "sample_entry = \<lparr>audID = 0, Action = ''database.create'', Resource = ''database'',
     ResourceName = ''opcos'', Success = True, Message = ''created'', RemoteIP = ''127.0.0.1'',
     audCreatedAt = zeroTime\<rparr>"

theorem audit_newest_first_witness:
  "\<exists>es. ListAudit table_engine 5 (snd (WriteAudit table_engine zeroTime sample_entry empty_tables)) = Ret es
    \<and> es \<noteq> [] \<and> Message (hd es) = ''created''"
proof -
  let ?q = "snd (WriteAudit table_engine zeroTime sample_entry empty_tables)"
  have w: "WriteAudit table_engine zeroTime sample_entry empty_tables = (Ret (), ?q)"
    by (simp add: WriteAudit_def table_engine_def table_exec_def Let_def)
  obtain es where es: "ListAudit table_engine 5 ?q = Ret es"
    by (simp add: ListAudit_def table_engine_def)
  have "ids_ok empty_tables" using empty_tables_ok by (simp add: tables_ok_def)
  from audit_newest_first [OF reference_sql.sqlite_engine_axioms this w es] es
  show ?thesis by (auto simp: sample_entry_def)
qed

text \<open>Revocation keeps the first timestamp. Once a revocation of a token has succeeded, a
  second one that succeeds changes nothing at all, and no other token is ever touched.\<close>

theorem revoke_keeps_first_time:
  assumes "sqlite_engine Q view"
    and "RevokeToken Q t i q = (Ret (), q1)" and "RevokeToken Q t' i q1 = (Ret (), q2)"
  shows "tokens (view q2) = tokens (view q1)
    \<and> filter (\<lambda>r. t_id r \<noteq> i) (tokens (view q2)) = filter (\<lambda>r. t_id r \<noteq> i) (tokens (view q))
    \<and> list_all (\<lambda>r. t_id r = i \<longrightarrow> t_revoked r \<noteq> None) (tokens (view q2))"
proof -
  note r = sqlite_engine.token_row_revoked [OF assms(1)]
  have "map (\<lambda>r. if t_id r = i then r\<lparr>t_revoked := Some (case t_revoked r of Some x \<Rightarrow> x | None \<Rightarrow> b)\<rparr> else r)
      (map (\<lambda>r. if t_id r = i then r\<lparr>t_revoked := Some (case t_revoked r of Some x \<Rightarrow> x | None \<Rightarrow> a)\<rparr> else r) xs)
    = map (\<lambda>r. if t_id r = i then r\<lparr>t_revoked := Some (case t_revoked r of Some x \<Rightarrow> x | None \<Rightarrow> a)\<rparr> else r) xs"
    for a b and xs :: "token_row list"
    by (induction xs) auto
  then have same: "tokens (view q2) = tokens (view q1)"
    using r [OF assms(2)] r [OF assms(3)] by simp
  have "filter (\<lambda>r. t_id r \<noteq> i)
      (map (\<lambda>r. if t_id r = i then r\<lparr>t_revoked := Some (case t_revoked r of Some x \<Rightarrow> x | None \<Rightarrow> a)\<rparr> else r) xs)
    = filter (\<lambda>r. t_id r \<noteq> i) xs" for a and xs :: "token_row list"
    by (induction xs) auto
  then have "filter (\<lambda>r. t_id r \<noteq> i) (tokens (view q1)) = filter (\<lambda>r. t_id r \<noteq> i) (tokens (view q))"
    unfolding r [OF assms(2)] .
  moreover have "list_all (\<lambda>r. t_id r = i \<longrightarrow> t_revoked r \<noteq> None)
      (map (\<lambda>r. if t_id r = i then r\<lparr>t_revoked := Some (case t_revoked r of Some x \<Rightarrow> x | None \<Rightarrow> a)\<rparr> else r) xs)"
    for a and xs :: "token_row list"
    by (induction xs) simp_all
  then have "list_all (\<lambda>r. t_id r = i \<longrightarrow> t_revoked r \<noteq> None) (tokens (view q1))"
    unfolding r [OF assms(2)] .
  ultimately show ?thesis unfolding same by (intro conjI) simp_all
qed

theorem revoke_keeps_first_time_witness:
  "\<exists>q q1 q2. RevokeToken table_engine zeroTime 1 q = (Ret (), q1)
    \<and> RevokeToken table_engine (zeroTime\<lparr>sec := 9\<rparr>) 1 q1 = (Ret (), q2)
    \<and> length (tokens q2) = 1 \<and> tokens q2 = tokens q1"
proof -
  let ?q = "snd (CreateToken table_engine zeroTime ''admin'' ''h'' empty_tables)"
  let ?q1 = "snd (RevokeToken table_engine zeroTime 1 ?q)"
  let ?q2 = "snd (RevokeToken table_engine (zeroTime\<lparr>sec := 9\<rparr>) 1 ?q1)"
  have r: "RevokeToken table_engine zeroTime 1 ?q = (Ret (), ?q1)"
    "RevokeToken table_engine (zeroTime\<lparr>sec := 9\<rparr>) 1 ?q1 = (Ret (), ?q2)"
    by (simp_all add: RevokeToken_def table_engine_def table_exec_def)
  moreover have "length (tokens ?q2) = 1"
    by (simp add: store_op_state table_engine_def table_exec_def empty_tables_def)
  moreover have "tokens ?q2 = tokens ?q1"
    by (rule revoke_keeps_first_time [OF reference_sql.sqlite_engine_axioms r, THEN conjunct1])
  ultimately show ?thesis by (intro exI [of _ ?q] exI [of _ ?q1] exI [of _ ?q2] conjI)
qed

section \<open>The order of a listing\<close>

lemma text_less_append: "xs < ys \<Longrightarrow> zs @ xs < zs @ (ys :: string)"
  by (induction zs) auto

text \<open>The fraction of a second is written before the letter Z, and the point sorts before
  it.\<close>

lemma fraction_sorts_first:
  assumes "nsec a = 0" "0 < n"
  shows "formatNano (a\<lparr>nsec := n\<rparr>) < formatNano a"
proof -
  have "frac n @ ''Z'' < frac 0 @ ''Z''"
    using assms(2) by (simp add: frac_def less_char_def)
  then have "format_secs a @ (frac n @ ''Z'') < format_secs a @ (frac 0 @ ''Z'')"
    by (rule text_less_append)
  moreover have "format_secs (a\<lparr>nsec := n\<rparr>) = format_secs a" by (simp add: format_secs_def)
  ultimately show ?thesis using assms(1) by (simp add: formatNano_def)
qed

lemma two_sorted:
  assumes "mset rows = mset [x, y]" "sorted (map p_created rows)" "p_created y < p_created x"
  shows "rows = [y, x]"
proof -
  have "length rows = 2" using assms(1) by (metis length_Cons list.size(3) mset_eq_length numeral_2_eq_2)
  then obtain u v where r: "rows = [u, v]"
    by (auto simp: numeral_2_eq_2 length_Suc_conv)
  with assms(1) have "u = x \<and> v = y \<or> u = y \<and> v = x"
    by (auto simp: add_eq_conv_ex)
  with r assms(2,3) show ?thesis by auto
qed

text \<open>The listing is not ordered by creation time. Of two projects created within one
  second, the first at the whole second, every engine that sorts the stored text lists the
  later one first.\<close>

theorem listing_not_chronological:
  assumes "sqlite_engine Q view"
    and "projects (view q) = [ra, rb]"
    and "p_created ra = formatNano a" and "p_created rb = formatNano (a\<lparr>nsec := n\<rparr>)"
    and "nsec a = 0" and "0 < n" and "ListProjects Q q = Ret ps"
  shows "earlier a (a\<lparr>nsec := n\<rparr>) \<and> map Name ps = [p_name rb, p_name ra]"
proof -
  obtain rows where rows: "ps = map scanProject rows" "mset rows = mset [ra, rb]"
    "sorted (map p_created rows)"
    using sqlite_engine.list_projects_ret [OF assms(1,7)] assms(2) by metis
  have "p_created rb < p_created ra" using fraction_sorts_first [OF assms(5,6)] assms(3,4) by simp
  from two_sorted [OF rows(2,3) this] have "rows = [rb, ra]" .
  moreover have "earlier a (a\<lparr>nsec := n\<rparr>)" using assms(5,6) by (simp add: earlier_def)
  ultimately show ?thesis using rows(1) by (simp add: scanProject_def)
qed

theorem listing_not_chronological_witness:
  "\<exists>q ps. map p_name (projects q) = [''first'', ''second'']
     \<and> ListProjects table_engine q = Ret ps \<and> map Name ps = [''second'', ''first'']"
proof -
  let ?a = "zeroTime\<lparr>yr := 2025\<rparr>" and ?b = "zeroTime\<lparr>yr := 2025, nsec := 5\<rparr>"
  let ?q1 = "snd (CreateProject table_engine ?a (sample_project ''first'') empty_tables)"
  let ?q = "snd (CreateProject table_engine ?b (sample_project ''second'') ?q1)"
  have z: "IsZero (CreatedAt (sample_project m))" for m
    by (simp add: sample_project_def zeroProject_def IsZero_def)
  have m: "Name (sample_project m) = m" for m by (simp add: sample_project_def)
  obtain ra rb where q: "projects ?q = [ra, rb]" "p_name ra = ''first''" "p_name rb = ''second''"
    "p_created ra = formatNano ?a" "p_created rb = formatNano (?a\<lparr>nsec := 5\<rparr>)"
    by (simp add: store_op_state table_engine_def table_exec_def empty_tables_def z m)
  obtain ps where ps: "ListProjects table_engine ?q = Ret ps"
    by (simp add: ListProjects_def table_engine_def)
  have a: "nsec ?a = 0" "(0::nat) < 5" by (simp_all add: zeroTime_def)
  have "map p_name (projects ?q) = [''first'', ''second'']"
    unfolding q(1) by (simp add: q(2,3))
  moreover have "map Name ps = [''second'', ''first'']"
    using listing_not_chronological [OF reference_sql.sqlite_engine_axioms q(1,4,5) a ps] q(2,3)
    by simp
  ultimately show ?thesis using ps by (intro exI [of _ ?q] exI [of _ ps] conjI)
qed

end
