(* ===== verification/Auth.thy ===== *)
theory Auth
  imports Store Passwords
begin

text \<open>
  \<open>internal/auth/auth.go\<close>: the token digest and the bearer-token check. SHA-256 is the
  function of package \<open>crypto/sha256\<close> (FIPS 180-4), written out on 32-bit words, so that the
  digest is a computable function of the token text; \<open>hex.EncodeToString\<close> renders it. The
  lemmas say which headers are accepted, that a refusal changes nothing, and that a revoked
  token is refused.
\<close>

unbundle bit_operations_syntax

section \<open>SHA-256\<close>

type_synonym w32 = "32 word"

definition rotr :: "nat \<Rightarrow> w32 \<Rightarrow> w32" where
  "rotr n x = drop_bit n x OR push_bit (32 - n) x"

text \<open>The constants of the standard: the first 32 fractional bits of the cube roots of the first
  64 primes, and of the square roots of the first 8. The root is found bit by bit.\<close>

fun iroot :: "nat \<Rightarrow> nat \<Rightarrow> nat \<Rightarrow> nat \<Rightarrow> nat" where
  "iroot k n 0 r = r"
| "iroot k n (Suc b) r = iroot k n b (if (r + 2 ^ b) ^ k \<le> n then r + 2 ^ b else r)"

definition frac_root :: "nat \<Rightarrow> nat \<Rightarrow> w32" where
  "frac_root k p = word_of_nat (iroot k (p * 2 ^ (32 * k)) 37 0 mod 2 ^ 32)"

definition sha_primes :: "nat list" where
  "sha_primes = filter (\<lambda>n. list_all (\<lambda>d. n mod d \<noteq> 0) [2..<n]) [2..<312]"

definition sha_k :: "w32 list" where
  "sha_k = map (frac_root 3) sha_primes"

definition sha_h0 :: "w32 list" where
  "sha_h0 = map (frac_root 2) (take 8 sha_primes)"

definition big_endian :: "nat \<Rightarrow> nat \<Rightarrow> 8 word list" where
  "big_endian k n = map (\<lambda>i. word_of_nat (n div 256 ^ (k - 1 - i) mod 256)) [0..<k]"

definition sha_pad :: "8 word list \<Rightarrow> 8 word list" where
  "sha_pad m = m @ [0x80] @ replicate ((119 - length m mod 64) mod 64) 0 @ big_endian 8 (8 * length m)"

definition word32_of :: "8 word \<Rightarrow> 8 word \<Rightarrow> 8 word \<Rightarrow> 8 word \<Rightarrow> w32" where
  "word32_of a b c d =
     word_of_nat (((unat a * 256 + unat b) * 256 + unat c) * 256 + unat d)"

fun block_words :: "8 word list \<Rightarrow> w32 list" where
  "block_words (a # b # c # d # r) = word32_of a b c d # block_words r"
| "block_words _ = []"

text \<open>The message schedule: \<open>k\<close> more words behind the ones that are there.\<close>

fun schedule :: "nat \<Rightarrow> w32 list \<Rightarrow> w32 list" where
  "schedule 0 w = w"
| "schedule (Suc k) w =
     (let t = length w;
          x = w ! (t - 15); y = w ! (t - 2);
          s0 = rotr 7 x XOR rotr 18 x XOR drop_bit 3 x;
          s1 = rotr 17 y XOR rotr 19 y XOR drop_bit 10 y
      in schedule k (w @ [w ! (t - 16) + s0 + w ! (t - 7) + s1]))"

fun sha_rounds :: "(w32 \<times> w32) list \<Rightarrow> w32 list \<Rightarrow> w32 list" where
  "sha_rounds [] s = s"
| "sha_rounds ((k, w) # r) [a, b, c, d, e, f, g, h] =
     (let s1 = rotr 6 e XOR rotr 11 e XOR rotr 25 e;
          ch = (e AND f) XOR (NOT e AND g);
          t1 = h + s1 + ch + k + w;
          s0 = rotr 2 a XOR rotr 13 a XOR rotr 22 a;
          maj = (a AND b) XOR (a AND c) XOR (b AND c);
          t2 = s0 + maj
      in sha_rounds r [t1 + t2, a, b, c, d + t1, e, f, g])"
| "sha_rounds (x # r) s = s"

function sha_blocks :: "w32 list \<Rightarrow> 8 word list \<Rightarrow> w32 list" where
  "sha_blocks hs m =
     (if length m < 64 then hs
      else sha_blocks
        (map2 (+) hs (sha_rounds (zip sha_k (schedule 48 (block_words (take 64 m)))) hs))
        (drop 64 m))"
  by pat_completeness auto
termination
  by (relation "measure (\<lambda>(hs, m). length m)") auto

declare sha_blocks.simps [simp del]

definition Sum256 :: "8 word list \<Rightarrow> 8 word list" where
  "Sum256 m = concat (map (\<lambda>x. big_endian 4 (unat x)) (sha_blocks sha_h0 (sha_pad m)))"

section \<open>Digests\<close>

text \<open>\<open>hex.EncodeToString\<close>.\<close>

definition hexEncode :: "8 word list \<Rightarrow> string" where
  "hexEncode bs = concat (map (\<lambda>b. [hex_digit (unat b div 16), hex_digit (unat b mod 16)]) bs)"

definition HashToken :: "string \<Rightarrow> string" where
  "HashToken raw = hexEncode (Sum256 (map (\<lambda>c. word_of_nat (code c)) raw))"

section \<open>Lookup\<close>

text \<open>\<open>subtle.ConstantTimeCompare\<close> answers 1 exactly for equal byte strings.\<close>

definition ConstantTimeCompare :: "string \<Rightarrow> string \<Rightarrow> int" where
  "ConstantTimeCompare a b = (if a = b then 1 else 0)"

text \<open>The clock reading \<open>t\<close> is the one \<open>TouchToken\<close> takes.\<close>

definition Lookup :: "'q sqlite \<Rightarrow> gotime \<Rightarrow> string \<Rightarrow> 'q \<Rightarrow> Token outcome \<times> 'q" where
  "Lookup Q t authHeader q =
     (case CutPrefix (TrimSpace authHeader) ''Bearer '' of
        None \<Rightarrow> (Fail ErrUnauthorized, q)
      | Some raw \<Rightarrow>
         (if raw = [] then (Fail ErrUnauthorized, q)
          else let raw = TrimSpace raw in
            if \<not> HasPrefix raw TokenPrefix then (Fail ErrUnauthorized, q)
            else (case GetTokenByHash Q (HashToken raw) q of
                    Fail e \<Rightarrow> (Fail (if e = StoreErrNotFound then ErrUnauthorized else e), q)
                  | Panic m \<Rightarrow> (Panic m, q)
                  | Ret tok \<Rightarrow>
                      (if RevokedAt tok \<noteq> None then (Fail ErrUnauthorized, q)
                       else if ConstantTimeCompare (TokenHash tok) (HashToken raw) \<noteq> 1
                         then (Fail ErrUnauthorized, q)
                       else (Ret tok, snd (TouchToken Q t (tokID tok) q))))))"

text \<open>The token text a header carries, if it has the form the check asks for.\<close>

definition bearer_token :: "string \<Rightarrow> string option" where
  "bearer_token h =
     (case CutPrefix (TrimSpace h) ''Bearer '' of
        None \<Rightarrow> None
      | Some raw \<Rightarrow>
          (if raw \<noteq> [] \<and> HasPrefix (TrimSpace raw) TokenPrefix then Some (TrimSpace raw) else None))"

lemma GetTokenByHash_no_panic: "GetTokenByHash Q h q \<noteq> Panic m"
  by (auto simp: GetTokenByHash_def split: sum.splits option.splits)

lemma Lookup_bearer:
  "Lookup Q t h q =
     (case bearer_token h of
        None \<Rightarrow> (Fail ErrUnauthorized, q)
      | Some raw \<Rightarrow>
          (case GetTokenByHash Q (HashToken raw) q of
             Fail e \<Rightarrow> (Fail (if e = StoreErrNotFound then ErrUnauthorized else e), q)
           | Panic m \<Rightarrow> (Panic m, q)
           | Ret tok \<Rightarrow>
               (if RevokedAt tok = None \<and> TokenHash tok = HashToken raw
                then (Ret tok, snd (TouchToken Q t (tokID tok) q))
                else (Fail ErrUnauthorized, q))))"
  by (simp add: Lookup_def bearer_token_def ConstantTimeCompare_def Let_def
      split: option.splits outcome.splits)

text \<open>The check for an empty token is dead code: a trimmed header never ends in a space.\<close>

lemma bearer_rest_nonempty: "CutPrefix (TrimSpace h) ''Bearer '' \<noteq> Some []"
proof
  assume "CutPrefix (TrimSpace h) ''Bearer '' = Some []"
  then have "TrimSpace h = ''Bearer ''" by (simp add: CutPrefix_Some)
  then have "TrimSpace h \<noteq> []" "last (TrimSpace h) = CHR '' ''" by simp_all
  with TrimSpace_last show False by blast
qed

context sqlite_engine
begin

lemma token_lookup_ret:
  assumes "GetTokenByHash Q hash q = Ret tok"
  obtains r where "r \<in> set (tokens (view q))" "t_hash r = hash" "tok = scanToken r"
proof -
  from assms obtain r where r: "sq_token Q hash q = Inr (Some r)" "tok = scanToken r"
    by (auto simp: GetTokenByHash_def split: sum.splits option.splits)
  from token_ok [OF r(1)] have "find (\<lambda>x. t_hash x = hash) (tokens (view q)) = Some r"
    by (simp add: select_token_def)
  then have "r \<in> set (tokens (view q))" "t_hash r = hash"
    by (auto simp: find_Some_iff)
  with r(2) that show thesis by blast
qed

lemma Lookup_ret:
  assumes "Lookup Q t h q = (Ret tok, q')"
  obtains raw r where "bearer_token h = Some raw" "r \<in> set (tokens (view q))"
    "t_hash r = HashToken raw" "t_revoked r = None" "tok = scanToken r"
    "q' = snd (TouchToken Q t (t_id r) q)"
proof -
  from assms obtain raw where raw: "bearer_token h = Some raw"
    "GetTokenByHash Q (HashToken raw) q = Ret tok" "RevokedAt tok = None"
    "q' = snd (TouchToken Q t (tokID tok) q)"
    by (auto simp: Lookup_bearer split: option.splits outcome.splits if_splits)
  from token_lookup_ret [OF raw(2)] obtain r where
    r: "r \<in> set (tokens (view q))" "t_hash r = HashToken raw" "tok = scanToken r" .
  from r raw have s: "t_revoked r = None" "tokID tok = t_id r" by (simp_all add: scanToken_def)
  show thesis by (rule that [of raw r]) (simp_all add: raw(1) r s(1) raw(4) s(2) [unfolded r(3)])
qed

lemma Lookup_fail_state: "Lookup Q t h q = (Fail e, q') \<Longrightarrow> q' = q"
  by (auto simp: Lookup_bearer split: option.splits outcome.splits if_splits)

lemma touch_effect:
  "view (snd (TouchToken Q t i q)) = view q
   \<or> view (snd (TouchToken Q t i q)) = cmd_effect (TouchTokenRow (formatNano t) i) (view q)"
  unfolding store_op_state by (rule exec_view)

lemma Lookup_rows: "projects (view (snd (Lookup Q t h q))) = projects (view q)"
proof (cases "Lookup Q t h q")
  case (Pair r q')
  show ?thesis
  proof (cases r)
    case (Ret tok)
    with Pair have "Lookup Q t h q = (Ret tok, q')" by simp
    then obtain i where q': "q' = snd (TouchToken Q t i q)" by (rule Lookup_ret)
    with touch_effect [of t i q] Pair show ?thesis by auto
  next
    case (Fail e)
    with Pair have "q' = q" by (intro Lookup_fail_state [of t h q e]) simp
    with Pair show ?thesis by simp
  next
    case (Panic m)
    with Pair GetTokenByHash_no_panic show ?thesis
      by (auto simp: Lookup_bearer split: option.splits outcome.splits if_splits)
  qed
qed

lemma Lookup_projects: "project_map (view (snd (Lookup Q t h q))) = project_map (view q)"
  by (simp add: fun_eq_iff project_map_def select_project_def Lookup_rows)

end

text \<open>C15: a request is let in only with a header that carries a token of the right form whose
  SHA-256 digest belongs to a stored token that is not revoked, and the answer is that
  token; a request that is refused leaves the database exactly as it was.\<close>

theorem lookup_sound:
  assumes "sqlite_engine Q view" and "Lookup Q t h q = (r, q')"
  shows "(\<forall>tok. r = Ret tok \<longrightarrow> (\<exists>raw row. bearer_token h = Some raw \<and> HasPrefix raw TokenPrefix
       \<and> row \<in> set (tokens (view q)) \<and> t_hash row = HashToken raw \<and> t_revoked row = None
       \<and> tok = scanToken row))
    \<and> (\<forall>e. r = Fail e \<longrightarrow> q' = q)"
proof (intro conjI allI impI)
  fix tok assume "r = Ret tok"
  with assms(2) have "Lookup Q t h q = (Ret tok, q')" by simp
  from sqlite_engine.Lookup_ret [OF assms(1) this] obtain raw row where
    x: "bearer_token h = Some raw" "row \<in> set (tokens (view q))" "t_hash row = HashToken raw"
    "t_revoked row = None" "tok = scanToken row" .
  from x(1) have "HasPrefix raw TokenPrefix"
    by (auto simp: bearer_token_def split: option.splits if_splits)
  with x show "\<exists>raw row. bearer_token h = Some raw \<and> HasPrefix raw TokenPrefix
       \<and> row \<in> set (tokens (view q)) \<and> t_hash row = HashToken raw \<and> t_revoked row = None
       \<and> tok = scanToken row"
    by blast
next
  fix e assume "r = Fail e"
  with assms show "q' = q" by (simp add: sqlite_engine.Lookup_fail_state)
qed

lemma witness_bearer: "bearer_token ''Bearer dbi_x'' = Some ''dbi_x''"
proof -
  have "TrimSpace ''Bearer dbi_x'' = ''Bearer dbi_x''" by (rule TrimSpace_plain) (simp_all add: plain_char_def char_class_defs)
  moreover have "TrimSpace ''dbi_x'' = ''dbi_x''" by (rule TrimSpace_plain) (simp_all add: plain_char_def char_class_defs)
  ultimately show ?thesis by (simp add: bearer_token_def CutPrefix_def HasPrefix_def TokenPrefix_def)
qed

definition one_token :: tables where
  "one_token = snd (CreateToken table_engine zeroTime ''admin'' (HashToken ''dbi_x'') empty_tables)"

lemma one_token_rows:
  "tokens one_token = [\<lparr>t_id = 1, t_name = ''admin'', t_hash = HashToken ''dbi_x'',
     t_created = formatNano zeroTime, t_last_used = None, t_revoked = None\<rparr>]"
  by (simp add: one_token_def store_op_state table_engine_def table_exec_def empty_tables_def)

lemma token_lookup:
  "tokens s = tokens one_token \<Longrightarrow> Lookup table_engine t ''Bearer dbi_x'' s
   = (Ret (scanToken (hd (tokens one_token))), snd (TouchToken table_engine t 1 s))"
  by (simp add: Lookup_bearer witness_bearer GetTokenByHash_def table_engine_def one_token_rows
      select_token_def scanToken_def)

lemmas one_token_lookup = token_lookup [OF refl]

theorem lookup_sound_witness:
  "\<exists>tok. fst (Lookup table_engine zeroTime ''Bearer dbi_x'' one_token) = Ret tok \<and> tokName tok = ''admin''
    \<and> (\<exists>row. row \<in> set (tokens one_token) \<and> t_hash row = HashToken ''dbi_x'' \<and> tok = scanToken row)"
proof -
  note l = lookup_sound [OF reference_sql.sqlite_engine_axioms one_token_lookup [of zeroTime], THEN conjunct1]
  let ?t = "scanToken (hd (tokens one_token))"
  from l have "\<exists>row. row \<in> set (tokens one_token) \<and> t_hash row = HashToken ''dbi_x'' \<and> ?t = scanToken row"
    by (simp add: witness_bearer) metis
  moreover have "tokName ?t = ''admin''" by (simp add: one_token_rows scanToken_def)
  ultimately show ?thesis by (intro exI [of _ ?t] conjI) (simp_all add: one_token_lookup)
qed

text \<open>C30: once a token has been revoked, no header that carries it is let in again.\<close>

theorem revoked_token_refused:
  assumes "sqlite_engine Q view" and "tables_ok (view q)"
    and "row \<in> set (tokens (view q))" and "t_hash row = HashToken raw"
    and "RevokeToken Q t (t_id row) q = (Ret (), q1)"
    and "bearer_token h = Some raw"
  shows "\<nexists>tok q2. Lookup Q t' h q1 = (Ret tok, q2)"
proof
  assume "\<exists>tok q2. Lookup Q t' h q1 = (Ret tok, q2)"
  then obtain tok q2 where l: "Lookup Q t' h q1 = (Ret tok, q2)" by blast
  from sqlite_engine.Lookup_ret [OF assms(1) this] assms(6) obtain r where
    r: "r \<in> set (tokens (view q1))" "t_hash r = HashToken raw" "t_revoked r = None"
    by (metis option.inject)
  from sqlite_engine.token_row_revoked [OF assms(1,5)] r(1) obtain s where
    s: "s \<in> set (tokens (view q))" "t_hash r = t_hash s" "t_id s = t_id row \<longrightarrow> t_revoked r \<noteq> None"
    by (auto split: if_splits)
  have "distinct (map t_hash (tokens (view q)))"
    using assms(2) by (simp add: tables_ok_def unique_ok_def)
  with s(1,2) r(2) assms(3,4) have "s = row" by (metis inj_on_def distinct_map)
  with s(3) r(3) show False by simp
qed

theorem revoked_token_refused_witness:
  "\<exists>q1. RevokeToken table_engine zeroTime 1 one_token = (Ret (), q1)
    \<and> (\<nexists>tok q2. Lookup table_engine zeroTime ''Bearer dbi_x'' q1 = (Ret tok, q2))"
proof -
  let ?r = "hd (tokens one_token)"
  let ?q1 = "snd (RevokeToken table_engine zeroTime 1 one_token)"
  have r: "RevokeToken table_engine zeroTime 1 one_token = (Ret (), ?q1)"
    by (simp add: RevokeToken_def table_engine_def table_exec_def one_token_rows)
  have row: "?r \<in> set (tokens one_token)" "t_hash ?r = HashToken ''dbi_x''" "t_id ?r = 1"
    by (simp_all add: one_token_rows)
  have ok: "tables_ok one_token"
    by (simp add: tables_ok_def unique_ok_def ids_ok_def one_token_def store_op_state table_engine_def
        table_exec_def empty_tables_def)
  have r': "RevokeToken table_engine zeroTime (t_id ?r) one_token = (Ret (), ?q1)"
    unfolding row(3) by (rule r)
  have "\<nexists>tok q2. Lookup table_engine zeroTime ''Bearer dbi_x'' ?q1 = (Ret tok, q2)"
    by (rule revoked_token_refused [OF reference_sql.sqlite_engine_axioms ok row(1,2) r' witness_bearer])
  with r show ?thesis by blast
qed

end
