(* ===== verification/Paths.thy ===== *)
theory Paths
  imports Prelude
begin

text \<open>
  The operations of package \<open>path/filepath\<close> the sources call, on Unix paths: \<open>Clean\<close>, \<open>Join\<close>,
  \<open>Abs\<close>, \<open>IsAbs\<close> and \<open>Dir\<close>. The lemmas say where a joined file name lands.
\<close>

abbreviation slash :: char where
  "slash \<equiv> CHR ''/''"

text \<open>The elements of a path that \<open>Clean\<close> keeps, the ones before them on a stack.\<close>

fun clean_elems :: "bool \<Rightarrow> string list \<Rightarrow> string list \<Rightarrow> string list" where
  "clean_elems rooted st [] = rev st"
| "clean_elems rooted st (c # cs) =
     (if c = [] \<or> c = ''.'' then clean_elems rooted st cs
      else if c = ''..'' then
        (case st of
           [] \<Rightarrow> clean_elems rooted (if rooted then [] else [''..'']) cs
         | t # ts \<Rightarrow> clean_elems rooted (if t = ''..'' then ''..'' # st else ts) cs)
      else clean_elems rooted (c # st) cs)"

definition IsAbs :: "string \<Rightarrow> bool" where
  "IsAbs p = HasPrefix p ''/''"

definition Clean :: "string \<Rightarrow> string" where
  "Clean p =
     (let es = clean_elems (IsAbs p) [] (Split slash p); body = Join es ''/''
      in if IsAbs p then slash # body else if es = [] then ''.'' else body)"

definition JoinPath :: "string list \<Rightarrow> string" where
  "JoinPath es =
     (let es = filter (\<lambda>e. e \<noteq> []) es in if es = [] then [] else Clean (Join es ''/''))"

definition Abs :: "string \<Rightarrow> string \<Rightarrow> string" where
  "Abs cwd p = (if IsAbs p then Clean p else JoinPath [cwd, p])"

text \<open>A name that is a single element of its own.\<close>

definition base_name :: "string \<Rightarrow> bool" where
  "base_name b \<longleftrightarrow> b \<noteq> [] \<and> b \<noteq> ''.'' \<and> b \<noteq> ''..'' \<and> slash \<notin> set b"

definition dir_elems :: "string \<Rightarrow> string list" where
  "dir_elems d = clean_elems (IsAbs d) [] (if d = [] then [] else Split slash d)"

lemma clean_elems_snoc:
  "base_name b \<Longrightarrow> clean_elems r st (cs @ [b]) = clean_elems r st cs @ [b]"
  by (induction r st cs rule: clean_elems.induct) (auto simp: base_name_def split: list.splits)

lemma IsAbs_append: "d \<noteq> [] \<Longrightarrow> IsAbs (d @ s) = IsAbs d"
  by (cases d) (auto simp: IsAbs_def HasPrefix_def)

lemma JoinPath_base:
  assumes "base_name b"
  shows "JoinPath [d, b] = (if IsAbs d then [slash] else []) @ Join (dir_elems d @ [b]) ''/''"
proof (cases "d = []")
  case True
  have "\<not> IsAbs b" using assms by (cases b) (auto simp: base_name_def IsAbs_def HasPrefix_def)
  with True assms show ?thesis
    using clean_elems_snoc [OF assms, of False "[]" "[]"]
    by (simp add: JoinPath_def Clean_def base_name_def Split_end dir_elems_def IsAbs_def HasPrefix_def)
next
  case False
  have "b \<noteq> []" "slash \<notin> set b" using assms by (simp_all add: base_name_def)
  with False have "JoinPath [d, b] = Clean (d @ slash # b)"
    by (simp add: JoinPath_def)
  also have "clean_elems (IsAbs d) [] (Split slash (d @ slash # b)) = dir_elems d @ [b]"
    using False \<open>slash \<notin> set b\<close> by (simp add: Split_snoc clean_elems_snoc [OF assms] dir_elems_def)
  then have "Clean (d @ slash # b) = (if IsAbs d then [slash] else []) @ Join (dir_elems d @ [b]) ''/''"
    using False by (simp add: Clean_def IsAbs_append)
  finally show ?thesis .
qed

lemma Join_snoc: "Join (xs @ [b]) sep = (if xs = [] then b else Join xs sep @ sep @ b)"
  by (induction xs sep rule: Join.induct) auto

text \<open>Different file names in a directory are different paths.\<close>

lemma JoinPath_inj:
  "base_name a \<Longrightarrow> base_name b \<Longrightarrow> JoinPath [d, a] = JoinPath [d, b] \<longleftrightarrow> a = b"
  by (simp add: JoinPath_base Join_snoc)

lemma JoinPath_ends: "base_name b \<Longrightarrow> HasSuffix (JoinPath [d, b]) b"
  by (auto simp: JoinPath_base Join_snoc HasSuffix_def)

end
