(* ===== verification/Disk.thy ===== *)
theory Disk
  imports Paths
begin

text \<open>
  The file system as the calls of package \<open>os\<close> that the sources make see it: a map from
  cleaned paths to files (there are no symbolic links in it), a count of the system calls
  made so far, and the list of the states the disk went through, newest first, which is
  what another process, or a restart after a crash, can observe. An \<open>os\<close> says which call
  fails and with what text (a failing write has written some bytes), and which random
  numbers \<open>CreateTemp\<close> draws.
\<close>

record fnode =
  content :: string
  mode :: nat

text \<open>The octal mode 0600.\<close>

definition m0600 :: nat where
  "m0600 = 6 * 64"

type_synonym files = "string \<Rightarrow> fnode option"

record disk =
  files :: files
  calls :: nat
  seen :: "files list"

record os =
  os_fault :: "nat \<Rightarrow> (string \<times> nat) option"
  os_rand :: "nat \<Rightarrow> nat"

definition empty_disk :: disk where
  "empty_disk = \<lparr>files = (\<lambda>_. None), calls = 0, seen = []\<rparr>"

definition no_fault :: os where
  "no_fault = \<lparr>os_fault = (\<lambda>_. None), os_rand = id\<rparr>"

text \<open>One system call: what it leaves when it fails, and when it succeeds.\<close>

definition sys_call :: "os \<Rightarrow> (nat \<Rightarrow> files \<Rightarrow> files) \<Rightarrow> (files \<Rightarrow> files) \<Rightarrow> disk \<Rightarrow> string option \<times> disk" where
  "sys_call os bad good d =
     (case os_fault os (calls d) of
        Some (e, n) \<Rightarrow>
          (Some e, \<lparr>files = bad n (files d), calls = Suc (calls d), seen = bad n (files d) # seen d\<rparr>)
      | None \<Rightarrow>
          (None, \<lparr>files = good (files d), calls = Suc (calls d), seen = good (files d) # seen d\<rparr>))"

text \<open>A call on an open descriptor that changes no file: \<open>Sync\<close>, \<open>Close\<close>, \<open>Open\<close>.\<close>

definition os_quiet :: "os \<Rightarrow> disk \<Rightarrow> string option \<times> disk" where
  "os_quiet os d = sys_call os (\<lambda>_ f. f) (\<lambda>f. f) d"

definition append_to :: "string \<Rightarrow> string \<Rightarrow> files \<Rightarrow> files" where
  "append_to p s f =
     (case f p of None \<Rightarrow> f | Some x \<Rightarrow> f(p \<mapsto> x\<lparr>content := content x @ s\<rparr>))"

definition os_write :: "os \<Rightarrow> string \<Rightarrow> string \<Rightarrow> disk \<Rightarrow> string option \<times> disk" where
  "os_write os p s d = sys_call os (\<lambda>n. append_to p (take n s)) (append_to p s) d"

text \<open>A write to an open file outside the map: its error, and the bytes that have reached the file,
  which are all of them unless the write fails.\<close>

definition os_append :: "os \<Rightarrow> string \<Rightarrow> disk \<Rightarrow> string option \<times> string \<times> disk" where
  "os_append os s d =
     (case os_quiet os d of
        (r, d') \<Rightarrow> (r, (case os_fault os (calls d) of None \<Rightarrow> s | Some (_, n) \<Rightarrow> take n s), d'))"

definition set_mode :: "string \<Rightarrow> nat \<Rightarrow> files \<Rightarrow> files" where
  "set_mode p m f = (case f p of None \<Rightarrow> f | Some x \<Rightarrow> f(p \<mapsto> x\<lparr>mode := m\<rparr>))"

definition os_chmod :: "os \<Rightarrow> string \<Rightarrow> nat \<Rightarrow> disk \<Rightarrow> string option \<times> disk" where
  "os_chmod os p m d = sys_call os (\<lambda>_ f. f) (set_mode p m) d"

definition os_rename :: "os \<Rightarrow> string \<Rightarrow> string \<Rightarrow> disk \<Rightarrow> string option \<times> disk" where
  "os_rename os p q d = sys_call os (\<lambda>_ f. f) (\<lambda>f. (f(q := f p))(p := None)) d"

text \<open>\<open>os.Remove\<close>: a missing file is an error of its own (\<open>ErrNotExist\<close>).\<close>

datatype remove_result = Removed | NotExist | RemoveErr string

definition os_remove :: "os \<Rightarrow> string \<Rightarrow> disk \<Rightarrow> remove_result \<times> disk" where
  "os_remove os p d =
     (let missing = files d p = None
      in case sys_call os (\<lambda>_ f. f) (\<lambda>f. f(p := None)) d of
           (Some e, d') \<Rightarrow> (RemoveErr e, d')
         | (None, d') \<Rightarrow> (if missing then NotExist else Removed, d'))"

text \<open>
  \<open>os.CreateTemp(dir, prefix*suffix)\<close>: it draws numbers until the name is free, at most
  10000 times, and creates the file empty with mode 0600. The tries that meet an existing
  file are not counted as calls of their own.
\<close>

fun pick_free :: "nat \<Rightarrow> (nat \<Rightarrow> nat) \<Rightarrow> nat \<Rightarrow> (nat \<Rightarrow> bool) \<Rightarrow> nat option" where
  "pick_free 0 rnd i taken = None"
| "pick_free (Suc k) rnd i taken =
     (if taken (rnd i) then pick_free k rnd (Suc i) taken else Some (rnd i))"

definition temp_path :: "string \<Rightarrow> string \<Rightarrow> string \<Rightarrow> nat \<Rightarrow> string" where
  "temp_path dir pre suf r = JoinPath [dir, pre @ Itoa r @ suf]"

definition os_create_temp :: "os \<Rightarrow> string \<Rightarrow> string \<Rightarrow> string \<Rightarrow> disk \<Rightarrow> (string + string) \<times> disk" where
  "os_create_temp os dir pre suf d =
     (case pick_free 10000 (os_rand os) (calls d) (\<lambda>r. files d (temp_path dir pre suf r) \<noteq> None) of
        None \<Rightarrow> (Inl ''file exists'', snd (os_quiet os d))
      | Some r \<Rightarrow>
          (let p = temp_path dir pre suf r
           in case sys_call os (\<lambda>_ f. f) (\<lambda>f. f(p \<mapsto> \<lparr>content = [], mode = m0600\<rparr>)) d of
                (Some e, d') \<Rightarrow> (Inl e, d')
              | (None, d') \<Rightarrow> (Inr p, d')))"

section \<open>What the calls touch\<close>

lemma pick_free_Some: "pick_free k rnd i taken = Some r \<Longrightarrow> \<not> taken r"
  by (induction k arbitrary: i) (auto split: if_splits)

text \<open>
  \<open>touches d d' P\<close>: between \<open>d\<close> and \<open>d'\<close> only files at paths in \<open>P\<close> changed, at every state
  that was visible on the way.
\<close>

definition touches :: "string set \<Rightarrow> disk \<Rightarrow> disk \<Rightarrow> bool" where
  "touches P d d' \<longleftrightarrow>
     (\<exists>new. seen d' = new @ seen d
        \<and> (\<forall>f \<in> set (files d' # new). \<forall>p. p \<notin> P \<longrightarrow> f p = files d p))"

lemma touches_refl: "touches P d d"
  unfolding touches_def by (intro exI [of _ "[]"]) simp

lemma touches_trans: "touches P d d1 \<Longrightarrow> touches P d1 d2 \<Longrightarrow> touches P d d2"
proof -
  assume "touches P d d1" "touches P d1 d2"
  then obtain n1 n2 where "seen d1 = n1 @ seen d" "seen d2 = n2 @ seen d1"
    "\<forall>f \<in> set (files d1 # n1). \<forall>p. p \<notin> P \<longrightarrow> f p = files d p"
    "\<forall>f \<in> set (files d2 # n2). \<forall>p. p \<notin> P \<longrightarrow> f p = files d1 p"
    by (auto simp: touches_def)
  then show ?thesis
    unfolding touches_def by (intro exI [of _ "n2 @ n1"]) auto
qed

lemma touches_mono: "touches P d d' \<Longrightarrow> P \<subseteq> Q \<Longrightarrow> touches Q d d'"
  unfolding touches_def by blast

lemma touches_files: "touches P d d' \<Longrightarrow> p \<notin> P \<Longrightarrow> files d' p = files d p"
  by (auto simp: touches_def)

lemma sys_call_touches:
  assumes "\<And>n f p. p \<notin> P \<Longrightarrow> bad n f p = f p" and "\<And>f p. p \<notin> P \<Longrightarrow> good f p = f p"
  shows "touches P d (snd (sys_call os bad good d))"
proof (cases "os_fault os (calls d)")
  case None
  with assms show ?thesis unfolding touches_def
    by (intro exI [of _ "[good (files d)]"]) (simp add: sys_call_def)
next
  case (Some x)
  with assms show ?thesis unfolding touches_def
    by (intro exI [of _ "[bad (snd x) (files d)]"]) (simp add: sys_call_def split: prod.splits)
qed

lemma os_quiet_touches [simp]: "touches P d (snd (os_quiet os d))"
  unfolding os_quiet_def by (rule sys_call_touches) simp_all

lemma os_write_touches: "touches {p} d (snd (os_write os p s d))"
  unfolding os_write_def by (rule sys_call_touches) (auto simp: append_to_def split: option.splits)

lemma os_chmod_touches: "touches {p} d (snd (os_chmod os p m d))"
  unfolding os_chmod_def by (rule sys_call_touches) (auto simp: set_mode_def split: option.splits)

lemma os_rename_touches: "touches {p, q} d (snd (os_rename os p q d))"
  unfolding os_rename_def by (rule sys_call_touches) auto

lemma os_remove_snd:
  "snd (os_remove os p d) = snd (sys_call os (\<lambda>_ f. f) (\<lambda>f. f(p := None)) d)"
  by (simp add: os_remove_def Let_def split: prod.splits option.splits)

lemma os_remove_touches: "touches {p} d (snd (os_remove os p d))"
  unfolding os_remove_snd by (rule sys_call_touches) auto

lemma os_create_temp_touches:
  "os_create_temp os dir pre suf d = (Inl e, d') \<Longrightarrow> touches P d d'"
proof -
  assume c: "os_create_temp os dir pre suf d = (Inl e, d')"
  then have "d' = snd (sys_call os (\<lambda>_ f. f) (\<lambda>f. f) d)"
    by (auto simp: os_create_temp_def os_quiet_def sys_call_def Let_def split: option.splits prod.splits)
  then show ?thesis using sys_call_touches [of P "\<lambda>_ f. f" "\<lambda>f. f" d os] by simp
qed

lemma os_create_temp_Inr:
  assumes "os_create_temp os dir pre suf d = (Inr p, d')"
  shows "\<exists>r. p = temp_path dir pre suf r" "files d p = None"
    "files d' = (files d)(p \<mapsto> \<lparr>content = [], mode = m0600\<rparr>)" "touches {p} d d'"
proof -
  from assms obtain r where r: "pick_free 10000 (os_rand os) (calls d)
      (\<lambda>r. files d (temp_path dir pre suf r) \<noteq> None) = Some r" and p: "p = temp_path dir pre suf r"
    and c: "sys_call os (\<lambda>_ f. f) (\<lambda>f. f(p \<mapsto> \<lparr>content = [], mode = m0600\<rparr>)) d = (None, d')"
    by (auto simp: os_create_temp_def Let_def split: option.splits prod.splits)
  from p show "\<exists>r. p = temp_path dir pre suf r" by blast
  from pick_free_Some [OF r] p show "files d p = None" by simp
  from c show "files d' = (files d)(p \<mapsto> \<lparr>content = [], mode = m0600\<rparr>)"
    by (auto simp: sys_call_def split: option.splits)
  have "touches {p} d (snd (sys_call os (\<lambda>_ f. f) (\<lambda>f. f(p \<mapsto> \<lparr>content = [], mode = m0600\<rparr>)) d))"
    by (rule sys_call_touches) auto
  with c show "touches {p} d d'" by simp
qed

end
