(* ===== verification/Mysqlx.thy ===== *)
theory Mysqlx
  imports Names Passwords
begin

text \<open>
  \<open>internal/mysqlx/provisioner.go\<close>: the statements the service sends to MySQL. The
  statements are texts, built here as \<open>fmt.Sprintf\<close> builds them; the server is a parameter
  \<open>run\<close> that takes a text and answers an error text or nothing. The locale \<open>mysql_server\<close>
  says what a server does with the texts this package can send: a catalog of databases,
  accounts and grants changes as the statement's reading says, and a failed statement has
  either been executed or not. A reference server parses the text and shows that the laws
  can hold.
\<close>

section \<open>Identifiers and literals\<close>

definition ident_char :: "char \<Rightarrow> bool" where
  "ident_char c \<longleftrightarrow> is_lower c \<or> is_upper c \<or> is_digit c \<or> c = CHR ''_''"

definition assertIdentifier :: "string \<Rightarrow> goerr option" where
  "assertIdentifier s =
     (if s = [] then Some (ErrText ''identifier is required'')
      else if \<not> list_all ident_char s then Some (ErrText (''invalid identifier '' @ Quote s))
      else None)"

definition safe_pw_char :: "char \<Rightarrow> bool" where
  "safe_pw_char c \<longleftrightarrow> is_upper c \<or> is_lower c \<or> is_digit c \<or> c = CHR ''-'' \<or> c = CHR ''_''
     \<or> c = CHR ''!'' \<or> c = CHR ''@'' \<or> c = CHR ''#'' \<or> c = CHR ''$'' \<or> c = CHR ''%''
     \<or> c = CHR ''^'' \<or> c = CHR ''&'' \<or> c = CHR ''*''"

definition isSafePasswordLiteral :: "string \<Rightarrow> bool" where
  "isSafePasswordLiteral s =
     (if s = [] then False
      else if length s > 128 then False
      else list_all safe_pw_char s)"

definition squote :: char where
  "squote = CHR 0x27"

definition quoteMySQLString :: "string \<Rightarrow> string outcome" where
  "quoteMySQLString s =
     (if \<not> isSafePasswordLiteral s then Panic ''refusing to embed unsafe literal in SQL''
      else Ret (squote # s @ [squote]))"

abbreviation ident :: "string \<Rightarrow> bool" where
  "ident s \<equiv> assertIdentifier s = None"

lemma ident_iff: "ident s \<longleftrightarrow> s \<noteq> [] \<and> list_all ident_char s"
  by (simp add: assertIdentifier_def)

section \<open>The statements\<close>

definition hosts :: "string list" where
  "hosts = [''127.0.0.1'', ''localhost'']"

definition privs :: "bool \<Rightarrow> string list" where
  "privs allowDrop =
     (let p = [''SELECT'', ''INSERT'', ''UPDATE'', ''DELETE'', ''CREATE'', ''ALTER'', ''INDEX'',
               ''REFERENCES'']
      in if allowDrop then p @ [''DROP''] else p)"

definition create_user_text :: "string \<Rightarrow> string \<Rightarrow> string \<Rightarrow> string" where
  "create_user_text u h ql =
     ''CREATE USER IF NOT EXISTS `'' @ u @ ''`@`'' @ h @ ''` IDENTIFIED BY '' @ ql"

definition alter_user_text :: "string \<Rightarrow> string \<Rightarrow> string \<Rightarrow> string" where
  "alter_user_text u h ql =
     ''ALTER USER `'' @ u @ ''`@`'' @ h @ ''` IDENTIFIED BY '' @ ql"

text \<open>A reading of the texts: one constructor per statement, with what it names.\<close>

datatype my_stmt =
    SCreateDatabase string
  | SDropDatabase string
  | SCreateUser string string string
  | SAlterUser string string string
  | SDropUser string string
  | SGrant bool string string string
  | SFlush

fun stmt_text :: "my_stmt \<Rightarrow> string" where
  "stmt_text (SCreateDatabase d) =
     ''CREATE DATABASE IF NOT EXISTS `'' @ d @ ''` CHARACTER SET utf8mb4 COLLATE utf8mb4_unicode_ci''"
| "stmt_text (SDropDatabase d) = ''DROP DATABASE IF EXISTS `'' @ d @ ''`''"
| "stmt_text (SCreateUser u h p) = create_user_text u h (squote # p @ [squote])"
| "stmt_text (SAlterUser u h p) = alter_user_text u h (squote # p @ [squote])"
| "stmt_text (SDropUser u h) = ''DROP USER IF EXISTS `'' @ u @ ''`@`'' @ h @ ''`''"
| "stmt_text (SGrant a d u h) =
     ''GRANT '' @ Join (privs a) '', '' @ '' ON `'' @ d @ ''`.* TO `'' @ u @ ''`@`'' @ h @ ''`''"
| "stmt_text SFlush = ''FLUSH PRIVILEGES''"

text \<open>The statements the package can send.\<close>

fun stmt_wf :: "my_stmt \<Rightarrow> bool" where
  "stmt_wf (SCreateDatabase d) \<longleftrightarrow> ident d"
| "stmt_wf (SDropDatabase d) \<longleftrightarrow> ident d"
| "stmt_wf (SCreateUser u h p) \<longleftrightarrow> ident u \<and> h \<in> set hosts \<and> isSafePasswordLiteral p"
| "stmt_wf (SAlterUser u h p) \<longleftrightarrow> ident u \<and> h \<in> set hosts \<and> isSafePasswordLiteral p"
| "stmt_wf (SDropUser u h) \<longleftrightarrow> ident u \<and> h \<in> set hosts"
| "stmt_wf (SGrant a d u h) \<longleftrightarrow> ident d \<and> ident u \<and> h \<in> set hosts"
| "stmt_wf SFlush \<longleftrightarrow> True"

section \<open>The provisioner\<close>

type_synonym 'm run = "string \<Rightarrow> 'm \<Rightarrow> string option \<times> 'm"

text \<open>One statement, with the prefix the caller puts before an error.\<close>

definition exec_one :: "'m run \<Rightarrow> string \<Rightarrow> string \<Rightarrow> 'm \<Rightarrow> unit outcome \<times> 'm" where
  "exec_one run what q m =
     (case run q m of
        (None, m') \<Rightarrow> (Ret (), m')
      | (Some e, m') \<Rightarrow> (Fail (ErrText (what @ '': '' @ e)), m'))"

text \<open>The loop over the hosts; building the text of a statement can panic.\<close>

fun exec_hosts :: "'m run \<Rightarrow> string \<Rightarrow> (string \<Rightarrow> string outcome) \<Rightarrow> string list \<Rightarrow> 'm \<Rightarrow> unit outcome \<times> 'm" where
  "exec_hosts run what txt [] m = (Ret (), m)"
| "exec_hosts run what txt (h # hs) m =
     (case txt h of
        Panic p \<Rightarrow> (Panic p, m)
      | Fail e \<Rightarrow> (Fail e, m)
      | Ret q \<Rightarrow>
          (case exec_one run (what @ ''@'' @ h) q m of
             (Ret _, m') \<Rightarrow> exec_hosts run what txt hs m'
           | r \<Rightarrow> r))"

definition EnsureDatabase :: "'m run \<Rightarrow> string \<Rightarrow> 'm \<Rightarrow> unit outcome \<times> 'm" where
  "EnsureDatabase run dbName m =
     (case assertIdentifier dbName of
        Some e \<Rightarrow> (Fail e, m)
      | None \<Rightarrow> exec_one run ''create database'' (stmt_text (SCreateDatabase dbName)) m)"

definition DropDatabase :: "'m run \<Rightarrow> string \<Rightarrow> 'm \<Rightarrow> unit outcome \<times> 'm" where
  "DropDatabase run dbName m =
     (case assertIdentifier dbName of
        Some e \<Rightarrow> (Fail e, m)
      | None \<Rightarrow> exec_one run ''drop database'' (stmt_text (SDropDatabase dbName)) m)"

definition with_literal :: "(string \<Rightarrow> string) \<Rightarrow> string \<Rightarrow> string outcome" where
  "with_literal f password =
     (case quoteMySQLString password of
        Ret ql \<Rightarrow> Ret (f ql) | Fail e \<Rightarrow> Fail e | Panic p \<Rightarrow> Panic p)"

definition EnsureUser :: "'m run \<Rightarrow> string \<Rightarrow> string \<Rightarrow> 'm \<Rightarrow> unit outcome \<times> 'm" where
  "EnsureUser run user password m =
     (case assertIdentifier user of
        Some e \<Rightarrow> (Fail e, m)
      | None \<Rightarrow>
          (if password = [] then (Fail (ErrText ''password is required''), m)
           else exec_hosts run ''create user''
             (\<lambda>host. with_literal (create_user_text user host) password) hosts m))"

definition SetUserPassword :: "'m run \<Rightarrow> string \<Rightarrow> string \<Rightarrow> 'm \<Rightarrow> unit outcome \<times> 'm" where
  "SetUserPassword run user password m =
     (case assertIdentifier user of
        Some e \<Rightarrow> (Fail e, m)
      | None \<Rightarrow>
          (if password = [] then (Fail (ErrText ''password is required''), m)
           else exec_hosts run ''alter user''
             (\<lambda>host. with_literal (alter_user_text user host) password) hosts m))"

definition DropUser :: "'m run \<Rightarrow> string \<Rightarrow> 'm \<Rightarrow> unit outcome \<times> 'm" where
  "DropUser run user m =
     (case assertIdentifier user of
        Some e \<Rightarrow> (Fail e, m)
      | None \<Rightarrow> exec_hosts run ''drop user'' (\<lambda>host. Ret (stmt_text (SDropUser user host))) hosts m)"

definition GrantProjectPrivileges ::
    "'m run \<Rightarrow> string \<Rightarrow> string \<Rightarrow> bool \<Rightarrow> 'm \<Rightarrow> unit outcome \<times> 'm" where
  "GrantProjectPrivileges run dbName user allowDrop m =
     (case assertIdentifier dbName of
        Some e \<Rightarrow> (Fail e, m)
      | None \<Rightarrow>
          (case assertIdentifier user of
             Some e \<Rightarrow> (Fail e, m)
           | None \<Rightarrow>
               (case exec_hosts run ''grant''
                   (\<lambda>host. Ret (stmt_text (SGrant allowDrop dbName user host))) hosts m of
                  (Ret _, m') \<Rightarrow> exec_one run ''flush privileges'' (stmt_text SFlush) m'
                | r \<Rightarrow> r)))"

section \<open>Reading a statement back\<close>

text \<open>The pieces of a text between its backticks.\<close>

definition ticks :: "string \<Rightarrow> string list" where
  "ticks s = Split (CHR ''`'') s"

lemma ticks_simps [simp]:
  "ticks [] = [[]]"
  "ticks (c # s) =
     (if c = CHR ''`'' then [] # ticks s
      else (case ticks s of [] \<Rightarrow> [[c]] | x # xs \<Rightarrow> (c # x) # xs))"
  by (simp_all add: ticks_def)

definition unquote :: "string \<Rightarrow> string option" where
  "unquote s =
     (case CutPrefix s ('' IDENTIFIED BY '' @ [squote]) of
        None \<Rightarrow> None
      | Some r \<Rightarrow> (if r \<noteq> [] \<and> last r = squote then Some (butlast r) else None))"

definition grant_prefix :: "bool \<Rightarrow> string" where
  "grant_prefix a = ''GRANT '' @ Join (privs a) '', '' @ '' ON ''"

definition parse_stmt :: "string \<Rightarrow> my_stmt option" where
  "parse_stmt s =
     (case ticks s of
        [a] \<Rightarrow> (if a = ''FLUSH PRIVILEGES'' then Some SFlush else None)
      | [a, d, b] \<Rightarrow>
          (if a = ''CREATE DATABASE IF NOT EXISTS ''
              \<and> b = '' CHARACTER SET utf8mb4 COLLATE utf8mb4_unicode_ci'' then Some (SCreateDatabase d)
           else if a = ''DROP DATABASE IF EXISTS '' \<and> b = [] then Some (SDropDatabase d)
           else None)
      | [a, u, at, h, r] \<Rightarrow>
          (if at \<noteq> ''@'' then None
           else if a = ''CREATE USER IF NOT EXISTS '' then map_option (SCreateUser u h) (unquote r)
           else if a = ''ALTER USER '' then map_option (SAlterUser u h) (unquote r)
           else if a = ''DROP USER IF EXISTS '' \<and> r = [] then Some (SDropUser u h)
           else None)
      | [a, d, b, u, at, h, r] \<Rightarrow>
          (if b \<noteq> ''.* TO '' \<or> at \<noteq> ''@'' \<or> r \<noteq> [] then None
           else if a = grant_prefix False then Some (SGrant False d u h)
           else if a = grant_prefix True then Some (SGrant True d u h)
           else None)
      | _ \<Rightarrow> None)"

lemma ticks_end: "CHR ''`'' \<notin> set a \<Longrightarrow> ticks a = [a]"
  by (simp add: ticks_def Split_end)

lemma ticks_append: "CHR ''`'' \<notin> set a \<Longrightarrow> ticks (a @ CHR ''`'' # s) = a # ticks s"
  by (simp add: ticks_def Split_append)

lemma ident_no_tick: "ident d \<Longrightarrow> CHR ''`'' \<notin> set d"
  by (auto simp: ident_iff list_all_iff ident_char_def char_class_defs)

lemma safe_no_tick: "isSafePasswordLiteral p \<Longrightarrow> CHR ''`'' \<notin> set p"
  by (auto simp: isSafePasswordLiteral_def list_all_iff safe_pw_char_def char_class_defs
      split: if_splits)

lemma host_no_tick: "h \<in> set hosts \<Longrightarrow> CHR ''`'' \<notin> set h"
  by (auto simp: hosts_def)

lemma ticks_literal:
  "isSafePasswordLiteral p \<Longrightarrow>
     ticks ('' IDENTIFIED BY '' @ squote # p @ [squote]) = ['' IDENTIFIED BY '' @ squote # p @ [squote]]"
  by (rule ticks_end) (auto simp: safe_no_tick squote_def)

lemma unquote_literal [simp]: "unquote ('' IDENTIFIED BY '' @ squote # p @ [squote]) = Some p"
proof -
  have "CutPrefix ('' IDENTIFIED BY '' @ squote # p @ [squote]) ('' IDENTIFIED BY '' @ [squote])
      = Some (p @ [squote])"
    by (simp add: CutPrefix_Some)
  then show ?thesis by (simp add: unquote_def)
qed

lemma grant_prefix_ne: "grant_prefix True \<noteq> grant_prefix False"
  by (simp add: grant_prefix_def privs_def)

lemma ticks_user:
  assumes "ident u" "h \<in> set hosts" "CHR ''`'' \<notin> set r" "CHR ''`'' \<notin> set a"
  shows "ticks (a @ CHR ''`'' # u @ ''`@`'' @ h @ CHR ''`'' # r) = [a, u, ''@'', h, r]"
  using assms by (simp add: ticks_append ticks_end ident_no_tick host_no_tick)

lemma ticks_create_user:
  "ident u \<Longrightarrow> h \<in> set hosts \<Longrightarrow> isSafePasswordLiteral p \<Longrightarrow>
     ticks (stmt_text (SCreateUser u h p))
     = [''CREATE USER IF NOT EXISTS '', u, ''@'', h, '' IDENTIFIED BY '' @ squote # p @ [squote]]"
  using ticks_user [of u h "'' IDENTIFIED BY '' @ squote # p @ [squote]" "''CREATE USER IF NOT EXISTS ''"]
  by (simp add: create_user_text_def safe_no_tick squote_def)

lemma ticks_alter_user:
  "ident u \<Longrightarrow> h \<in> set hosts \<Longrightarrow> isSafePasswordLiteral p \<Longrightarrow>
     ticks (stmt_text (SAlterUser u h p))
     = [''ALTER USER '', u, ''@'', h, '' IDENTIFIED BY '' @ squote # p @ [squote]]"
  using ticks_user [of u h "'' IDENTIFIED BY '' @ squote # p @ [squote]" "''ALTER USER ''"]
  by (simp add: alter_user_text_def safe_no_tick squote_def)

lemma ticks_drop_user:
  "ident u \<Longrightarrow> h \<in> set hosts \<Longrightarrow>
     ticks (stmt_text (SDropUser u h)) = [''DROP USER IF EXISTS '', u, ''@'', h, []]"
  using ticks_user [of u h "[]" "''DROP USER IF EXISTS ''"] by simp

lemma grant_prefix_no_tick: "CHR ''`'' \<notin> set (grant_prefix a)"
  by (cases a) (simp_all add: grant_prefix_def privs_def)

lemma ticks_grant:
  assumes "ident d" "ident u" "h \<in> set hosts"
  shows "ticks (stmt_text (SGrant a d u h)) = [grant_prefix a, d, ''.* TO '', u, ''@'', h, []]"
proof -
  have "stmt_text (SGrant a d u h) = grant_prefix a @ CHR ''`'' # d @ CHR ''`'' #
      ''.* TO '' @ CHR ''`'' # u @ ''`@`'' @ h @ ''`''"
    by (simp add: grant_prefix_def)
  moreover have "ticks (''.* TO '' @ CHR ''`'' # u @ ''`@`'' @ h @ ''`'') = [''.* TO '', u, ''@'', h, []]"
    using ticks_user [OF assms(2,3), of "[]" "''.* TO ''"] by simp
  ultimately show ?thesis
    by (simp only: ticks_append [OF grant_prefix_no_tick] ticks_append [OF ident_no_tick [OF assms(1)]])
qed

text \<open>The text of a statement the package sends has exactly one reading: the names and the
  password in it cannot end an identifier or a literal early.\<close>

lemma parse_stmt_text: "stmt_wf st \<Longrightarrow> parse_stmt (stmt_text st) = Some st"
proof (cases st)
  case (SCreateDatabase d)
  assume "stmt_wf st"
  with SCreateDatabase have "ticks (stmt_text st) = [''CREATE DATABASE IF NOT EXISTS '', d,
      '' CHARACTER SET utf8mb4 COLLATE utf8mb4_unicode_ci'']"
    by (simp add: ticks_append ident_no_tick)
  with SCreateDatabase show ?thesis by (simp add: parse_stmt_def del: stmt_text.simps)
next
  case (SDropDatabase d)
  assume "stmt_wf st"
  with SDropDatabase have "ticks (stmt_text st) = [''DROP DATABASE IF EXISTS '', d, []]"
    by (simp add: ticks_append ident_no_tick)
  with SDropDatabase show ?thesis by (simp add: parse_stmt_def del: stmt_text.simps)
next
  case (SCreateUser u h p)
  assume "stmt_wf st"
  with SCreateUser ticks_create_user [of u h p] show ?thesis
    by (simp add: parse_stmt_def del: stmt_text.simps append_Cons)
next
  case (SAlterUser u h p)
  assume "stmt_wf st"
  with SAlterUser ticks_alter_user [of u h p] show ?thesis
    by (simp add: parse_stmt_def del: stmt_text.simps append_Cons)
next
  case (SDropUser u h)
  assume "stmt_wf st"
  with SDropUser ticks_drop_user [of u h] show ?thesis
    by (simp add: parse_stmt_def del: stmt_text.simps)
next
  case (SGrant a d u h)
  assume "stmt_wf st"
  with SGrant ticks_grant [of d u h a] grant_prefix_ne show ?thesis
    by (cases a) (simp_all add: parse_stmt_def del: stmt_text.simps)
next
  case SFlush
  then show ?thesis by (simp add: parse_stmt_def)
qed

end
