(* ===== verification/MysqlServer.thy ===== *)
theory MysqlServer
  imports Mysqlx
begin

text \<open>
  The MySQL server behind \<open>internal/mysqlx\<close>. A catalog holds the databases, the accounts
  (a password for a user at a host) and the database-level grants; \<open>stmt_effect\<close> is the
  documented effect of each statement the package sends. The locale \<open>mysql_server\<close> is the
  contract of a server, and its lemmas say what each operation of the provisioner does to
  the catalog, on success and when a statement fails half-way. The reference server, which
  parses the text it is sent, satisfies the contract.
\<close>

section \<open>The catalog\<close>

text \<open>A grant is a privilege, a database-name pattern, a user and a host.\<close>

record catalog =
  databases :: "string set"
  accounts :: "string \<times> string \<Rightarrow> string option"
  grants :: "(string \<times> string \<times> string \<times> string) set"

text \<open>
  When the server executes a statement: a database name has at most 64 characters and a
  user name at most 32, \<open>ALTER USER\<close> and \<open>GRANT\<close> need an existing account (MySQL 8 no
  longer creates one on \<open>GRANT\<close>).
\<close>

fun stmt_enabled :: "my_stmt \<Rightarrow> catalog \<Rightarrow> bool" where
  "stmt_enabled (SCreateDatabase d) c \<longleftrightarrow> length d \<le> 64"
| "stmt_enabled (SDropDatabase d) c \<longleftrightarrow> True"
| "stmt_enabled (SCreateUser u h p) c \<longleftrightarrow> length u \<le> 32"
| "stmt_enabled (SAlterUser u h p) c \<longleftrightarrow> accounts c (u, h) \<noteq> None"
| "stmt_enabled (SDropUser u h) c \<longleftrightarrow> True"
| "stmt_enabled (SGrant a d u h) c \<longleftrightarrow> accounts c (u, h) \<noteq> None"
| "stmt_enabled SFlush c \<longleftrightarrow> True"

text \<open>
  \<open>CREATE USER IF NOT EXISTS\<close> leaves an existing account and its password alone,
  \<open>DROP USER\<close> removes the account's grants, \<open>DROP DATABASE\<close> removes none.
\<close>

fun stmt_effect :: "my_stmt \<Rightarrow> catalog \<Rightarrow> catalog" where
  "stmt_effect (SCreateDatabase d) c = c\<lparr>databases := insert d (databases c)\<rparr>"
| "stmt_effect (SDropDatabase d) c = c\<lparr>databases := databases c - {d}\<rparr>"
| "stmt_effect (SCreateUser u h p) c =
     (if accounts c (u, h) = None then c\<lparr>accounts := (accounts c)((u, h) \<mapsto> p)\<rparr> else c)"
| "stmt_effect (SAlterUser u h p) c = c\<lparr>accounts := (accounts c)((u, h) \<mapsto> p)\<rparr>"
| "stmt_effect (SDropUser u h) c =
     c\<lparr>accounts := (accounts c)((u, h) := None),
       grants := grants c - {g. snd (snd g) = (u, h)}\<rparr>"
| "stmt_effect (SGrant a d u h) c =
     c\<lparr>grants := grants c \<union> {g. fst g \<in> set (privs a) \<and> snd g = (d, u, h)}\<rparr>"
| "stmt_effect SFlush c = c"

definition effects :: "my_stmt list \<Rightarrow> catalog \<Rightarrow> catalog" where
  "effects sts c = fold stmt_effect sts c"

lemma effects_simps [simp]:
  "effects [] c = c" "effects (st # sts) c = effects sts (stmt_effect st c)"
  "effects (sts @ sts') c = effects sts' (effects sts c)"
  by (simp_all add: effects_def)

fun enabled_seq :: "my_stmt list \<Rightarrow> catalog \<Rightarrow> bool" where
  "enabled_seq [] c \<longleftrightarrow> True"
| "enabled_seq (st # sts) c \<longleftrightarrow> stmt_enabled st c \<and> enabled_seq sts (stmt_effect st c)"

lemma enabled_seq_append [simp]:
  "enabled_seq (sts @ sts') c \<longleftrightarrow> enabled_seq sts c \<and> enabled_seq sts' (effects sts c)"
  by (induction sts arbitrary: c) auto

text \<open>
  The database name of a \<open>GRANT\<close> is a pattern: an underscore stands for any character, a
  percent sign for any text, a backslash makes the next character literal.
\<close>

fun like :: "string \<Rightarrow> string \<Rightarrow> bool" where
  "like [] s = (s = [])"
| "like (p # ps) [] = (p = CHR ''%'' \<and> like ps [])"
| "like (p # ps) (c # s) =
     (if p = CHR ''%'' then like ps (c # s) \<or> like (p # ps) s
      else if p = CHR 0x5C \<and> ps \<noteq> [] then c = hd ps \<and> like (tl ps) s
      else (p = CHR ''_'' \<or> p = c) \<and> like ps s)"

text \<open>The account may use a database when a grant's pattern matches its name.\<close>

definition may_use :: "catalog \<Rightarrow> string \<times> string \<Rightarrow> string \<Rightarrow> bool" where
  "may_use c acc d \<longleftrightarrow> (\<exists>g \<in> grants c. snd (snd g) = acc \<and> like (fst (snd g)) d)"

section \<open>What stays out of reach\<close>

text \<open>The statements that name no other database than \<open>d\<close> and no other user than \<open>u\<close>.\<close>

fun stmt_on :: "string \<Rightarrow> string \<Rightarrow> my_stmt \<Rightarrow> bool" where
  "stmt_on d u (SCreateDatabase e) \<longleftrightarrow> e = d"
| "stmt_on d u (SDropDatabase e) \<longleftrightarrow> e = d"
| "stmt_on d u (SCreateUser v h p) \<longleftrightarrow> v = u"
| "stmt_on d u (SAlterUser v h p) \<longleftrightarrow> v = u"
| "stmt_on d u (SDropUser v h) \<longleftrightarrow> v = u"
| "stmt_on d u (SGrant a e v h) \<longleftrightarrow> e = d \<and> v = u"
| "stmt_on d u SFlush \<longleftrightarrow> True"

text \<open>The part of the catalog that belongs to others.\<close>

definition others :: "string \<Rightarrow> string \<Rightarrow> catalog \<Rightarrow> catalog" where
  "others d u c = \<lparr>databases = databases c - {d},
     accounts = (\<lambda>a. if fst a = u then None else accounts c a),
     grants = {g \<in> grants c. fst (snd (snd g)) \<noteq> u}\<rparr>"

lemma stmt_effect_others: "stmt_on d u st \<Longrightarrow> others d u (stmt_effect st c) = others d u c"
  by (cases st) (auto simp: others_def fun_eq_iff)

lemma effects_others: "list_all (stmt_on d u) sts \<Longrightarrow> others d u (effects sts c) = others d u c"
  by (induction sts arbitrary: c) (simp_all add: stmt_effect_others)

section \<open>The contract of a server\<close>

locale mysql_server =
  fixes run :: "'m run" and cat :: "'m \<Rightarrow> catalog"
  assumes stmt_ok: "stmt_wf st \<Longrightarrow> run (stmt_text st) m = (None, m') \<Longrightarrow>
      stmt_enabled st (cat m) \<and> cat m' = stmt_effect st (cat m)"
    and stmt_err: "stmt_wf st \<Longrightarrow> run (stmt_text st) m = (Some e, m') \<Longrightarrow>
      cat m' = cat m \<or> (stmt_enabled st (cat m) \<and> cat m' = stmt_effect st (cat m))"
begin

text \<open>
  \<open>progress sts m r m'\<close>: a call that sends the statements \<open>sts\<close> in order has executed some
  prefix of them, and all of them when it returns.
\<close>

definition progress :: "my_stmt list \<Rightarrow> 'm \<Rightarrow> unit outcome \<Rightarrow> 'm \<Rightarrow> bool" where
  "progress sts m r m' \<longleftrightarrow>
     (\<exists>k \<le> length sts. enabled_seq (take k sts) (cat m) \<and> cat m' = effects (take k sts) (cat m)
        \<and> (r = Ret () \<longrightarrow> k = length sts))"

lemma progress_ret:
  "progress sts m (Ret ()) m' \<Longrightarrow> enabled_seq sts (cat m) \<and> cat m' = effects sts (cat m)"
  by (auto simp: progress_def)

lemma progress_none: "r \<noteq> Ret () \<Longrightarrow> progress sts m r m"
  unfolding progress_def by (rule exI [of _ 0]) simp

lemma progress_Nil: "progress [] m r m"
  by (simp add: progress_def)

lemma progress_others:
  assumes "progress sts m r m'" and "list_all (stmt_on d u) sts"
  shows "others d u (cat m') = others d u (cat m)"
proof -
  from assms(1) obtain k where "cat m' = effects (take k sts) (cat m)"
    by (auto simp: progress_def)
  moreover from assms(2) have "list_all (stmt_on d u) (take k sts)"
    by (auto simp: list_all_iff dest: in_set_takeD)
  ultimately show ?thesis by (simp add: effects_others)
qed

lemma progress_Cons:
  assumes "stmt_enabled st (cat m)" and "cat m1 = stmt_effect st (cat m)" and "progress sts m1 r m'"
  shows "progress (st # sts) m r m'"
proof -
  from assms(3) obtain k where "k \<le> length sts" "enabled_seq (take k sts) (cat m1)"
    "cat m' = effects (take k sts) (cat m1)" "r = Ret () \<longrightarrow> k = length sts"
    by (auto simp: progress_def)
  with assms(1,2) show ?thesis
    unfolding progress_def by (intro exI [of _ "Suc k"]) simp
qed

lemma progress_append:
  assumes "progress sts m (Ret ()) m1" and "progress sts' m1 r m'"
  shows "progress (sts @ sts') m r m'"
proof -
  from progress_ret [OF assms(1)] have 1: "enabled_seq sts (cat m)" "cat m1 = effects sts (cat m)"
    by simp_all
  from assms(2) obtain k where "k \<le> length sts'" "enabled_seq (take k sts') (cat m1)"
    "cat m' = effects (take k sts') (cat m1)" "r = Ret () \<longrightarrow> k = length sts'"
    by (auto simp: progress_def)
  with 1 show ?thesis
    unfolding progress_def by (intro exI [of _ "length sts + k"]) simp
qed

lemma progress_fail_append:
  assumes "progress sts m r m1" and "r \<noteq> Ret ()"
  shows "progress (sts @ sts') m r m1"
proof -
  from assms obtain k where "k \<le> length sts" "enabled_seq (take k sts) (cat m)"
    "cat m1 = effects (take k sts) (cat m)"
    by (auto simp: progress_def)
  with assms(2) show ?thesis unfolding progress_def by (intro exI [of _ k]) simp
qed

lemma exec_one_progress:
  assumes "stmt_wf st" and "exec_one run w (stmt_text st) m = (r, m')"
  shows "progress [st] m r m'"
proof (cases "run (stmt_text st) m")
  case (Pair e m1)
  show ?thesis
  proof (cases e)
    case None
    with Pair assms(2) have r: "r = Ret ()" "m' = m1" by (simp_all add: exec_one_def)
    from stmt_ok [OF assms(1)] Pair None have "stmt_enabled st (cat m)" "cat m1 = stmt_effect st (cat m)"
      by simp_all
    then show ?thesis unfolding r by (rule progress_Cons) (rule progress_Nil)
  next
    case (Some x)
    with Pair assms(2) have r: "r \<noteq> Ret ()" "m' = m1" by (auto simp: exec_one_def)
    from stmt_err [OF assms(1)] Pair Some
    have "cat m1 = cat m \<or> stmt_enabled st (cat m) \<and> cat m1 = stmt_effect st (cat m)" by simp
    then show ?thesis
    proof
      assume "cat m1 = cat m"
      with r show ?thesis unfolding progress_def by (intro exI [of _ 0]) simp
    next
      assume "stmt_enabled st (cat m) \<and> cat m1 = stmt_effect st (cat m)"
      then show ?thesis unfolding r(2) by (intro progress_Cons [of _ _ m1] progress_Nil) simp_all
    qed
  qed
qed

lemma exec_hosts_progress:
  assumes "\<And>h. h \<in> set hs \<Longrightarrow> txt h = Ret (stmt_text (st h)) \<and> stmt_wf (st h)"
    and "exec_hosts run w txt hs m = (r, m')"
  shows "progress (map st hs) m r m'"
  using assms
proof (induction hs arbitrary: m)
  case Nil
  then show ?case by (auto simp: progress_Nil)
next
  case (Cons h hs)
  obtain r1 m1 where 1: "exec_one run (w @ ''@'' @ h) (stmt_text (st h)) m = (r1, m1)"
    by (metis surj_pair)
  have p1: "progress [st h] m r1 m1"
    using Cons.prems(1) [of h] 1 by (intro exec_one_progress) auto
  show ?case
  proof (cases "r1 = Ret ()")
    case True
    with Cons.prems 1 have "exec_hosts run w txt hs m1 = (r, m')" by simp
    with Cons.IH Cons.prems(1) have "progress (map st hs) m1 r m'" by simp
    with progress_append [OF p1 [unfolded True]] show ?thesis by simp
  next
    case False
    then have "r = r1" "m' = m1" using Cons.prems 1 by (auto split: outcome.splits)
    with progress_fail_append [OF p1 False, of "map st hs"] show ?thesis by simp
  qed
qed

end

text \<open>The statements each operation sends.\<close>

definition create_user_stmts :: "string \<Rightarrow> string \<Rightarrow> my_stmt list" where
  "create_user_stmts u p = map (\<lambda>h. SCreateUser u h p) hosts"

definition alter_user_stmts :: "string \<Rightarrow> string \<Rightarrow> my_stmt list" where
  "alter_user_stmts u p = map (\<lambda>h. SAlterUser u h p) hosts"

definition drop_user_stmts :: "string \<Rightarrow> my_stmt list" where
  "drop_user_stmts u = map (SDropUser u) hosts"

definition grant_stmts :: "bool \<Rightarrow> string \<Rightarrow> string \<Rightarrow> my_stmt list" where
  "grant_stmts a d u = map (SGrant a d u) hosts @ [SFlush]"

lemmas stmts_defs = create_user_stmts_def alter_user_stmts_def drop_user_stmts_def
  grant_stmts_def hosts_def

lemma stmts_on [simp]:
  "list_all (stmt_on d u) (create_user_stmts u p)" "list_all (stmt_on d u) (alter_user_stmts u p)"
  "list_all (stmt_on d u) (drop_user_stmts u)" "list_all (stmt_on d u) (grant_stmts a d u)"
  by (simp_all add: stmts_defs)

context mysql_server
begin

lemma EnsureDatabase_progress:
  assumes "EnsureDatabase run d m = (r, m')"
  shows "progress [SCreateDatabase d] m r m'"
proof (cases "assertIdentifier d")
  case None
  with assms show ?thesis by (intro exec_one_progress) (simp_all add: EnsureDatabase_def)
next
  case (Some e)
  with assms show ?thesis by (auto simp: EnsureDatabase_def intro: progress_none)
qed

lemma DropDatabase_progress:
  assumes "DropDatabase run d m = (r, m')"
  shows "progress [SDropDatabase d] m r m'"
proof (cases "assertIdentifier d")
  case None
  with assms show ?thesis by (intro exec_one_progress) (simp_all add: DropDatabase_def)
next
  case (Some e)
  with assms show ?thesis by (auto simp: DropDatabase_def intro: progress_none)
qed

text \<open>A password that is no safe literal makes the call panic before any statement is sent.\<close>

lemma exec_hosts_unsafe:
  "\<not> isSafePasswordLiteral p \<Longrightarrow>
     exec_hosts run w (\<lambda>h. with_literal (f h) p) hosts m
     = (Panic ''refusing to embed unsafe literal in SQL'', m)"
  by (simp add: hosts_def with_literal_def quoteMySQLString_def)

lemma with_literal_safe:
  "isSafePasswordLiteral p \<Longrightarrow> with_literal f p = Ret (f (squote # p @ [squote]))"
  by (simp add: with_literal_def quoteMySQLString_def)

lemma EnsureUser_progress:
  assumes "EnsureUser run u p m = (r, m')"
  shows "progress (create_user_stmts u p) m r m'"
proof (cases "ident u \<and> isSafePasswordLiteral p")
  case True
  then have "p \<noteq> []" by (auto simp: isSafePasswordLiteral_def)
  with True assms show ?thesis unfolding create_user_stmts_def
    by (intro exec_hosts_progress [where w = "''create user''"])
       (auto simp: EnsureUser_def with_literal_safe)
next
  case False
  with assms have "r \<noteq> Ret () \<and> m' = m"
    by (auto simp: EnsureUser_def exec_hosts_unsafe split: option.splits if_splits)
  then show ?thesis by (auto intro: progress_none)
qed

lemma SetUserPassword_progress:
  assumes "SetUserPassword run u p m = (r, m')"
  shows "progress (alter_user_stmts u p) m r m'"
proof (cases "ident u \<and> isSafePasswordLiteral p")
  case True
  then have "p \<noteq> []" by (auto simp: isSafePasswordLiteral_def)
  with True assms show ?thesis unfolding alter_user_stmts_def
    by (intro exec_hosts_progress [where w = "''alter user''"])
       (auto simp: SetUserPassword_def with_literal_safe)
next
  case False
  with assms have "r \<noteq> Ret () \<and> m' = m"
    by (auto simp: SetUserPassword_def exec_hosts_unsafe split: option.splits if_splits)
  then show ?thesis by (auto intro: progress_none)
qed

lemma DropUser_progress:
  assumes "DropUser run u m = (r, m')"
  shows "progress (drop_user_stmts u) m r m'"
proof (cases "assertIdentifier u")
  case None
  with assms show ?thesis unfolding drop_user_stmts_def
    by (intro exec_hosts_progress [where w = "''drop user''"]) (auto simp: DropUser_def)
next
  case (Some e)
  with assms show ?thesis by (auto simp: DropUser_def intro: progress_none)
qed

lemma Grant_progress:
  assumes "GrantProjectPrivileges run d u a m = (r, m')"
  shows "progress (grant_stmts a d u) m r m'"
proof (cases "ident d \<and> ident u")
  case True
  obtain r1 m1 where 1: "exec_hosts run ''grant'' (\<lambda>host. Ret (stmt_text (SGrant a d u host))) hosts m
      = (r1, m1)"
    by (metis surj_pair)
  have p1: "progress (map (SGrant a d u) hosts) m r1 m1"
    using True by (intro exec_hosts_progress [OF _ 1]) auto
  show ?thesis
  proof (cases "r1 = Ret ()")
    case True
    with assms 1 \<open>ident d \<and> ident u\<close>
    have "exec_one run ''flush privileges'' (stmt_text SFlush) m1 = (r, m')"
      by (simp add: GrantProjectPrivileges_def)
    then have "progress [SFlush] m1 r m'" by (intro exec_one_progress) simp_all
    with progress_append [OF p1 [unfolded True]] show ?thesis by (simp add: grant_stmts_def)
  next
    case False
    with assms 1 \<open>ident d \<and> ident u\<close> have "r = r1" "m' = m1"
      by (auto simp: GrantProjectPrivileges_def split: outcome.splits)
    with progress_fail_append [OF p1 False] show ?thesis by (simp add: grant_stmts_def)
  qed
next
  case False
  with assms have "r \<noteq> Ret () \<and> m' = m"
    by (auto simp: GrantProjectPrivileges_def split: option.splits)
  then show ?thesis by (auto intro: progress_none)
qed

lemmas provisioner_progress = EnsureDatabase_progress DropDatabase_progress EnsureUser_progress
  SetUserPassword_progress DropUser_progress Grant_progress

end

section \<open>A reference server\<close>

text \<open>It reads the text it is sent, and executes what the text says.\<close>

definition ref_run :: "catalog run" where
  "ref_run q c =
     (case parse_stmt q of
        None \<Rightarrow> (Some ''syntax error'', c)
      | Some st \<Rightarrow>
          (if stmt_enabled st c then (None, stmt_effect st c) else (Some ''refused'', c)))"

definition empty_catalog :: catalog where
  "empty_catalog = \<lparr>databases = {}, accounts = (\<lambda>_. None), grants = {}\<rparr>"

lemma ref_run_stmt:
  "stmt_wf st \<Longrightarrow> ref_run (stmt_text st) c =
     (if stmt_enabled st c then (None, stmt_effect st c) else (Some ''refused'', c))"
  by (simp add: ref_run_def parse_stmt_text)

interpretation reference_server: mysql_server ref_run "\<lambda>c. c"
  by unfold_locales (auto simp: ref_run_stmt split: if_splits)

text \<open>On the reference server a call succeeds when its statements are enabled in turn.\<close>

lemma ref_exec_one:
  "stmt_wf st \<Longrightarrow> stmt_enabled st c \<Longrightarrow> exec_one ref_run w (stmt_text st) c = (Ret (), stmt_effect st c)"
  by (simp add: exec_one_def ref_run_stmt)

lemma ref_exec_hosts:
  assumes "\<And>h. h \<in> set hs \<Longrightarrow> txt h = Ret (stmt_text (st h)) \<and> stmt_wf (st h)"
    and "enabled_seq (map st hs) c"
  shows "exec_hosts ref_run w txt hs c = (Ret (), effects (map st hs) c)"
  using assms
proof (induction hs arbitrary: c)
  case (Cons h hs)
  then show ?case by (simp add: ref_exec_one)
qed simp

lemma ref_EnsureDatabase:
  "ident d \<Longrightarrow> length d \<le> 64 \<Longrightarrow> EnsureDatabase ref_run d c = (Ret (), stmt_effect (SCreateDatabase d) c)"
  using ref_exec_one [of "SCreateDatabase d" c "''create database''"] by (simp add: EnsureDatabase_def)

lemma ref_DropDatabase:
  "ident d \<Longrightarrow> DropDatabase ref_run d c = (Ret (), stmt_effect (SDropDatabase d) c)"
  using ref_exec_one [of "SDropDatabase d" c "''drop database''"] by (simp add: DropDatabase_def)

lemma ref_EnsureUser:
  assumes "ident u" "isSafePasswordLiteral p" "enabled_seq (create_user_stmts u p) c"
  shows "EnsureUser ref_run u p c = (Ret (), effects (create_user_stmts u p) c)"
proof -
  have "p \<noteq> []" using assms(2) by (auto simp: isSafePasswordLiteral_def)
  moreover have "exec_hosts ref_run w (\<lambda>h. with_literal (create_user_text u h) p) hosts c
      = (Ret (), effects (map (\<lambda>h. SCreateUser u h p) hosts) c)" for w
    using assms by (intro ref_exec_hosts)
      (auto simp: reference_server.with_literal_safe create_user_stmts_def)
  ultimately show ?thesis using assms(1) by (simp add: EnsureUser_def create_user_stmts_def)
qed

lemma ref_SetUserPassword:
  assumes "ident u" "isSafePasswordLiteral p" "enabled_seq (alter_user_stmts u p) c"
  shows "SetUserPassword ref_run u p c = (Ret (), effects (alter_user_stmts u p) c)"
proof -
  have "p \<noteq> []" using assms(2) by (auto simp: isSafePasswordLiteral_def)
  moreover have "exec_hosts ref_run w (\<lambda>h. with_literal (alter_user_text u h) p) hosts c
      = (Ret (), effects (map (\<lambda>h. SAlterUser u h p) hosts) c)" for w
    using assms by (intro ref_exec_hosts)
      (auto simp: reference_server.with_literal_safe alter_user_stmts_def)
  ultimately show ?thesis using assms(1) by (simp add: SetUserPassword_def alter_user_stmts_def)
qed

lemma ref_DropUser:
  assumes "ident u"
  shows "DropUser ref_run u c = (Ret (), effects (drop_user_stmts u) c)"
proof -
  have "exec_hosts ref_run w (\<lambda>h. Ret (stmt_text (SDropUser u h))) hosts c
      = (Ret (), effects (map (SDropUser u) hosts) c)" for w
    using assms by (intro ref_exec_hosts) (auto simp: hosts_def)
  then show ?thesis using assms by (simp add: DropUser_def drop_user_stmts_def del: stmt_text.simps)
qed

lemma ref_Grant:
  assumes "ident d" "ident u" "enabled_seq (grant_stmts a d u) c"
  shows "GrantProjectPrivileges ref_run d u a c = (Ret (), effects (grant_stmts a d u) c)"
proof -
  have "exec_hosts ref_run w (\<lambda>h. Ret (stmt_text (SGrant a d u h))) hosts c
      = (Ret (), effects (map (SGrant a d u) hosts) c)" for w
    using assms by (intro ref_exec_hosts) (auto simp: grant_stmts_def)
  then show ?thesis
    using assms ref_exec_one [of SFlush] by (simp add: GrantProjectPrivileges_def grant_stmts_def del: stmt_text.simps)
qed

lemmas ref_provisioner = ref_EnsureDatabase ref_DropDatabase ref_EnsureUser ref_SetUserPassword
  ref_DropUser ref_Grant

section \<open>Only statements about the project are sent\<close>

text \<open>A server that also records the texts it is sent.\<close>

definition recording :: "'m run \<Rightarrow> (string list \<times> 'm) run" where
  "recording run q lm = (case run q (snd lm) of (r, m') \<Rightarrow> (r, (fst lm @ [q], m')))"

text \<open>Each text has exactly one reading, and it names no other database and no other user.\<close>

definition own_text :: "string \<Rightarrow> string \<Rightarrow> string \<Rightarrow> bool" where
  "own_text d u q \<longleftrightarrow>
     (case parse_stmt q of None \<Rightarrow> False | Some st \<Rightarrow> stmt_wf st \<and> stmt_on d u st \<and> stmt_text st = q)"

lemma own_text_stmt: "stmt_wf st \<Longrightarrow> stmt_on d u st \<Longrightarrow> own_text d u (stmt_text st)"
  by (simp add: own_text_def parse_stmt_text)

lemma exec_one_sent:
  "\<exists>m'. snd (exec_one (recording run) w q (l, m)) = (l @ [q], m')"
  by (auto simp: exec_one_def recording_def split: prod.splits option.splits)

lemma exec_one_own:
  assumes "own_text d u q" and "list_all (own_text d u) (fst lm)"
  shows "list_all (own_text d u) (fst (snd (exec_one (recording run) w q lm)))"
  using assms exec_one_sent [of run w q "fst lm" "snd lm"] by auto

lemma exec_hosts_own:
  assumes "\<And>h q. h \<in> set hs \<Longrightarrow> txt h = Ret q \<Longrightarrow> own_text d u q"
    and "list_all (own_text d u) (fst lm)"
  shows "list_all (own_text d u) (fst (snd (exec_hosts (recording run) w txt hs lm)))"
  using assms
proof (induction hs arbitrary: lm)
  case Nil
  then show ?case by simp
next
  case (Cons h hs)
  show ?case
  proof (cases "txt h")
    case (Ret q)
    obtain r lm' where 1: "exec_one (recording run) (w @ ''@'' @ h) q lm = (r, lm')"
      by (metis surj_pair)
    have "own_text d u q" by (rule Cons.prems(1) [of h]) (simp_all add: Ret)
    from exec_one_own [OF this Cons.prems(2), of run "w @ ''@'' @ h"] 1
    have "list_all (own_text d u) (fst lm')" by simp
    moreover have "own_text d u q'" if "h' \<in> set hs" "txt h' = Ret q'" for h' q'
      by (rule Cons.prems(1) [of h']) (simp_all add: that)
    ultimately have "list_all (own_text d u) (fst (snd (exec_hosts (recording run) w txt hs lm')))"
      by (rule Cons.IH [rotated])
    with Ret 1 \<open>list_all (own_text d u) (fst lm')\<close> show ?thesis
      by (simp split: outcome.splits)
  qed (use Cons.prems in simp_all)
qed

lemma with_literal_Ret: "with_literal f p = Ret q \<Longrightarrow> isSafePasswordLiteral p \<and> q = f (squote # p @ [squote])"
  by (auto simp: with_literal_def quoteMySQLString_def split: if_splits)

lemma literal_own:
  "ident u \<Longrightarrow> h \<in> set hosts \<Longrightarrow> with_literal (create_user_text u h) p = Ret q \<Longrightarrow> own_text d u q"
  "ident u \<Longrightarrow> h \<in> set hosts \<Longrightarrow> with_literal (alter_user_text u h) p = Ret q \<Longrightarrow> own_text d u q"
  using own_text_stmt [of "SCreateUser u h p" d u] own_text_stmt [of "SAlterUser u h p" d u]
  by (auto dest!: with_literal_Ret)

lemma grant_own:
  "ident d \<Longrightarrow> ident u \<Longrightarrow> h \<in> set hosts \<Longrightarrow> own_text d u (stmt_text (SGrant a d u h))"
  "own_text d u (stmt_text SFlush)"
  by (rule own_text_stmt; simp)+

lemma Grant_own:
  "list_all (own_text d u) (fst (snd (GrantProjectPrivileges (recording run) d u a ([], m))))"
proof (cases "ident d \<and> ident u")
  case True
  obtain r lm where 1: "exec_hosts (recording run) ''grant''
      (\<lambda>host. Ret (stmt_text (SGrant a d u host))) hosts ([], m) = (r, lm)"
    by (metis surj_pair)
  have "list_all (own_text d u) (fst (snd (exec_hosts (recording run) ''grant''
      (\<lambda>host. Ret (stmt_text (SGrant a d u host))) hosts ([], m))))"
    using True by (intro exec_hosts_own) (auto simp del: stmt_text.simps intro: grant_own)
  with 1 have l: "list_all (own_text d u) (fst lm)" by simp
  then show ?thesis
    using True 1 exec_one_own [OF grant_own(2) l, of run "''flush privileges''"]
    by (auto simp: GrantProjectPrivileges_def simp del: stmt_text.simps split: outcome.splits)
next
  case False
  then show ?thesis by (auto simp: GrantProjectPrivileges_def split: option.splits)
qed

text \<open>C12: whatever database name, user name and password an operation is given, every text it
  sends to MySQL has exactly one reading as a statement, and that statement names no other
  database and no other user: nothing can be injected through a name or a password.\<close>

theorem only_own_statements:
  "list_all (own_text d u) (fst (snd (EnsureDatabase (recording run) d ([], m))))
   \<and> list_all (own_text d u) (fst (snd (DropDatabase (recording run) d ([], m))))
   \<and> list_all (own_text d u) (fst (snd (EnsureUser (recording run) u p ([], m))))
   \<and> list_all (own_text d u) (fst (snd (SetUserPassword (recording run) u p ([], m))))
   \<and> list_all (own_text d u) (fst (snd (DropUser (recording run) u ([], m))))
   \<and> list_all (own_text d u) (fst (snd (GrantProjectPrivileges (recording run) d u a ([], m))))"
proof (intro conjI)
  show "list_all (own_text d u) (fst (snd (EnsureDatabase (recording run) d ([], m))))"
    using own_text_stmt [of "SCreateDatabase d" d u]
    by (auto simp: EnsureDatabase_def simp del: stmt_text.simps split: option.splits intro!: exec_one_own)
  show "list_all (own_text d u) (fst (snd (DropDatabase (recording run) d ([], m))))"
    using own_text_stmt [of "SDropDatabase d" d u]
    by (auto simp: DropDatabase_def simp del: stmt_text.simps split: option.splits intro!: exec_one_own)
  show "list_all (own_text d u) (fst (snd (EnsureUser (recording run) u p ([], m))))"
    by (auto simp: EnsureUser_def split: option.splits intro!: exec_hosts_own literal_own(1))
  show "list_all (own_text d u) (fst (snd (SetUserPassword (recording run) u p ([], m))))"
    by (auto simp: SetUserPassword_def split: option.splits intro!: exec_hosts_own literal_own(2))
  have "own_text d u (stmt_text (SDropUser u h))" if "ident u" "h \<in> set hosts" for h
    using that by (intro own_text_stmt) simp_all
  then show "list_all (own_text d u) (fst (snd (DropUser (recording run) u ([], m))))"
    by (auto simp: DropUser_def simp del: stmt_text.simps split: option.splits intro!: exec_hosts_own)
qed (rule Grant_own)

section \<open>Generated passwords\<close>

lemma password_char_safe: "password_char c \<Longrightarrow> safe_pw_char c"
proof -
  have "list_all safe_pw_char b64_alphabet" "list_all safe_pw_char specSet"
    by (simp_all add: b64_alphabet_def specSet_def safe_pw_char_def char_class_defs)
  then show "password_char c \<Longrightarrow> safe_pw_char c" by (auto simp: password_char_def list_all_iff)
qed

lemma generated_password_safe: "RandomPassword ent k = (Ret p, k') \<Longrightarrow> isSafePasswordLiteral p"
  using RandomPassword_shape [of ent k p k'] password_char_safe
  by (auto simp: isSafePasswordLiteral_def list_all_iff)

lemma exec_hosts_no_panic:
  assumes "\<And>h. h \<in> set hs \<Longrightarrow> \<exists>q. txt h = Ret q"
  shows "fst (exec_hosts run w txt hs m) \<noteq> Panic x"
  using assms
proof (induction hs arbitrary: m)
  case (Cons h hs)
  then obtain q where "txt h = Ret q" by auto
  with Cons show ?case
    by (auto simp: exec_one_def split: prod.splits option.splits outcome.splits)
qed simp

text \<open>A password that \<open>RandomPassword\<close> returned is always accepted as a literal, so the
  panic in \<open>quoteMySQLString\<close> is out of reach of both callers.\<close>

theorem generated_password_never_panics:
  assumes "RandomPassword ent k = (Ret p, k')"
  shows "fst (EnsureUser run u p m) \<noteq> Panic x \<and> fst (SetUserPassword run u p m) \<noteq> Panic x"
proof -
  note safe = generated_password_safe [OF assms]
  then have w: "\<exists>q. with_literal f p = Ret q" for f
    by (simp add: with_literal_def quoteMySQLString_def)
  note n = exec_hosts_no_panic [of hosts "\<lambda>h. with_literal (f h) p" for f, OF w]
  show ?thesis
    by (auto simp: EnsureUser_def SetUserPassword_def n split: option.splits)
qed

theorem generated_password_never_panics_witness:
  "\<exists>p. RandomPassword zero_entropy 0 = (Ret p, 2)
    \<and> fst (EnsureUser ref_run ''app_user'' p empty_catalog) \<noteq> Panic ''refusing''"
  using generated_password_never_panics [OF zero_password, of ref_run "''app_user''" empty_catalog "''refusing''"]
    zero_password by blast

section \<open>What a grant opens\<close>

lemma like_ident:
  "list_all ident_char p \<Longrightarrow> like p s \<longleftrightarrow> list_all2 (\<lambda>a b. a = CHR ''_'' \<or> a = b) p s"
proof (induction p s rule: like.induct)
  case (2 p ps)
  then show ?case by (auto simp: ident_char_def char_class_defs)
next
  case (3 p ps c s)
  then have "p \<noteq> CHR ''%''" "p \<noteq> CHR 0x5C" by (auto simp: ident_char_def char_class_defs)
  with 3 show ?case by auto
qed simp

lemma valid_identifiers:
  assumes "valid_name n"
  shows "ident (fst (ProjectIdentifiers n))" "ident (snd (ProjectIdentifiers n))"
  using identifier_chars [OF assms] by (auto simp: ident_iff list_all_iff ident_char_def)

definition separator :: "char \<Rightarrow> bool" where
  "separator c \<longleftrightarrow> c = CHR ''-'' \<or> c = CHR ''_''"

lemma list_all2_same_suffix:
  assumes "\<And>x. P x x"
  shows "list_all2 P (a @ s) (b @ s) \<longleftrightarrow> list_all2 P a b"
proof
  assume l: "list_all2 P (a @ s) (b @ s)"
  from list_all2_lengthD [OF l] have "length a = length b" by simp
  with l show "list_all2 P a b" by (simp add: list_all2_append)
next
  assume "list_all2 P a b"
  then show "list_all2 P (a @ s) (b @ s)"
    using assms by (intro list_all2_appendI) (simp_all add: list_all2_refl)
qed

lemma db_name: "fst (ProjectIdentifiers n) = hyphen_fold n @ ''_db''"
  by (simp add: ProjectIdentifiers_def hyphen_fold_def Let_def)

lemma db_like_iff:
  assumes "valid_name n"
  shows "like (fst (ProjectIdentifiers n)) (fst (ProjectIdentifiers k))
    \<longleftrightarrow> list_all2 (\<lambda>a b. a = CHR ''_'' \<or> a = b) (hyphen_fold n) (hyphen_fold k)"
proof -
  have "list_all ident_char (fst (ProjectIdentifiers n))"
    using valid_identifiers(1) [OF assms] by (simp add: ident_iff)
  from like_ident [OF this] show ?thesis
    unfolding db_name by (simp only: list_all2_same_suffix simp_thms)
qed

lemma list_all2_pointwise: "(\<And>x. x \<in> set xs \<Longrightarrow> P (f x) (g x)) \<Longrightarrow> list_all2 P (map f xs) (map g xs)"
  by (induction xs) auto

text \<open>Without a separator in its name a project's pattern is literal; with one, there is another
  valid name whose database the pattern matches.\<close>

lemma like_literal:
  assumes "\<not> list_ex separator n" and "list_all2 (\<lambda>a b. a = CHR ''_'' \<or> a = b) (hyphen_fold n) (hyphen_fold k)"
  shows "hyphen_fold k = hyphen_fold n"
proof -
  have "CHR ''_'' \<notin> set (hyphen_fold n)"
    using assms(1) by (auto simp: hyphen_fold_def ReplaceByte_def list_ex_iff separator_def)
  moreover have "list_all2 (\<lambda>a b. a = CHR ''_'' \<or> a = b) xs ys \<Longrightarrow> CHR ''_'' \<notin> set xs \<Longrightarrow> ys = xs" for xs ys
    by (induction rule: list_all2_induct) auto
  ultimately show ?thesis using assms(2) by blast
qed

definition neighbour :: "string \<Rightarrow> string" where
  "neighbour n = map (\<lambda>c. if separator c then CHR ''x'' else c) n"

lemma neighbour_valid:
  assumes "valid_name n"
  shows "valid_name (neighbour n)"
proof -
  have "hd (neighbour n) = hd n"
    using assms by (cases n) (auto simp: valid_name_iff neighbour_def separator_def)
  with assms show ?thesis
    by (auto simp: valid_name_iff neighbour_def list_all_iff name_char_def char_class_defs)
qed

lemma neighbour_like:
  "list_all2 (\<lambda>a b. a = CHR ''_'' \<or> a = b) (hyphen_fold n) (hyphen_fold (neighbour n))"
  unfolding hyphen_fold_def ReplaceByte_def neighbour_def map_map
  by (rule list_all2_pointwise) (auto simp: separator_def)

lemma neighbour_differs: "list_ex separator n \<Longrightarrow> hyphen_fold (neighbour n) \<noteq> hyphen_fold n"
  by (auto simp: hyphen_fold_def ReplaceByte_def neighbour_def list_ex_iff separator_def)

text \<open>C16: after a grant to a fresh account, the project's account can use the database of
  another valid project exactly when the project's own name has a hyphen or an underscore:
  those become underscores in the granted pattern, and an underscore is a wildcard there.\<close>

theorem isolated_iff_no_separator:
  assumes "mysql_server run cat" and "valid_name n"
    and "\<forall>g \<in> grants (cat m). fst (snd (snd g)) \<noteq> snd (ProjectIdentifiers n)"
    and "GrantProjectPrivileges run (fst (ProjectIdentifiers n)) (snd (ProjectIdentifiers n)) a m
      = (Ret (), m')"
    and "h \<in> set hosts"
  shows "(\<exists>k. valid_name k \<and> ProjectIdentifiers k \<noteq> ProjectIdentifiers n
       \<and> may_use (cat m') (snd (ProjectIdentifiers n), h) (fst (ProjectIdentifiers k)))
    \<longleftrightarrow> list_ex separator n"
proof -
  let ?d = "fst (ProjectIdentifiers n)" and ?u = "snd (ProjectIdentifiers n)"
  from mysql_server.Grant_progress [OF assms(1,4)]
  have "cat m' = effects (grant_stmts a ?d ?u) (cat m)"
    by (rule mysql_server.progress_ret [OF assms(1), THEN conjunct2])
  then have g: "grants (cat m') = grants (cat m)
      \<union> {g. fst g \<in> set (privs a) \<and> (\<exists>h \<in> set hosts. snd g = (?d, ?u, h))}"
    by (auto simp: stmts_defs)
  have p: "(''SELECT'', ?d, ?u, h) \<in> grants (cat m')"
    unfolding g using assms(5) by (simp add: privs_def Let_def)
  have u: "may_use (cat m') (?u, h) e \<longleftrightarrow> like ?d e" for e
  proof
    assume "may_use (cat m') (?u, h) e"
    then obtain x where x: "x \<in> grants (cat m')" "snd (snd x) = (?u, h)" "like (fst (snd x)) e"
      by (auto simp: may_use_def)
    from x(1,2) assms(3) have "fst (snd x) = ?d" unfolding g by auto
    with x(3) show "like ?d e" by simp
  next
    assume "like ?d e"
    with p show "may_use (cat m') (?u, h) e" unfolding may_use_def by (rule_tac bexI [OF _ p]) simp
  qed
  show ?thesis
  proof
    assume "list_ex separator n"
    then show "\<exists>k. valid_name k \<and> ProjectIdentifiers k \<noteq> ProjectIdentifiers n
        \<and> may_use (cat m') (?u, h) (fst (ProjectIdentifiers k))"
      using assms(2) neighbour_valid neighbour_differs neighbour_like
      by (intro exI [of _ "neighbour n"]) (simp add: u db_like_iff ProjectIdentifiers_eq_iff(1))
  next
    assume "\<exists>k. valid_name k \<and> ProjectIdentifiers k \<noteq> ProjectIdentifiers n
        \<and> may_use (cat m') (?u, h) (fst (ProjectIdentifiers k))"
    then obtain k where k: "hyphen_fold k \<noteq> hyphen_fold n"
      "list_all2 (\<lambda>a b. a = CHR ''_'' \<or> a = b) (hyphen_fold n) (hyphen_fold k)"
      using assms(2) by (auto simp: u db_like_iff ProjectIdentifiers_eq_iff(1))
    with like_literal [of n k] show "list_ex separator n" by blast
  qed
qed

definition user_catalog :: catalog where
  "user_catalog = effects (create_user_stmts ''a_b_user'' ''pw'') empty_catalog"

lemma user_catalog_grant:
  "\<exists>c. GrantProjectPrivileges ref_run ''a_b_db'' ''a_b_user'' False user_catalog = (Ret (), c)"
proof -
  have "enabled_seq (grant_stmts False ''a_b_db'' ''a_b_user'') user_catalog"
    by (simp add: user_catalog_def stmts_defs empty_catalog_def)
  then have "GrantProjectPrivileges ref_run ''a_b_db'' ''a_b_user'' False user_catalog
      = (Ret (), effects (grant_stmts False ''a_b_db'' ''a_b_user'') user_catalog)"
    by (intro ref_Grant) (simp_all add: ident_iff ident_char_def char_class_defs)
  then show ?thesis by blast
qed

theorem isolated_iff_no_separator_witness:
  "\<exists>c k. GrantProjectPrivileges ref_run ''a_b_db'' ''a_b_user'' False user_catalog = (Ret (), c)
    \<and> ProjectIdentifiers k \<noteq> (''a_b_db'', ''a_b_user'')
    \<and> may_use c (''a_b_user'', ''localhost'') (fst (ProjectIdentifiers k))"
proof -
  have n: "valid_name ''a_b''" by (simp add: valid_name_iff name_char_def char_class_defs)
  have i: "ProjectIdentifiers ''a_b'' = (''a_b_db'', ''a_b_user'')"
    by (simp add: ProjectIdentifiers_def ReplaceByte_def)
  obtain c where c: "GrantProjectPrivileges ref_run ''a_b_db'' ''a_b_user'' False user_catalog = (Ret (), c)"
    using user_catalog_grant by blast
  have "\<forall>g \<in> grants user_catalog. fst (snd (snd g)) \<noteq> snd (ProjectIdentifiers ''a_b'')"
    by (simp add: user_catalog_def stmts_defs empty_catalog_def)
  from isolated_iff_no_separator [OF reference_server.mysql_server_axioms n this, of False c "''localhost''"] c
  have "\<exists>k. valid_name k \<and> ProjectIdentifiers k \<noteq> ProjectIdentifiers ''a_b''
      \<and> may_use c (snd (ProjectIdentifiers ''a_b''), ''localhost'') (fst (ProjectIdentifiers k))"
    by (simp add: i hosts_def separator_def)
  with c show ?thesis unfolding i by auto
qed

end
