(* ===== verification/Secrets.thy ===== *)
theory Secrets
  imports Disk MysqlServer
begin

text \<open>
  \<open>internal/secrets/secrets.go\<close>: the env file of a project, written to a temporary file that
  is renamed into place. The lemmas follow the path of the file through every state of the
  disk, with a system call failing anywhere.
\<close>

record Secret =
  secName :: string
  secDatabase :: string
  secUser :: string
  secPassword :: string

definition Path :: "string \<Rightarrow> string \<Rightarrow> string" where
  "Path dir name = JoinPath [dir, name @ ''.env'']"

definition file_char :: "char \<Rightarrow> bool" where
  "file_char c \<longleftrightarrow> is_lower c \<or> is_upper c \<or> is_digit c \<or> c = CHR ''-'' \<or> c = CHR ''_'' \<or> c = CHR ''.''"

definition validateIdentifier :: "string \<Rightarrow> goerr option" where
  "validateIdentifier s =
     (if s = [] then Some (ErrText ''identifier is required'')
      else if length s > 64 then Some (ErrText ''identifier too long'')
      else if \<not> list_all file_char s then Some (ErrText (''invalid identifier '' @ Quote s))
      else None)"

definition newline :: char where
  "newline = CHR 0x0A"

definition database_url :: "Secret \<Rightarrow> string" where
  "database_url s = ''mysql://'' @ secUser s @ '':'' @ secPassword s @ ''@127.0.0.1:3306/'' @ secDatabase s"

definition renderEnv :: "Secret \<Rightarrow> string" where
  "renderEnv s =
     ''# Auto-generated by db-isolation. Do not edit by hand.'' @ [newline]
     @ ''# Permissions: 0600. Mode of access: server-local only.'' @ [newline]
     @ ''DATABASE_URL='' @ database_url s @ [newline]
     @ ''DB_HOST=127.0.0.1'' @ [newline]
     @ ''DB_PORT='' @ Itoa 3306 @ [newline]
     @ ''DB_NAME='' @ secDatabase s @ [newline]
     @ ''DB_USER='' @ secUser s @ [newline]
     @ ''DB_PASSWORD='' @ secPassword s @ [newline]"

section \<open>Writing\<close>

text \<open>The temporary file up to its \<open>Close\<close>; after an error the descriptor is closed too.\<close>

definition fill_temp :: "os \<Rightarrow> string \<Rightarrow> string \<Rightarrow> disk \<Rightarrow> string option \<times> disk" where
  "fill_temp os tmp body d =
     (case os_write os tmp body d of
        (Some e, d1) \<Rightarrow> (Some (''write temp: '' @ e), snd (os_quiet os d1))
      | (None, d1) \<Rightarrow>
          (case os_chmod os tmp m0600 d1 of
             (Some e, d2) \<Rightarrow> (Some (''chmod temp: '' @ e), snd (os_quiet os d2))
           | (None, d2) \<Rightarrow>
               (case os_quiet os d2 of
                  (Some e, d3) \<Rightarrow> (Some (''fsync temp: '' @ e), snd (os_quiet os d3))
                | (None, d3) \<Rightarrow>
                    (case os_quiet os d3 of
                       (Some e, d4) \<Rightarrow> (Some (''close temp: '' @ e), d4)
                     | (None, d4) \<Rightarrow> (None, d4)))))"

definition sync_dir :: "os \<Rightarrow> disk \<Rightarrow> disk" where
  "sync_dir os d =
     (case os_quiet os d of
        (Some _, d1) \<Rightarrow> d1
      | (None, d1) \<Rightarrow> snd (os_quiet os (snd (os_quiet os d1))))"

definition replace_file :: "os \<Rightarrow> string \<Rightarrow> string \<Rightarrow> string \<Rightarrow> disk \<Rightarrow> string outcome \<times> disk" where
  "replace_file os final tmp body d =
     (case fill_temp os tmp body d of
        (Some e, d1) \<Rightarrow> (Fail (ErrText e), d1)
      | (None, d1) \<Rightarrow>
          (case os_rename os tmp final d1 of
             (Some e, d2) \<Rightarrow> (Fail (ErrText (''rename: '' @ e)), d2)
           | (None, d2) \<Rightarrow> (Ret final, sync_dir os d2)))"

definition first_error :: "goerr option list \<Rightarrow> goerr option" where
  "first_error es = (case filter (\<lambda>e. e \<noteq> None) es of [] \<Rightarrow> None | e # _ \<Rightarrow> e)"

definition Writer_Write :: "os \<Rightarrow> string \<Rightarrow> Secret \<Rightarrow> disk \<Rightarrow> string outcome \<times> disk" where
  "Writer_Write os dir s d =
     (if secName s = [] \<or> secDatabase s = [] \<or> secUser s = [] \<or> secPassword s = []
      then (Fail (ErrText ''secret fields must all be set''), d)
      else case first_error [validateIdentifier (secName s), validateIdentifier (secDatabase s),
               validateIdentifier (secUser s)] of
        Some e \<Rightarrow> (Fail e, d)
      | None \<Rightarrow>
          (case os_create_temp os dir (''.'' @ secName s @ ''.'') ''.tmp'' d of
             (Inl e, d1) \<Rightarrow> (Fail (ErrText (''create temp: '' @ e)), d1)
           | (Inr tmp, d1) \<Rightarrow>
               (case replace_file os (Path dir (secName s)) tmp (renderEnv s) d1 of
                  (r, d2) \<Rightarrow> (r, snd (os_remove os tmp d2)))))"

definition Writer_Delete :: "os \<Rightarrow> string \<Rightarrow> string \<Rightarrow> disk \<Rightarrow> unit outcome \<times> disk" where
  "Writer_Delete os dir name d =
     (case validateIdentifier name of
        Some e \<Rightarrow> (Fail e, d)
      | None \<Rightarrow>
          (case os_remove os (Path dir name) d of
             (RemoveErr e, d') \<Rightarrow> (Fail (ErrText e), d')
           | (Removed, d') \<Rightarrow> (Ret (), d')
           | (NotExist, d') \<Rightarrow> (Ret (), d')))"

section \<open>Where the files are\<close>

lemma validateIdentifier_iff:
  "validateIdentifier s = None \<longleftrightarrow> s \<noteq> [] \<and> length s \<le> 64 \<and> list_all file_char s"
  by (auto simp: validateIdentifier_def)

lemma env_base: "slash \<notin> set n \<Longrightarrow> base_name (n @ ''.env'')"
  by (cases n) (auto simp: base_name_def)

lemma Path_inj: "slash \<notin> set a \<Longrightarrow> slash \<notin> set b \<Longrightarrow> Path dir a = Path dir b \<longleftrightarrow> a = b"
  by (simp add: Path_def JoinPath_inj env_base)

lemma Itoa_no_slash: "slash \<notin> set (Itoa r)"
proof (induction r rule: Itoa.induct)
  case (1 n)
  have "CHR ''/'' \<noteq> char_of (48 + k)" if "k < 10" for k :: nat
  proof
    assume "CHR ''/'' = char_of (48 + k)"
    then have "code (CHR ''/'') = code (char_of (48 + k) :: char)" by simp
    with that show False by simp
  qed
  with 1 show ?case by (subst Itoa.simps) auto
qed

lemma temp_not_env:
  assumes "slash \<notin> set n" and "slash \<notin> set k"
  shows "temp_path dir (''.'' @ n @ ''.'') ''.tmp'' r \<noteq> Path dir k"
proof -
  let ?t = "(''.'' @ n @ ''.'') @ Itoa r @ ''.tmp''"
  have "base_name ?t" using assms Itoa_no_slash by (cases n) (auto simp: base_name_def)
  moreover have "?t \<noteq> k @ ''.env''"
  proof
    assume "?t = k @ ''.env''"
    then have "last ?t = last (k @ ''.env'')" by simp
    then show False by simp
  qed
  ultimately show ?thesis
    using JoinPath_inj [OF _ env_base [OF assms(2)], of ?t dir] by (simp add: temp_path_def Path_def)
qed

lemma file_chars_no_slash: "validateIdentifier s = None \<Longrightarrow> slash \<notin> set s"
  by (auto simp: validateIdentifier_iff list_all_iff file_char_def char_class_defs)

section \<open>One file through every state\<close>

definition holds_in :: "string \<Rightarrow> fnode option set \<Rightarrow> disk \<Rightarrow> disk \<Rightarrow> bool" where
  "holds_in p V d d' \<longleftrightarrow>
     (\<exists>new. seen d' = new @ seen d \<and> (\<forall>f \<in> set (files d' # new). f p \<in> V))"

lemma holds_in_trans: "holds_in p V d d1 \<Longrightarrow> holds_in p V d1 d2 \<Longrightarrow> holds_in p V d d2"
proof -
  assume "holds_in p V d d1" "holds_in p V d1 d2"
  then obtain a b where "seen d1 = a @ seen d" "seen d2 = b @ seen d1"
    "\<forall>f \<in> set (files d1 # a). f p \<in> V" "\<forall>f \<in> set (files d2 # b). f p \<in> V"
    by (auto simp: holds_in_def)
  then show ?thesis unfolding holds_in_def by (intro exI [of _ "b @ a"]) auto
qed

lemma touches_holds: "touches P d d' \<Longrightarrow> p \<notin> P \<Longrightarrow> files d p \<in> V \<Longrightarrow> holds_in p V d d'"
  unfolding touches_def holds_in_def by fastforce

lemma sys_call_holds:
  "files (snd (sys_call os bad good d)) p \<in> V \<Longrightarrow> holds_in p V d (snd (sys_call os bad good d))"
  unfolding holds_in_def
  by (intro exI [of _ "[files (snd (sys_call os bad good d))]"])
     (auto simp: sys_call_def split: option.splits prod.splits)

lemma touches_steps:
  "touches P d x \<Longrightarrow> touches P d (snd (os_quiet os x))"
  "os_quiet os x = (r, y) \<Longrightarrow> touches P d x \<Longrightarrow> touches P d y"
  "os_write os p t x = (r, y) \<Longrightarrow> p \<in> P \<Longrightarrow> touches P d x \<Longrightarrow> touches P d y"
  "os_chmod os p m x = (r, y) \<Longrightarrow> p \<in> P \<Longrightarrow> touches P d x \<Longrightarrow> touches P d y"
  "os_rename os p q x = (r, y) \<Longrightarrow> p \<in> P \<Longrightarrow> q \<in> P \<Longrightarrow> touches P d x \<Longrightarrow> touches P d y"
  "p \<in> P \<Longrightarrow> touches P d x \<Longrightarrow> touches P d (snd (os_remove os p x))"
proof -
  note t = touches_trans
  show "touches P d x \<Longrightarrow> touches P d (snd (os_quiet os x))"
    by (rule t [OF _ os_quiet_touches])
  show "os_quiet os x = (r, y) \<Longrightarrow> touches P d x \<Longrightarrow> touches P d y"
    using t [OF _ os_quiet_touches, of P d x os] by simp
  show "os_write os p t x = (r, y) \<Longrightarrow> p \<in> P \<Longrightarrow> touches P d x \<Longrightarrow> touches P d y"
    using t [OF _ touches_mono [OF os_write_touches], of P d x p os t] by simp
  show "os_chmod os p m x = (r, y) \<Longrightarrow> p \<in> P \<Longrightarrow> touches P d x \<Longrightarrow> touches P d y"
    using t [OF _ touches_mono [OF os_chmod_touches], of P d x p os m] by simp
  show "os_rename os p q x = (r, y) \<Longrightarrow> p \<in> P \<Longrightarrow> q \<in> P \<Longrightarrow> touches P d x \<Longrightarrow> touches P d y"
    using t [OF _ touches_mono [OF os_rename_touches], of P d x p q os] by simp
  show "p \<in> P \<Longrightarrow> touches P d x \<Longrightarrow> touches P d (snd (os_remove os p x))"
    using t [OF _ touches_mono [OF os_remove_touches], of P d x p os] by simp
qed

lemma sync_dir_touches: "touches P d x \<Longrightarrow> touches P d (sync_dir os x)"
proof (cases "os_quiet os x")
  case (Pair r y)
  moreover assume "touches P d x"
  ultimately have "touches P d y" by (rule touches_steps(2))
  with Pair show ?thesis by (auto simp: sync_dir_def intro: touches_steps(1) split: option.splits)
qed

lemma fill_temp_touches: "touches {tmp} d (snd (fill_temp os tmp body d))"
proof -
  note i = touches_refl touches_steps(1)
  obtain r1 d1 where 1: "os_write os tmp body d = (r1, d1)" by (metis surj_pair)
  obtain r2 d2 where 2: "os_chmod os tmp m0600 d1 = (r2, d2)" by (metis surj_pair)
  obtain r3 d3 where 3: "os_quiet os d2 = (r3, d3)" by (metis surj_pair)
  obtain r4 d4 where 4: "os_quiet os d3 = (r4, d4)" by (metis surj_pair)
  have t1: "touches {tmp} d d1" by (rule touches_steps(3) [OF 1 _ touches_refl]) simp
  have t2: "touches {tmp} d d2" by (rule touches_steps(4) [OF 2 _ t1]) simp
  have t3: "touches {tmp} d d3" by (rule touches_steps(2) [OF 3 t2])
  have t4: "touches {tmp} d d4" by (rule touches_steps(2) [OF 4 t3])
  show ?thesis unfolding fill_temp_def 1
    by (auto simp: 2 3 4 t4 intro!: touches_steps(1) t1 t2 t3 split: option.splits)
qed

lemma sys_call_ok: "sys_call os bad good d = (None, d') \<Longrightarrow> files d' = good (files d)"
  by (auto simp: sys_call_def split: option.splits)

lemma fill_temp_ok:
  assumes "fill_temp os tmp body d = (None, d')" and "files d tmp = Some \<lparr>content = [], mode = m\<rparr>"
  shows "files d' tmp = Some \<lparr>content = body, mode = m0600\<rparr>"
proof -
  from assms(1) obtain d1 d2 d3 where s:
    "os_write os tmp body d = (None, d1)" "os_chmod os tmp m0600 d1 = (None, d2)"
    "os_quiet os d2 = (None, d3)" "os_quiet os d3 = (None, d')"
    by (auto simp: fill_temp_def split: prod.splits option.splits)
  have "files d1 = append_to tmp body (files d)" using s(1) unfolding os_write_def by (rule sys_call_ok)
  moreover have "files d2 = set_mode tmp m0600 (files d1)" using s(2) unfolding os_chmod_def by (rule sys_call_ok)
  moreover have "files d3 = files d2" using s(3) unfolding os_quiet_def by (rule sys_call_ok)
  moreover have "files d' = files d3" using s(4) unfolding os_quiet_def by (rule sys_call_ok)
  ultimately show ?thesis using assms(2) by (simp add: append_to_def set_mode_def)
qed

section \<open>The write is atomic\<close>

definition env_file :: "Secret \<Rightarrow> fnode" where
  "env_file s = \<lparr>content = renderEnv s, mode = m0600\<rparr>"

lemma replace_file_spec:
  assumes "replace_file os final tmp body d = (r, d')"
    and "files d tmp = Some \<lparr>content = [], mode = m\<rparr>" and "tmp \<noteq> final"
  shows "holds_in final {files d final, Some \<lparr>content = body, mode = m0600\<rparr>} d d'
    \<and> (r = Ret final \<and> files d' final = Some \<lparr>content = body, mode = m0600\<rparr>
       \<or> (\<exists>e. r = Fail e) \<and> files d' final = files d final)
    \<and> touches {tmp, final} d d'"
proof -
  let ?V = "{files d final, Some \<lparr>content = body, mode = m0600\<rparr>}"
  obtain e1 d1 where f: "fill_temp os tmp body d = (e1, d1)" by (metis surj_pair)
  have t1: "touches {tmp} d d1" using fill_temp_touches [of tmp d os body] f by simp
  have h1: "holds_in final ?V d d1" by (rule touches_holds [OF t1]) (use assms(3) in auto)
  have s1: "files d1 final = files d final" by (rule touches_files [OF t1]) (use assms(3) in auto)
  have m1: "touches {tmp, final} d d1" by (rule touches_mono [OF t1]) auto
  show ?thesis
  proof (cases e1)
    case (Some e)
    with assms(1) f have "r = Fail (ErrText e)" "d' = d1" by (simp_all add: replace_file_def)
    with h1 s1 m1 show ?thesis by simp
  next
    case None
    obtain e2 d2 where rn: "os_rename os tmp final d1 = (e2, d2)" by (metis surj_pair)
    have m2: "touches {tmp, final} d d2" by (rule touches_steps(5) [OF rn _ _ m1]) simp_all
    have new: "files d1 tmp = Some \<lparr>content = body, mode = m0600\<rparr>"
      using fill_temp_ok f assms(2) None by simp
    have v2: "files d2 final = (if e2 = None then Some \<lparr>content = body, mode = m0600\<rparr> else files d final)"
      using rn s1 new assms(3) by (auto simp: os_rename_def sys_call_def split: option.splits)
    then have h2: "holds_in final ?V d d2"
      using holds_in_trans [OF h1] sys_call_holds [of os "\<lambda>_ f. f" "\<lambda>f. (f(final := f tmp))(tmp := None)" d1 final ?V]
        rn by (auto simp: os_rename_def)
    show ?thesis
    proof (cases e2)
      case (Some e)
      with assms(1) f None rn have "r = Fail (ErrText (''rename: '' @ e))" "d' = d2"
        by (simp_all add: replace_file_def)
      with h2 v2 m2 Some show ?thesis by simp
    next
      case e2: None
      with assms(1) f None rn have r: "r = Ret final" "d' = sync_dir os d2"
        by (simp_all add: replace_file_def)
      have q: "touches {} d2 d'" unfolding r by (rule sync_dir_touches [OF touches_refl])
      have "holds_in final ?V d2 d'" by (rule touches_holds [OF q]) (simp_all add: v2 e2)
      moreover have "files d' final = files d2 final" by (rule touches_files [OF q]) simp
      moreover have "touches {tmp, final} d d'" by (rule touches_trans [OF m2 touches_mono [OF q]]) simp
      ultimately show ?thesis using h2 v2 e2 r holds_in_trans by fastforce
    qed
  qed
qed

lemma Writer_Write_cases:
  assumes "Writer_Write os dir s d = (r, d')"
  obtains (refused) e where "r = Fail e" "d' = d"
  | (no_temp) e where "r = Fail e" "touches {} d d'" "slash \<notin> set (secName s)"
  | (wrote) k d1 d2 tmp where
      "validateIdentifier (secName s) = None" "validateIdentifier (secUser s) = None"
      "validateIdentifier (secDatabase s) = None"
      "tmp = temp_path dir (''.'' @ secName s @ ''.'') ''.tmp'' k"
      "files d1 tmp = Some \<lparr>content = [], mode = m0600\<rparr>" "touches {tmp} d d1"
      "replace_file os (Path dir (secName s)) tmp (renderEnv s) d1 = (r, d2)"
      "d' = snd (os_remove os tmp d2)"
proof (cases "secName s = [] \<or> secDatabase s = [] \<or> secUser s = [] \<or> secPassword s = []
    \<or> validateIdentifier (secName s) \<noteq> None \<or> validateIdentifier (secDatabase s) \<noteq> None
    \<or> validateIdentifier (secUser s) \<noteq> None")
  case True
  then have "(\<exists>e. r = Fail e) \<and> d' = d"
    using assms by (auto simp: Writer_Write_def first_error_def split: if_splits)
  then show thesis using refused by blast
next
  case False
  obtain t d1 where c: "os_create_temp os dir (''.'' @ secName s @ ''.'') ''.tmp'' d = (t, d1)"
    by (metis surj_pair)
  note w = assms [unfolded Writer_Write_def] False
  show thesis
  proof (cases t)
    case (Inl e)
    with w c have "r = Fail (ErrText (''create temp: '' @ e))" "d' = d1"
      by (simp_all add: first_error_def)
    with os_create_temp_touches c Inl file_chars_no_slash False show thesis
      by (intro no_temp) auto
  next
    case (Inr tmp)
    obtain d2 where x: "replace_file os (Path dir (secName s)) tmp (renderEnv s) d1 = (r, d2)"
      "d' = snd (os_remove os tmp d2)"
      using w c Inr by (auto simp: first_error_def split: prod.splits)
    note i = os_create_temp_Inr [OF c [unfolded Inr]]
    from i(1) obtain k where "tmp = temp_path dir (''.'' @ secName s @ ''.'') ''.tmp'' k" by blast
    moreover have "files d1 tmp = Some \<lparr>content = [], mode = m0600\<rparr>" by (simp add: i(3))
    ultimately show thesis using wrote [of tmp] False i(4) x by blast
  qed
qed

lemma Writer_Write_final:
  assumes "Writer_Write os dir s d = (r, d')"
  shows "holds_in (Path dir (secName s)) {files d (Path dir (secName s)), Some (env_file s)} d d'
    \<and> (r = Ret (Path dir (secName s)) \<and> files d' (Path dir (secName s)) = Some (env_file s)
       \<or> (\<exists>e. r = Fail e) \<and> files d' (Path dir (secName s)) = files d (Path dir (secName s)))"
  using assms
proof (cases rule: Writer_Write_cases)
  case (refused e)
  then show ?thesis by (auto simp: holds_in_def)
next
  case (no_temp e)
  then show ?thesis
    using touches_holds [OF no_temp(2)] touches_files [OF no_temp(2)] by auto
next
  case (wrote k d1 d2 tmp)
  let ?p = "Path dir (secName s)"
  have ne: "tmp \<noteq> ?p" unfolding wrote(4) using file_chars_no_slash [OF wrote(1)] by (intro temp_not_env)
  have s1: "files d1 ?p = files d ?p" by (rule touches_files [OF wrote(6)]) (use ne in auto)
  let ?V = "{files d ?p, Some (env_file s)}"
  have h1: "holds_in ?p ?V d d1" by (rule touches_holds [OF wrote(6)]) (use ne in auto)
  from replace_file_spec [OF wrote(7,5) ne] s1
  have h2: "holds_in ?p ?V d1 d2" and v2: "r = Ret ?p \<and> files d2 ?p = Some (env_file s)
       \<or> (\<exists>e. r = Fail e) \<and> files d2 ?p = files d ?p"
    by (simp_all add: env_file_def)
  have t3: "touches {tmp} d2 d'" unfolding wrote(8) by (rule os_remove_touches)
  have "files d' ?p = files d2 ?p" by (rule touches_files [OF t3]) (use ne in auto)
  moreover have "holds_in ?p ?V d2 d'" by (rule touches_holds [OF t3]) (use ne v2 in auto)
  ultimately have "holds_in ?p ?V d d'" "files d' ?p = files d2 ?p"
    using holds_in_trans [OF holds_in_trans [OF h1 h2]] by simp_all
  with v2 show ?thesis by simp
qed

text \<open>C13: the env file of a project is replaced atomically. Wherever a system call fails, and
  at every state of the disk on the way, the file is either exactly as it was or complete,
  with the new content and mode 0600; a write that returns has put the new file there, a
  write that fails has changed nothing.\<close>

theorem secret_write_atomic:
  assumes "Writer_Write os dir s d = (r, d')"
  shows "(\<exists>new. seen d' = new @ seen d \<and> (\<forall>f \<in> set new.
      f (Path dir (secName s)) = files d (Path dir (secName s))
      \<or> f (Path dir (secName s)) = Some \<lparr>content = renderEnv s, mode = m0600\<rparr>))
    \<and> (r = Ret (Path dir (secName s))
         \<and> files d' (Path dir (secName s)) = Some \<lparr>content = renderEnv s, mode = m0600\<rparr>
       \<or> (\<exists>e. r = Fail e) \<and> files d' (Path dir (secName s)) = files d (Path dir (secName s)))"
  using Writer_Write_final [OF assms] by (auto simp: holds_in_def env_file_def)

definition demo_secret :: Secret where
  "demo_secret = \<lparr>secName = ''app'', secDatabase = ''app_db'', secUser = ''app_user'', secPassword = ''aA0!x''\<rparr>"

lemma demo_valid:
  "validateIdentifier ''app'' = None" "validateIdentifier ''app_db'' = None" "validateIdentifier ''app_user'' = None"
  by (simp_all add: validateIdentifier_iff file_char_def char_class_defs)

lemma no_fault_call:
  "sys_call no_fault b g x
     = (None, \<lparr>files = g (files x), calls = Suc (calls x), seen = g (files x) # seen x\<rparr>)"
  by (simp add: sys_call_def no_fault_def)

lemma no_fault_replace: "\<exists>d'. replace_file no_fault final tmp body d = (Ret final, d')"
  by (simp add: replace_file_def fill_temp_def os_write_def os_chmod_def os_quiet_def os_rename_def
      no_fault_call)

lemma pick_free_now: "0 < k \<Longrightarrow> \<not> taken (rnd i) \<Longrightarrow> pick_free k rnd i taken = Some (rnd i)"
  by (cases k) auto

lemma no_fault_temp:
  "(\<And>r. files d (temp_path dir a b r) = None) \<Longrightarrow> \<exists>p d'. os_create_temp no_fault dir a b d = (Inr p, d')"
  by (simp add: os_create_temp_def pick_free_now no_fault_call Let_def)

lemma no_fault_Write:
  assumes "validateIdentifier (secName s) = None" "validateIdentifier (secDatabase s) = None"
    "validateIdentifier (secUser s) = None" "secPassword s \<noteq> []"
    and "\<And>r. files d (temp_path dir (''.'' @ secName s @ ''.'') ''.tmp'' r) = None"
  shows "\<exists>d'. Writer_Write no_fault dir s d = (Ret (Path dir (secName s)), d')"
proof -
  obtain p d1 where 1: "os_create_temp no_fault dir (''.'' @ secName s @ ''.'') ''.tmp'' d = (Inr p, d1)"
    using no_fault_temp assms(5) by blast
  obtain d2 where 2: "replace_file no_fault (Path dir (secName s)) p (renderEnv s) d1
      = (Ret (Path dir (secName s)), d2)"
    using no_fault_replace by blast
  from assms(1-3) have "secName s \<noteq> []" "secDatabase s \<noteq> []" "secUser s \<noteq> []"
    by (auto simp: validateIdentifier_iff)
  with assms(1-4) 1 2 show ?thesis by (simp add: Writer_Write_def first_error_def)
qed

lemma demo_write: "\<exists>d. Writer_Write no_fault ''/s'' demo_secret empty_disk = (Ret (Path ''/s'' ''app''), d)"
  using no_fault_Write [of demo_secret empty_disk "''/s''"] demo_valid
  by (simp add: demo_secret_def empty_disk_def)

theorem secret_write_atomic_witness:
  "\<exists>d. Writer_Write no_fault ''/s'' demo_secret empty_disk = (Ret (Path ''/s'' ''app''), d)
    \<and> files d (Path ''/s'' ''app'') = Some \<lparr>content = renderEnv demo_secret, mode = m0600\<rparr>"
proof -
  obtain d where d: "Writer_Write no_fault ''/s'' demo_secret empty_disk = (Ret (Path ''/s'' ''app''), d)"
    using demo_write by blast
  from secret_write_atomic [OF d, THEN conjunct2]
  have "files d (Path ''/s'' ''app'') = Some \<lparr>content = renderEnv demo_secret, mode = m0600\<rparr>"
    by (auto simp: demo_secret_def)
  with d show ?thesis by blast
qed

section \<open>Projects do not touch each other's files\<close>

lemma Writer_Write_touches:
  assumes "Writer_Write os dir s d = (r, d')"
  obtains P where "touches P d d'"
    "P \<subseteq> insert (Path dir (secName s)) (range (temp_path dir (''.'' @ secName s @ ''.'') ''.tmp''))"
    "P = {} \<or> validateIdentifier (secName s) = None"
  using assms
proof (cases rule: Writer_Write_cases)
  case (refused e)
  then show ?thesis using that [of "{}"] touches_refl by auto
next
  case (no_temp e)
  then show ?thesis using that [of "{}"] by auto
next
  case (wrote k d1 d2 tmp)
  let ?P = "{tmp, Path dir (secName s)}"
  have ne: "tmp \<noteq> Path dir (secName s)"
    unfolding wrote(4) using file_chars_no_slash [OF wrote(1)] by (intro temp_not_env)
  have "touches ?P d1 d2" using replace_file_spec [OF wrote(7,5) ne] by blast
  then have "touches ?P d d2" by (rule touches_trans [OF touches_mono [OF wrote(6)], rotated]) simp
  then have "touches ?P d d'" unfolding wrote(8) by (intro touches_steps(6)) simp_all
  then show ?thesis using wrote(1,4) by (intro that [of ?P]) auto
qed

lemma Writer_Delete_touches: "touches {Path dir n} d (snd (Writer_Delete os dir n d))"
  using os_remove_touches [of "Path dir n" d os]
  by (auto simp: Writer_Delete_def touches_refl split: option.splits remove_result.splits prod.splits)

lemma Writer_Write_other:
  assumes "Writer_Write os dir s d = (r, d')" and "slash \<notin> set n" and "n \<noteq> secName s"
  shows "holds_in (Path dir n) {files d (Path dir n)} d d'"
  using assms(1)
proof (rule Writer_Write_touches)
  fix P assume P: "touches P d d'"
    "P \<subseteq> insert (Path dir (secName s)) (range (temp_path dir (''.'' @ secName s @ ''.'') ''.tmp''))"
    "P = {} \<or> validateIdentifier (secName s) = None"
  have "Path dir n \<notin> P"
  proof (cases "P = {}")
    case False
    with P(3) have "slash \<notin> set (secName s)" using file_chars_no_slash by blast
    with assms(2,3) have "Path dir n \<noteq> Path dir (secName s)"
      "temp_path dir (''.'' @ secName s @ ''.'') ''.tmp'' k \<noteq> Path dir n" for k
      using \<open>slash \<notin> set (secName s)\<close> by (simp add: Path_inj, intro temp_not_env)
    note ne = this
    show ?thesis
    proof
      assume "Path dir n \<in> P"
      with P(2) have "Path dir n = Path dir (secName s)
          \<or> (\<exists>k. Path dir n = temp_path dir (''.'' @ secName s @ ''.'') ''.tmp'' k)" by blast
      with ne(1) ne(2) [symmetric] show False by blast
    qed
  qed simp
  with P(1) show ?thesis by (rule touches_holds) simp
qed

lemma Writer_Delete_other:
  assumes "slash \<notin> set n" and "n \<noteq> k"
  shows "holds_in (Path dir n) {files d (Path dir n)} d (snd (Writer_Delete os dir k d))"
proof (cases "validateIdentifier k")
  case None
  with assms have "Path dir n \<noteq> Path dir k" by (simp add: Path_inj file_chars_no_slash)
  then show ?thesis by (intro touches_holds [OF Writer_Delete_touches]) auto
next
  case (Some e)
  then show ?thesis by (simp add: Writer_Delete_def holds_in_def)
qed

text \<open>Writing or deleting the env file of one project leaves the env file of every other
  project as it was, at every state of the disk on the way and wherever a call fails.\<close>

theorem secrets_do_not_interfere:
  assumes "slash \<notin> set n" and "n \<noteq> secName s" and "n \<noteq> k"
  shows "holds_in (Path dir n) {files d (Path dir n)} d (snd (Writer_Write os dir s d))
    \<and> holds_in (Path dir n) {files d (Path dir n)} d (snd (Writer_Delete os dir k d))"
  using assms Writer_Write_other [of os dir s d "fst (Writer_Write os dir s d)" "snd (Writer_Write os dir s d)" n] Writer_Delete_other
  by simp

theorem secrets_do_not_interfere_witness:
  "holds_in (Path ''/s'' ''web'') {None} empty_disk (snd (Writer_Write no_fault ''/s'' demo_secret empty_disk))"
  using secrets_do_not_interfere [of "''web''" demo_secret "''app''" "''/s''" empty_disk no_fault]
  by (simp add: demo_secret_def empty_disk_def)

section \<open>Reading the file back\<close>

text \<open>A reader of \<open>KEY=VALUE\<close> lines that skips comments.\<close>

fun env_find :: "string \<Rightarrow> string list \<Rightarrow> string option" where
  "env_find key [] = None"
| "env_find key (l # ls) =
     (if HasPrefix l ''#'' then env_find key ls
      else case Cut l (CHR ''='') of
        None \<Rightarrow> env_find key ls
      | Some (k, v) \<Rightarrow> (if k = key then Some v else env_find key ls))"

definition env_get :: "string \<Rightarrow> string \<Rightarrow> string option" where
  "env_get key text = env_find key (Split newline text)"

lemma Split_line: "newline \<notin> set a \<Longrightarrow> Split newline (a @ [newline] @ s) = a # Split newline s"
  by (simp add: Split_append)

lemma Cut_key: "CHR ''='' \<notin> set k \<Longrightarrow> Cut (k @ CHR ''='' # v) (CHR ''='') = Some (k, v)"
  by (simp add: Cut_Some)

lemma env_lines:
  assumes "newline \<notin> set (secDatabase s)" "newline \<notin> set (secUser s)" "newline \<notin> set (secPassword s)"
  shows "Split newline (renderEnv s) =
    [''# Auto-generated by db-isolation. Do not edit by hand.'',
     ''# Permissions: 0600. Mode of access: server-local only.'',
     ''DATABASE_URL='' @ database_url s, ''DB_HOST=127.0.0.1'', ''DB_PORT='' @ Itoa 3306,
     ''DB_NAME='' @ secDatabase s, ''DB_USER='' @ secUser s, ''DB_PASSWORD='' @ secPassword s, []]"
proof -
  have 3306: "Itoa 3306 = ''3306''" by (simp add: Itoa.simps char_of_def bit_Suc_0_iff)
  have n: "newline \<notin> set (''DATABASE_URL='' @ database_url s)"
    "newline \<notin> set (''DB_NAME='' @ secDatabase s)" "newline \<notin> set (''DB_USER='' @ secUser s)"
    "newline \<notin> set (''DB_PASSWORD='' @ secPassword s)"
    using assms by (simp_all add: database_url_def newline_def)
  have l: "Split newline (renderEnv s) = Split newline
    (''# Auto-generated by db-isolation. Do not edit by hand.'' @ [newline]
     @ ''# Permissions: 0600. Mode of access: server-local only.'' @ [newline]
     @ (''DATABASE_URL='' @ database_url s) @ [newline]
     @ ''DB_HOST=127.0.0.1'' @ [newline] @ (''DB_PORT='' @ Itoa 3306) @ [newline]
     @ (''DB_NAME='' @ secDatabase s) @ [newline]
     @ (''DB_USER='' @ secUser s) @ [newline] @ (''DB_PASSWORD='' @ secPassword s) @ [newline] @ [])"
    by (simp add: renderEnv_def)
  show ?thesis unfolding l
    by (subst Split_line, (rule n | simp add: newline_def 3306))+ simp
qed

text \<open>C37: a reader of the env file gets back exactly the database, the user and the password
  that were written, whatever special characters the password has.\<close>

theorem env_roundtrip:
  assumes "validateIdentifier (secDatabase s) = None" and "validateIdentifier (secUser s) = None"
    and "isSafePasswordLiteral (secPassword s)"
  shows "env_get ''DB_NAME'' (renderEnv s) = Some (secDatabase s)
    \<and> env_get ''DB_USER'' (renderEnv s) = Some (secUser s)
    \<and> env_get ''DB_PASSWORD'' (renderEnv s) = Some (secPassword s)
    \<and> env_get ''DATABASE_URL'' (renderEnv s) = Some (database_url s)"
proof -
  have n: "newline \<notin> set (secDatabase s)" "newline \<notin> set (secUser s)" "newline \<notin> set (secPassword s)"
    using assms
    by (auto simp: validateIdentifier_iff isSafePasswordLiteral_def list_all_iff file_char_def
        safe_pw_char_def char_class_defs newline_def split: if_splits)
  have c: "Cut (''DATABASE_URL='' @ v) (CHR ''='') = Some (''DATABASE_URL'', v)"
    "Cut (''DB_NAME='' @ v) (CHR ''='') = Some (''DB_NAME'', v)"
    "Cut (''DB_USER='' @ v) (CHR ''='') = Some (''DB_USER'', v)"
    "Cut (''DB_PASSWORD='' @ v) (CHR ''='') = Some (''DB_PASSWORD'', v)" for v
    by simp_all
  show ?thesis
    unfolding env_get_def env_lines [OF n] by (simp add: HasPrefix_def)
qed

theorem env_roundtrip_witness:
  "env_get ''DB_PASSWORD'' (renderEnv demo_secret) = Some ''aA0!x''"
proof -
  have "isSafePasswordLiteral ''aA0!x''"
    by (simp add: isSafePasswordLiteral_def safe_pw_char_def char_class_defs)
  with env_roundtrip [of demo_secret] demo_valid show ?thesis by (simp add: demo_secret_def)
qed

section \<open>What goes wrong\<close>

text \<open>The authority of a URL ends before the first slash, question mark or hash sign.\<close>

definition url_authority :: "string \<Rightarrow> string option" where
  "url_authority u =
     map_option (takeWhile (\<lambda>c. c \<notin> {CHR ''/'', CHR ''?'', CHR ''#''})) (CutPrefix u ''mysql://'')"

text \<open>The connection URL in the env file names the server only when the password has no
  hash sign: the password is put into the URL unescaped, and the special characters a
  generated password draws from include that sign.\<close>

theorem url_cut_at_hash:
  assumes "validateIdentifier (secUser s) = None" and "isSafePasswordLiteral (secPassword s)"
  shows "url_authority (database_url s) = Some (secUser s @ '':'' @ secPassword s @ ''@127.0.0.1:3306'')
    \<longleftrightarrow> CHR ''#'' \<notin> set (secPassword s)"
proof -
  let ?P = "\<lambda>c. c \<notin> {CHR ''/'', CHR ''?'', CHR ''#''}"
  have u: "\<forall>c \<in> set (secUser s). ?P c"
    using assms(1) by (auto simp: validateIdentifier_iff list_all_iff file_char_def char_class_defs)
  have w: "CHR ''/'' \<notin> set (secPassword s) \<and> CHR ''?'' \<notin> set (secPassword s)"
    using assms(2) by (auto simp: isSafePasswordLiteral_def list_all_iff safe_pw_char_def
        char_class_defs split: if_splits)
  have a: "url_authority (database_url s) = Some (secUser s @ '':'' @
      takeWhile ?P (secPassword s @ ''@127.0.0.1:3306/'' @ secDatabase s))"
    using u by (simp add: url_authority_def database_url_def CutPrefix_def HasPrefix_def takeWhile_append2)
  show ?thesis
  proof (cases "CHR ''#'' \<in> set (secPassword s)")
    case False
    with w have "\<forall>c \<in> set (secPassword s). ?P c" by auto
    then show ?thesis using False by (simp add: a takeWhile_append2)
  next
    case True
    then have "takeWhile ?P (secPassword s @ ''@127.0.0.1:3306/'' @ secDatabase s) = takeWhile ?P (secPassword s)"
      by (intro takeWhile_append1) auto
    moreover have "length (takeWhile ?P (secPassword s)) \<le> length (secPassword s)"
      by (rule length_takeWhile_le)
    ultimately have "length (takeWhile ?P (secPassword s @ ''@127.0.0.1:3306/'' @ secDatabase s))
        < length (secPassword s @ ''@127.0.0.1:3306'')" by simp
    then have "takeWhile ?P (secPassword s @ ''@127.0.0.1:3306/'' @ secDatabase s)
        \<noteq> secPassword s @ ''@127.0.0.1:3306''" by (rule contrapos_pn) simp
    with True show ?thesis unfolding a by simp
  qed
qed

theorem url_cut_at_hash_witness:
  "url_authority (database_url (demo_secret\<lparr>secPassword := ''aA0#x''\<rparr>))
    \<noteq> Some ''app_user:aA0#x@127.0.0.1:3306''"
proof -
  have "isSafePasswordLiteral ''aA0#x''"
    by (simp add: isSafePasswordLiteral_def safe_pw_char_def char_class_defs)
  with url_cut_at_hash [of "demo_secret\<lparr>secPassword := ''aA0#x''\<rparr>"] demo_valid
  show ?thesis by (simp add: demo_secret_def)
qed

text \<open>The name policy allows 63 characters, but no env file can be written for a name of
  60 characters or more, since the user name derived from it is longer than the 64 characters
  the secret writer accepts.\<close>

theorem long_names_have_no_secret:
  assumes "valid_name n" and "60 \<le> length n" and "p \<noteq> []"
  shows "\<exists>e. Writer_Write os dir \<lparr>secName = n, secDatabase = fst (ProjectIdentifiers n),
      secUser = snd (ProjectIdentifiers n), secPassword = p\<rparr> d = (Fail e, d)"
proof -
  have "validateIdentifier (snd (ProjectIdentifiers n)) \<noteq> None"
    using assms(2) by (simp add: validateIdentifier_iff)
  then show ?thesis by (auto simp: Writer_Write_def first_error_def)
qed

theorem long_names_have_no_secret_witness:
  "\<exists>e. Writer_Write no_fault ''/s'' \<lparr>secName = replicate 63 (CHR ''a''),
      secDatabase = fst (ProjectIdentifiers (replicate 63 (CHR ''a''))),
      secUser = snd (ProjectIdentifiers (replicate 63 (CHR ''a''))), secPassword = ''x''\<rparr> empty_disk
    = (Fail e, empty_disk)"
proof (rule long_names_have_no_secret)
  have "list_all name_char (replicate k (CHR ''a''))" for k
    by (simp add: list_all_iff name_char_def char_class_defs)
  then show "valid_name (replicate 63 (CHR ''a''))"
    by (simp add: valid_name_iff char_class_defs)
qed simp_all

end
