(* ===== verification/World.thy ===== *)
theory World
  imports Store Secrets
begin

text \<open>
  What the service acts on. An \<open>env\<close> holds what does not change while the server runs: the
  SQLite engine, the MySQL server, the operating system, the clock and the random source,
  all parameters, and the settings of the service. A \<open>world\<close> holds what does: the state of
  the metadata database, of MySQL and of the disk, the audit file, the log (warnings, access lines, errors), and how often
  the clock and the random source have been read. \<open>only_project\<close> says that a call left everything
  alone that does not belong to one project, and holds of every step the service takes.
\<close>

record ('q, 'm) env =
  e_sql :: "'q sqlite"
  e_run :: "'m run"
  e_os :: os
  e_dir :: string
  e_time :: "nat \<Rightarrow> gotime"
  e_entropy :: entropy
  e_allowDrop :: bool
  e_toFile :: bool
  e_logger :: bool

record ('q, 'm) world =
  w_sql :: 'q
  w_my :: 'm
  w_disk :: disk
  w_ticks :: nat
  w_draws :: nat
  w_audit :: string
  w_warnings :: "(string \<times> string \<times> string \<times> string) list"
  w_access :: "(string \<times> string \<times> nat \<times> string) list"
  w_errors :: "(string \<times> string) list"

section \<open>Calls on a part of the world\<close>

text \<open>A call on the store reads the clock once.\<close>

definition sql_call ::
    "('q, 'm) env \<Rightarrow> (gotime \<Rightarrow> 'q \<Rightarrow> 'a outcome \<times> 'q) \<Rightarrow> ('q, 'm) world \<Rightarrow> 'a outcome \<times> ('q, 'm) world" where
  "sql_call E f w =
     (case f (e_time E (w_ticks w)) (w_sql w) of
        (r, q) \<Rightarrow> (r, w\<lparr>w_sql := q, w_ticks := Suc (w_ticks w)\<rparr>))"

definition my_call :: "('m \<Rightarrow> 'a outcome \<times> 'm) \<Rightarrow> ('q, 'm) world \<Rightarrow> 'a outcome \<times> ('q, 'm) world" where
  "my_call f w = (case f (w_my w) of (r, m) \<Rightarrow> (r, w\<lparr>w_my := m\<rparr>))"

definition disk_call :: "(disk \<Rightarrow> 'a outcome \<times> disk) \<Rightarrow> ('q, 'm) world \<Rightarrow> 'a outcome \<times> ('q, 'm) world" where
  "disk_call f w = (case f (w_disk w) of (r, d) \<Rightarrow> (r, w\<lparr>w_disk := d\<rparr>))"

definition draw_call ::
    "('q, 'm) env \<Rightarrow> (entropy \<Rightarrow> nat \<Rightarrow> 'a outcome \<times> nat) \<Rightarrow> ('q, 'm) world \<Rightarrow> 'a outcome \<times> ('q, 'm) world" where
  "draw_call E f w = (case f (e_entropy E) (w_draws w) of (r, k) \<Rightarrow> (r, w\<lparr>w_draws := k\<rparr>))"

text \<open>A call whose error is handled: \<open>if x, err := call; err != nil { h } ; k\<close>. A panic is
  handed on.\<close>

fun on_call ::
    "'a outcome \<times> 'w \<Rightarrow> (goerr \<Rightarrow> 'w \<Rightarrow> 'b outcome \<times> 'w) \<Rightarrow> ('a \<Rightarrow> 'w \<Rightarrow> 'b outcome \<times> 'w) \<Rightarrow> 'b outcome \<times> 'w" where
  "on_call (Ret x, w) h k = k x w"
| "on_call (Fail e, w) h k = h e w"
| "on_call (Panic p, w) h k = (Panic p, w)"

lemma on_call_Ret:
  "on_call c h k = (Ret y, w') \<Longrightarrow> (\<And>e w. fst (h e w) \<noteq> Ret y) \<Longrightarrow>
     \<exists>x w. c = (Ret x, w) \<and> k x w = (Ret y, w')"
  by (cases c; cases "fst c") (auto, (metis fst_conv)+)

lemma on_call_induct:
  assumes "P (snd c)"
    and "\<And>e w. c = (Fail e, w) \<Longrightarrow> P w \<Longrightarrow> P (snd (h e w))"
    and "\<And>x w. c = (Ret x, w) \<Longrightarrow> P w \<Longrightarrow> P (snd (k x w))"
  shows "P (snd (on_call c h k))"
  using assms by (cases c; cases "fst c") auto

section \<open>The contract of the world\<close>

locale service =
  fixes E :: "('q, 'm) env" and view :: "'q \<Rightarrow> tables" and cat :: "'m \<Rightarrow> catalog"
  assumes sql: "sqlite_engine (e_sql E) view" and my: "mysql_server (e_run E) cat"

sublocale service \<subseteq> db: sqlite_engine "e_sql E" view
  by (rule sql)

sublocale service \<subseteq> my: mysql_server "e_run E" cat
  by (rule my)

definition reference_env :: "(tables, catalog) env" where
  "reference_env = \<lparr>e_sql = table_engine, e_run = ref_run, e_os = no_fault, e_dir = ''/s'',
     e_time = (\<lambda>n. zeroTime\<lparr>nsec := n\<rparr>), e_entropy = zero_entropy, e_allowDrop = False,
     e_toFile = True, e_logger = True\<rparr>"

definition fresh_world :: "(tables, catalog) world" where
  "fresh_world = \<lparr>w_sql = empty_tables, w_my = empty_catalog, w_disk = empty_disk, w_ticks = 1,
     w_draws = 0, w_audit = [], w_warnings = [], w_access = [], w_errors = []\<rparr>"

interpretation reference_service: service reference_env "\<lambda>t. t" "\<lambda>c. c"
  by (rule service.intro)
     (simp_all add: reference_env_def reference_sql.sqlite_engine_axioms
        reference_server.mysql_server_axioms)

section \<open>What belongs to other projects\<close>

definition db_of :: "string \<Rightarrow> string" where
  "db_of n = fst (ProjectIdentifiers n)"

definition user_of :: "string \<Rightarrow> string" where
  "user_of n = snd (ProjectIdentifiers n)"

text \<open>Every row of the table is what \<open>Create\<close> writes: a valid name with its identifiers.\<close>

definition rows_ok :: "tables \<Rightarrow> bool" where
  "rows_ok t \<longleftrightarrow> (\<forall>r \<in> set (projects t). valid_name (p_name r)
     \<and> p_database r = db_of (p_name r) \<and> p_user r = user_of (p_name r))"

text \<open>
  Between \<open>w\<close> and \<open>w'\<close> only the project \<open>n\<close> was touched: every other row, the tokens, the
  databases, accounts and grants of others, and, at every state of the disk on the way, the
  env files of the others are as they were.
\<close>

definition only_project ::
    "('q, 'm) env \<Rightarrow> ('q \<Rightarrow> tables) \<Rightarrow> ('m \<Rightarrow> catalog) \<Rightarrow> string
      \<Rightarrow> ('q, 'm) world \<Rightarrow> ('q, 'm) world \<Rightarrow> bool" where
  "only_project E view cat n w w' \<longleftrightarrow>
     (\<forall>k. k \<noteq> n \<longrightarrow> project_map (view (w_sql w')) k = project_map (view (w_sql w)) k)
   \<and> tokens (view (w_sql w')) = tokens (view (w_sql w))
   \<and> others (db_of n) (user_of n) (cat (w_my w')) = others (db_of n) (user_of n) (cat (w_my w))
   \<and> (\<forall>k. k \<noteq> n \<and> slash \<notin> set k \<longrightarrow>
        holds_in (Path (e_dir E) k) {files (w_disk w) (Path (e_dir E) k)} (w_disk w) (w_disk w'))
   \<and> (rows_ok (view (w_sql w)) \<longrightarrow> rows_ok (view (w_sql w')))"

context service
begin

abbreviation projs :: "('q, 'm) world \<Rightarrow> string \<Rightarrow> DatabaseProject option" where
  "projs w \<equiv> project_map (view (w_sql w))"

abbreviation frame :: "string \<Rightarrow> ('q, 'm) world \<Rightarrow> ('q, 'm) world \<Rightarrow> bool" where
  "frame \<equiv> only_project E view cat"

lemmas frame_def = only_project_def

lemma holds_in_refl: "holds_in p {files d p} d d"
  by (simp add: holds_in_def)

lemma holds_in_step:
  "holds_in p {files d p} d d1 \<Longrightarrow> holds_in p {files d1 p} d1 d2 \<Longrightarrow> holds_in p {files d p} d d2"
proof -
  assume h: "holds_in p {files d p} d d1" "holds_in p {files d1 p} d1 d2"
  then have "files d1 p = files d p" by (auto simp: holds_in_def)
  with h show ?thesis using holds_in_trans by metis
qed

lemma frame_refl: "frame n w w"
  by (simp add: frame_def holds_in_refl)

lemma frame_trans: "frame n w w1 \<Longrightarrow> frame n w1 w2 \<Longrightarrow> frame n w w2"
  unfolding frame_def using holds_in_step by (intro conjI) metis+

end

text \<open>The statements on the metadata a service call makes for the project \<open>n\<close>.\<close>

fun own_cmd :: "string \<Rightarrow> sql_cmd \<Rightarrow> bool" where
  "own_cmd n (InsertProject m e d u sp st le c up) \<longleftrightarrow>
     m = n \<and> valid_name n \<and> d = db_of n \<and> u = user_of n"
| "own_cmd n (UpdateStatus st le up m) \<longleftrightarrow> m = n"
| "own_cmd n (DeleteProjectRow m) \<longleftrightarrow> m = n"
| "own_cmd n (InsertAudit ac rs rn su ms ip c) \<longleftrightarrow> True"
| "own_cmd n _ \<longleftrightarrow> False"

lemma own_cmd_effect:
  assumes "own_cmd n c" and "constraint_ok c t"
  shows "k \<noteq> n \<longrightarrow> project_map (cmd_effect c t) k = project_map t k"
    and "tokens (cmd_effect c t) = tokens t"
    and "rows_ok t \<longrightarrow> rows_ok (cmd_effect c t)"
proof -
  show "k \<noteq> n \<longrightarrow> project_map (cmd_effect c t) k = project_map t k"
  proof (cases c)
    case (InsertProject m e d u sp st le cr up)
    with assms have m: "m = n" "constraint_ok (InsertProject m e d u sp st le cr up) t" by simp_all
    show ?thesis unfolding InsertProject project_map_insert [OF m(2)] by (simp add: m(1))
  next
    case (UpdateStatus st le up m)
    with assms show ?thesis by (simp only: project_map_status) simp
  next
    case (DeleteProjectRow m)
    with assms show ?thesis by (simp only: project_map_delete) simp
  next
    case (InsertAudit ac rs rn su ms ip cr)
    then show ?thesis by (simp only: project_map_other_cmds simp_thms)
  qed (use assms in simp_all)
  show "tokens (cmd_effect c t) = tokens t" using assms by (cases c) simp_all
  show "rows_ok t \<longrightarrow> rows_ok (cmd_effect c t)"
    using assms by (cases c) (auto simp: rows_ok_def)
qed

context service
begin

lemma frame_sql:
  assumes "own_cmd n c" and "q = snd (sq_exec (e_sql E) c (w_sql w))"
  shows "frame n w (w\<lparr>w_sql := q\<rparr>)"
proof (rule db.exec_cases [of c "w_sql w"])
  fix q' assume "sq_exec (e_sql E) c (w_sql w) = (None, q')" "view q' = cmd_effect c (view (w_sql w))"
    "constraint_ok c (view (w_sql w))"
  with assms own_cmd_effect [OF assms(1)] show ?thesis by (simp add: frame_def holds_in_refl)
next
  fix e q' assume "sq_exec (e_sql E) c (w_sql w) = (Some e, q')" "view q' = view (w_sql w)"
  with assms show ?thesis by (simp add: frame_def holds_in_refl)
qed

lemma frame_my:
  assumes "my.progress sts (w_my w) r m" and "list_all (stmt_on (db_of n) (user_of n)) sts"
  shows "frame n w (w\<lparr>w_my := m\<rparr>)"
  using my.progress_others [OF assms] by (simp add: frame_def holds_in_refl)

lemma frame_disk:
  assumes "\<And>k. k \<noteq> n \<Longrightarrow> slash \<notin> set k \<Longrightarrow>
    holds_in (Path (e_dir E) k) {files (w_disk w) (Path (e_dir E) k)} (w_disk w) d"
  shows "frame n w (w\<lparr>w_disk := d\<rparr>)"
  using assms by (simp add: frame_def)

lemma frame_rest [simp]:
  "frame n w (w'\<lparr>w_ticks := a\<rparr>) = frame n w w'" "frame n w (w'\<lparr>w_draws := b\<rparr>) = frame n w w'"
  "frame n w (w'\<lparr>w_audit := c\<rparr>) = frame n w w'" "frame n w (w'\<lparr>w_warnings := x\<rparr>) = frame n w w'"
  "frame n w (w'\<lparr>w_access := y\<rparr>) = frame n w w'" "frame n w (w'\<lparr>w_errors := z\<rparr>) = frame n w w'"
  by (simp_all add: frame_def)

text \<open>The calls of the service.\<close>

lemma frame_CreateProject:
  assumes "valid_name n" "Name p = n" "DatabaseName p = db_of n" "DatabaseUser p = user_of n"
    and "sql_call E (\<lambda>t. CreateProject (e_sql E) t p) w = (r, w')"
  shows "frame n w w'"
proof -
  obtain q where "w' = w\<lparr>w_sql := q, w_ticks := Suc (w_ticks w)\<rparr>"
    "q = snd (CreateProject (e_sql E) (e_time E (w_ticks w)) p (w_sql w))"
    using assms(5) by (auto simp: sql_call_def split: prod.splits)
  then show ?thesis using assms(1-4) by (auto simp: store_op_state intro!: frame_sql)
qed

lemma frame_UpdateProjectStatus:
  assumes "sql_call E (\<lambda>t. UpdateProjectStatus (e_sql E) t n st le) w = (r, w')"
  shows "frame n w w'"
proof -
  obtain q where "w' = w\<lparr>w_sql := q, w_ticks := Suc (w_ticks w)\<rparr>"
    "q = snd (UpdateProjectStatus (e_sql E) (e_time E (w_ticks w)) n st le (w_sql w))"
    using assms by (auto simp: sql_call_def split: prod.splits)
  then show ?thesis by (auto simp: store_op_state intro!: frame_sql)
qed

lemma frame_DeleteProject:
  assumes "sql_call E (\<lambda>t. DeleteProject (e_sql E) n) w = (r, w')"
  shows "frame n w w'"
proof -
  obtain q where "w' = w\<lparr>w_sql := q, w_ticks := Suc (w_ticks w)\<rparr>"
    "q = snd (DeleteProject (e_sql E) n (w_sql w))"
    using assms by (auto simp: sql_call_def split: prod.splits)
  then show ?thesis by (auto simp: store_op_state intro!: frame_sql)
qed

lemma frame_my_call:
  assumes "my_call f w = (r, w')" and "my.progress sts (w_my w) (fst (f (w_my w))) (snd (f (w_my w)))"
    and "list_all (stmt_on (db_of n) (user_of n)) sts"
  shows "frame n w w'"
  using frame_my [OF assms(2,3)] assms(1) by (auto simp: my_call_def split: prod.splits)

lemma frame_provisioner:
  "my_call (EnsureDatabase (e_run E) (db_of n)) w = (r, w') \<Longrightarrow> frame n w w'"
  "my_call (DropDatabase (e_run E) (db_of n)) w = (r, w') \<Longrightarrow> frame n w w'"
  "my_call (EnsureUser (e_run E) (user_of n) p) w = (r, w') \<Longrightarrow> frame n w w'"
  "my_call (SetUserPassword (e_run E) (user_of n) p) w = (r, w') \<Longrightarrow> frame n w w'"
  "my_call (DropUser (e_run E) (user_of n)) w = (r, w') \<Longrightarrow> frame n w w'"
  "my_call (GrantProjectPrivileges (e_run E) (db_of n) (user_of n) a) w = (r, w') \<Longrightarrow> frame n w w'"
  by (erule frame_my_call, rule my.provisioner_progress [OF prod.collapse [symmetric]], simp)+

lemma frame_Writer:
  assumes "secName s = n" and "disk_call (Writer_Write (e_os E) (e_dir E) s) w = (r, w')"
  shows "frame n w w'"
proof -
  obtain d where "w' = w\<lparr>w_disk := d\<rparr>" "Writer_Write (e_os E) (e_dir E) s (w_disk w) = (r, d)"
    using assms(2) by (auto simp: disk_call_def split: prod.splits)
  with assms(1) show ?thesis by (auto intro!: frame_disk Writer_Write_other)
qed

lemma frame_Writer_Delete:
  assumes "disk_call (Writer_Delete (e_os E) (e_dir E) n) w = (r, w')"
  shows "frame n w w'"
proof -
  obtain d where "w' = w\<lparr>w_disk := d\<rparr>" "d = snd (Writer_Delete (e_os E) (e_dir E) n (w_disk w))"
    using assms by (auto simp: disk_call_def split: prod.splits)
  then show ?thesis by (auto intro!: frame_disk Writer_Delete_other)
qed

lemma frame_draw: "draw_call E f w = (r, w') \<Longrightarrow> frame n w w'"
  by (auto simp: draw_call_def frame_refl split: prod.splits)

lemmas frame_calls = frame_CreateProject frame_UpdateProjectStatus frame_DeleteProject
  frame_provisioner frame_Writer frame_Writer_Delete frame_draw

end

end
