(* ===== verification/Json.thy ===== *)
theory Json
  imports Utf8 "HOL-Library.Char_ord" "HOL-Library.List_Lexorder"
begin

text \<open>
  What the sources use of package \<open>encoding/json\<close>: values, \<open>Marshal\<close>, the reader of one value
  from the front of a text (\<open>Decoder.Decode\<close>, \<open>Unmarshal\<close>), the matching of keys to struct
  fields, and \<open>Indent\<close>. The lemmas say that what \<open>Marshal\<close> writes is read back.
\<close>

datatype json =
    JNull
  | JBool bool
  | JNum string
  | JStr string
  | JArr "json list"
  | JObj "(string \<times> json) list"

section \<open>Writing\<close>

definition u_escape :: "nat \<Rightarrow> string" where
  "u_escape r = [CHR 0x5C, CHR ''u'', hex_digit (r div 4096 mod 16), hex_digit (r div 256 mod 16),
     hex_digit (r div 16 mod 16), hex_digit (r mod 16)]"

definition escape_ascii :: "char \<Rightarrow> string" where
  "escape_ascii c =
     (if c = CHR 0x22 \<or> c = CHR 0x5C then [CHR 0x5C, c]
      else if c = CHR 0x08 then [CHR 0x5C, CHR ''b'']
      else if c = CHR 0x0C then [CHR 0x5C, CHR ''f'']
      else if c = CHR 0x0A then [CHR 0x5C, CHR ''n'']
      else if c = CHR 0x0D then [CHR 0x5C, CHR ''r'']
      else if c = CHR 0x09 then [CHR 0x5C, CHR ''t'']
      else if code c < 0x20 \<or> c = CHR ''<'' \<or> c = CHR ''>'' \<or> c = CHR ''&'' then u_escape (code c)
      else [c])"

function escape_string :: "string \<Rightarrow> string" where
  "escape_string [] = []"
| "escape_string (c # s) =
     (let rw = DecodeRune (c # s) in
      (if fst rw < 0x80 then escape_ascii c
       else if fst rw = RuneError \<and> snd rw = 1 then u_escape RuneError
       else if fst rw = 0x2028 \<or> fst rw = 0x2029 then u_escape (fst rw)
       else take (snd rw) (c # s)) @ escape_string (drop (snd rw) (c # s)))"
  by pat_completeness auto
termination
proof (relation "measure length")
  fix c :: char and s :: string and rw
  assume "rw = DecodeRune (c # s)"
  then show "(drop (snd rw) (c # s), c # s) \<in> measure length"
    using DecodeRune_width [of "c # s"] by simp
qed simp

declare escape_string.simps(2) [simp del]

definition json_string :: "string \<Rightarrow> string" where
  "json_string s = [CHR 0x22] @ escape_string s @ [CHR 0x22]"

fun Marshal :: "json \<Rightarrow> string" where
  "Marshal JNull = ''null''"
| "Marshal (JBool b) = (if b then ''true'' else ''false'')"
| "Marshal (JNum n) = n"
| "Marshal (JStr s) = json_string s"
| "Marshal (JArr xs) = ''['' @ Join (map Marshal xs) '','' @ '']''"
| "Marshal (JObj kvs) = ''{'' @ Join (map (\<lambda>(k, v). json_string k @ '':'' @ Marshal v) kvs) '','' @ ''}''"

section \<open>Reading\<close>

definition json_space :: "char \<Rightarrow> bool" where
  "json_space c \<longleftrightarrow> c = CHR '' '' \<or> c = CHR 0x09 \<or> c = CHR 0x0D \<or> c = CHR 0x0A"

definition skip :: "string \<Rightarrow> string" where
  "skip s = dropWhile json_space s"

definition hex_value :: "char \<Rightarrow> nat option" where
  "hex_value c =
     (if is_digit c then Some (code c - 48)
      else if in_range (CHR ''a'') (CHR ''f'') c then Some (code c - 87)
      else if in_range (CHR ''A'') (CHR ''F'') c then Some (code c - 55)
      else None)"

fun hex4 :: "string \<Rightarrow> nat option" where
  "hex4 (a # b # c # d # s) =
     (case (hex_value a, hex_value b, hex_value c, hex_value d) of
        (Some w, Some x, Some y, Some z) \<Rightarrow> Some (w * 4096 + x * 256 + y * 16 + z)
      | _ \<Rightarrow> None)"
| "hex4 _ = None"

text \<open>\<open>getu4\<close>: the unit of an escape \<open>\uXXXX\<close> at the front.\<close>

definition getu4 :: "string \<Rightarrow> nat option" where
  "getu4 s = (if HasPrefix s [CHR 0x5C, CHR ''u''] then hex4 (drop 2 s) else None)"

text \<open>The rune of a unit escape in front of \<open>s\<close>, and how many bytes of \<open>s\<close> it takes with it.\<close>

definition unit_rune :: "nat \<Rightarrow> string \<Rightarrow> nat \<times> nat" where
  "unit_rune u s =
     (if u < 0xD800 \<or> 0xDFFF < u then (u, 0)
      else case getu4 s of
        Some v \<Rightarrow>
          (if u < 0xDC00 \<and> 0xDC00 \<le> v \<and> v \<le> 0xDFFF
           then (0x10000 + (u - 0xD800) * 1024 + (v - 0xDC00), 6) else (RuneError, 0))
      | None \<Rightarrow> (RuneError, 0))"

definition simple_escape :: "char \<Rightarrow> char option" where
  "simple_escape c =
     map_of [(CHR 0x22, CHR 0x22), (CHR 0x5C, CHR 0x5C), (CHR ''/'', CHR ''/''), (CHR ''b'', CHR 0x08),
       (CHR ''f'', CHR 0x0C), (CHR ''n'', CHR 0x0A), (CHR ''r'', CHR 0x0D), (CHR ''t'', CHR 0x09)] c"

text \<open>The rest of a string literal: its value and the text behind the closing quote.\<close>

function read_string :: "string \<Rightarrow> (string \<times> string) option" where
  "read_string [] = None"
| "read_string (c # s) =
     (if c = CHR 0x22 then Some ([], s)
      else if code c < 0x20 then None
      else if c = CHR 0x5C then
        (case s of
           [] \<Rightarrow> None
         | e # r \<Rightarrow>
             (if e = CHR ''u'' then
                (case hex4 r of
                   None \<Rightarrow> None
                 | Some u \<Rightarrow>
                     map_option (\<lambda>(v, t). (EncodeRune (fst (unit_rune u (drop 4 r))) @ v, t))
                       (read_string (drop (4 + snd (unit_rune u (drop 4 r))) r)))
              else case simple_escape e of
                None \<Rightarrow> None
              | Some x \<Rightarrow> map_option (\<lambda>(v, t). (x # v, t)) (read_string r)))
      else if code c < 0x80 then map_option (\<lambda>(v, t). (c # v, t)) (read_string s)
      else map_option (\<lambda>(v, t). (EncodeRune (fst (DecodeRune (c # s))) @ v, t))
        (read_string (drop (snd (DecodeRune (c # s))) (c # s))))"
  by pat_completeness auto
termination
proof (relation "measure length", goal_cases)
  case (5 c s)
  then show ?case using DecodeRune_width [of "c # s"] by simp
qed auto

declare read_string.simps(2) [simp del]

text \<open>A number, by the grammar of JSON; its text is kept.\<close>

definition digits :: "string \<Rightarrow> (string \<times> string) option" where
  "digits s = (if takeWhile is_digit s = [] then None else Some (takeWhile is_digit s, dropWhile is_digit s))"

definition read_int :: "string \<Rightarrow> (string \<times> string) option" where
  "read_int s = (if HasPrefix s ''0'' then Some (''0'', tl s) else digits s)"

definition read_frac :: "string \<Rightarrow> (string \<times> string) option" where
  "read_frac s =
     (if HasPrefix s ''.'' then map_option (\<lambda>(d, t). (CHR ''.'' # d, t)) (digits (tl s)) else Some ([], s))"

definition read_exp :: "string \<Rightarrow> (string \<times> string) option" where
  "read_exp s =
     (case s of
        c # r \<Rightarrow>
          (if c = CHR ''e'' \<or> c = CHR ''E'' then
             (case r of
                d # r' \<Rightarrow>
                  (if d = CHR ''+'' \<or> d = CHR ''-'' then map_option (\<lambda>(n, t). (c # d # n, t)) (digits r')
                   else map_option (\<lambda>(n, t). (c # n, t)) (digits r))
              | [] \<Rightarrow> None)
           else Some ([], s))
      | [] \<Rightarrow> Some ([], s))"

definition read_number :: "string \<Rightarrow> (string \<times> string) option" where
  "read_number s =
     (let sign = (if HasPrefix s ''-'' then ''-'' else []) in
      case read_int (drop (length sign) s) of
        None \<Rightarrow> None
      | Some (i, s1) \<Rightarrow>
          (case read_frac s1 of
             None \<Rightarrow> None
           | Some (f, s2) \<Rightarrow>
               map_option (\<lambda>(e, s3). (sign @ i @ f @ e, s3)) (read_exp s2)))"

text \<open>
  A value with at most \<open>d\<close> levels of nesting, then what follows the first element of an array
  and the first member of an object. The first argument bounds the number of calls.
\<close>

fun read_value :: "nat \<Rightarrow> nat \<Rightarrow> string \<Rightarrow> (json \<times> string) option"
  and read_array :: "nat \<Rightarrow> nat \<Rightarrow> string \<Rightarrow> (json list \<times> string) option"
  and read_object :: "nat \<Rightarrow> nat \<Rightarrow> string \<Rightarrow> ((string \<times> json) list \<times> string) option" where
  "read_value 0 d s = None"
| "read_value (Suc n) d s =
     (case skip s of
        [] \<Rightarrow> None
      | c # r \<Rightarrow>
          (if c = CHR 0x22 then map_option (\<lambda>(v, t). (JStr v, t)) (read_string r)
           else if c = CHR ''['' then
             (if d = 0 then None
              else if HasPrefix (skip r) '']'' then Some (JArr [], tl (skip r))
              else map_option (\<lambda>(vs, t). (JArr vs, t)) (read_array n (d - 1) r))
           else if c = CHR ''{'' then
             (if d = 0 then None
              else if HasPrefix (skip r) ''}'' then Some (JObj [], tl (skip r))
              else map_option (\<lambda>(vs, t). (JObj vs, t)) (read_object n (d - 1) r))
           else if HasPrefix (c # r) ''null'' then Some (JNull, drop 3 r)
           else if HasPrefix (c # r) ''true'' then Some (JBool True, drop 3 r)
           else if HasPrefix (c # r) ''false'' then Some (JBool False, drop 4 r)
           else map_option (\<lambda>(v, t). (JNum v, t)) (read_number (c # r))))"
| "read_array 0 d s = None"
| "read_array (Suc n) d s =
     (case read_value n d s of
        None \<Rightarrow> None
      | Some (v, t) \<Rightarrow>
          (case skip t of
             [] \<Rightarrow> None
           | c # r \<Rightarrow>
               (if c = CHR '']'' then Some ([v], r)
                else if c = CHR '','' then map_option (\<lambda>(vs, u). (v # vs, u)) (read_array n d r)
                else None)))"
| "read_object 0 d s = None"
| "read_object (Suc n) d s =
     (case skip s of
        [] \<Rightarrow> None
      | q # s1 \<Rightarrow>
          (if q \<noteq> CHR 0x22 then None
           else case read_string s1 of
             None \<Rightarrow> None
           | Some (k, s2) \<Rightarrow>
               (if \<not> HasPrefix (skip s2) '':'' then None
                else case read_value n d (tl (skip s2)) of
                  None \<Rightarrow> None
                | Some (v, t) \<Rightarrow>
                    (case skip t of
                       [] \<Rightarrow> None
                     | c # r \<Rightarrow>
                         (if c = CHR ''}'' then Some ([(k, v)], r)
                          else if c = CHR '','' then map_option (\<lambda>(vs, u). ((k, v) # vs, u)) (read_object n d r)
                          else None)))))"

definition max_depth :: nat where "max_depth = 10000"

text \<open>Every call but the first has consumed a byte since its caller began, or is the first call of
  an array or object: twice the length of the text is enough.\<close>

definition DecodeValue :: "string \<Rightarrow> (json \<times> string) option" where
  "DecodeValue s = read_value (2 * length s + 2) max_depth s"

definition Unmarshal :: "string \<Rightarrow> json option" where
  "Unmarshal s =
     (case DecodeValue s of
        Some (v, rest) \<Rightarrow> if skip rest = [] then Some v else None
      | None \<Rightarrow> None)"

section \<open>Consumption and fuel\<close>

lemma length_skip: "length (skip s) \<le> length s"
  by (simp add: skip_def length_dropWhile_le)

lemma skip_Cons: "skip s = c # r \<Longrightarrow> length r < length s"
  using length_skip [of s] by simp

lemma read_string_length: "read_string s = Some (v, t) \<Longrightarrow> length t < length s"
proof (induction s arbitrary: v t rule: read_string.induct)
  case (2 c s)
  show ?case
  proof (cases "c = CHR 0x22 \<or> code c < 0x20")
    case True
    then show ?thesis using 2(5) by (auto simp: read_string.simps(2) split: if_splits)
  next
    case no: False
    show ?thesis
    proof (cases "c = CHR 0x5C")
      case True
      then show ?thesis using 2(1,2,5) no
        by (fastforce simp: read_string.simps(2) split: list.splits if_splits option.splits)
    next
      case False
      have w: "0 < snd (DecodeRune (c # s))" by (rule DecodeRune_width)
      show ?thesis using 2(3,4,5) no False w
        by (fastforce simp: read_string.simps(2) split: if_splits)
    qed
  qed
qed simp

lemma digits_length: "digits s = Some (v, t) \<Longrightarrow> length t < length s"
proof -
  assume "digits s = Some (v, t)"
  then have "takeWhile is_digit s \<noteq> []" "t = dropWhile is_digit s" by (auto simp: digits_def split: if_splits)
  moreover have "length s = length (takeWhile is_digit s) + length (dropWhile is_digit s)"
    by (metis length_append takeWhile_dropWhile_id)
  ultimately show ?thesis by simp
qed

lemma read_number_length: "read_number s = Some (v, t) \<Longrightarrow> length t < length s"
proof -
  assume n: "read_number s = Some (v, t)"
  define s0 where "s0 = drop (length (if HasPrefix s ''-'' then ''-'' else [])) s"
  from n obtain i s1 f s2 e where r: "read_int s0 = Some (i, s1)" "read_frac s1 = Some (f, s2)" "read_exp s2 = Some (e, t)"
    unfolding read_number_def s0_def Let_def by (auto split: option.splits)
  have "length s1 < length s0" using r(1) digits_length [of s0 i s1]
    by (cases s0) (auto simp: read_int_def HasPrefix_def split: if_splits)
  moreover have "length s2 \<le> length s1" using r(2) digits_length [of "tl s1"]
    by (auto simp: read_frac_def split: if_splits)
  moreover have "length t \<le> length s2" using r(3)
    by (auto simp: read_exp_def split: list.splits if_splits dest!: digits_length)
  moreover have "length s0 \<le> length s" by (simp add: s0_def)
  ultimately show ?thesis by simp
qed

lemma HasPrefix_tl: "HasPrefix s [c] \<Longrightarrow> length (tl s) < length s"
  by (cases s) (auto simp: HasPrefix_def)

text \<open>What is read is consumed, at least one byte of it.\<close>

lemma read_length:
  "read_value n d s = Some (v, t) \<Longrightarrow> length t < length s"
  "read_array n d s = Some (vs, t) \<Longrightarrow> length t < length s"
  "read_object n d s = Some (ms, t) \<Longrightarrow> length t < length s"
proof (induction n d s and n d s and n d s arbitrary: v t and vs t and ms t
    rule: read_value_read_array_read_object.induct)
  case (2 n d s)
  then obtain c r where cr: "skip s = c # r" by (cases "skip s") auto
  have r: "length r < length s" by (rule skip_Cons [OF cr])
  have k: "length (tl (skip r)) \<le> length r" using length_skip [of r] by simp
  from 2(3) show ?case
    using 2(1,2) [OF cr] r k read_string_length [of r] read_number_length [of "c # r"]
      length_skip [of s]
    by (auto simp: cr split: if_splits)
next
  case (4 n d s)
  then show ?case
    by (auto split: option.splits list.splits if_splits) (meson less_trans skip_Cons)+
next
  case (6 n d s)
  from 6(3) obtain s1 k s2 v t1 where x: "skip s = CHR 0x22 # s1" "read_string s1 = Some (k, s2)"
    "HasPrefix (skip s2) '':''" "read_value n d (tl (skip s2)) = Some (v, t1)"
    by (auto split: list.splits if_splits option.splits)
  have "length s1 < length s" "length s2 < length s1" using skip_Cons [OF x(1)] read_string_length [OF x(2)] .
  moreover have "length (tl (skip s2)) < length s2" using HasPrefix_tl [OF x(3)] length_skip [of s2] by simp
  moreover have "length t1 < length (tl (skip s2))"
    using 6(1) x by auto
  ultimately have l: "length t1 < length s" by simp
  from 6(2,3) x l show ?case
    by (auto split: list.splits if_splits) (meson less_trans skip_Cons)+
qed auto

text \<open>Beyond twice the length of the text, the number of calls makes no difference.\<close>

lemma read_fuel:
  "2 * length s + 1 \<le> n \<Longrightarrow> n \<le> m \<Longrightarrow> read_value m d s = read_value n d s"
  "2 * length s + 2 \<le> n \<Longrightarrow> n \<le> m \<Longrightarrow> read_array m d s = read_array n d s"
  "2 * length s + 2 \<le> n \<Longrightarrow> n \<le> m \<Longrightarrow> read_object m d s = read_object n d s"
proof (induction n d s and n d s and n d s arbitrary: m and m and m
    rule: read_value_read_array_read_object.induct)
  case (2 n d s)
  from 2(4) obtain m' where m: "m = Suc m'" "n \<le> m'" by (cases m) auto
  show ?case
  proof (cases "skip s")
    case (Cons c r)
    then have "2 * length r + 2 \<le> n" using skip_Cons [OF Cons] 2(3) by simp
    then have A: "c \<noteq> CHR 0x22 \<Longrightarrow> c = CHR ''['' \<Longrightarrow> d \<noteq> 0 \<Longrightarrow> \<not> HasPrefix (skip r) '']'' \<Longrightarrow>
        read_array m' (d - 1) r = read_array n (d - 1) r"
      and B: "c \<noteq> CHR 0x22 \<Longrightarrow> c \<noteq> CHR ''['' \<Longrightarrow> c = CHR ''{'' \<Longrightarrow> d \<noteq> 0 \<Longrightarrow> \<not> HasPrefix (skip r) ''}'' \<Longrightarrow>
        read_object m' (d - 1) r = read_object n (d - 1) r"
      using 2(1,2) [OF Cons] m(2) by blast+
    show ?thesis
      unfolding m(1) read_value.simps Cons list.case using A B by (intro if_cong refl) simp_all
  qed (simp add: m)
next
  case (4 n d s)
  from 4(4) obtain m' where m: "m = Suc m'" "n \<le> m'" by (cases m) auto
  have v: "read_value m' d s = read_value n d s" using 4(1) [of m'] 4(3) m by simp
  show ?case
  proof (cases "read_value n d s")
    case (Some vt)
    then obtain v' t where vt: "read_value n d s = Some (v', t)" by (cases vt) auto
    show ?thesis
    proof (cases "skip t")
      case (Cons c r)
      have "2 * length r + 2 \<le> n" using skip_Cons [OF Cons] read_length(1) [OF vt] 4(3) by simp
      then have A: "c \<noteq> CHR '']'' \<Longrightarrow> c = CHR '','' \<Longrightarrow> read_array m' d r = read_array n d r"
        using 4(2) [OF vt refl Cons] m(2) by blast
      show ?thesis
        unfolding m(1) read_array.simps v vt option.case prod.case Cons list.case
        using A by (intro if_cong refl) simp_all
    qed (simp add: m v vt)
  qed (simp add: m v)
next
  case (6 n d s)
  from 6(4) obtain m' where m: "m = Suc m'" "n \<le> m'" by (cases m) auto
  show ?case
  proof (cases "\<exists>s1 k s2. skip s = CHR 0x22 # s1 \<and> read_string s1 = Some (k, s2) \<and> HasPrefix (skip s2) '':''")
    case True
    then obtain s1 k s2 where x: "skip s = CHR 0x22 # s1" "read_string s1 = Some (k, s2)" "HasPrefix (skip s2) '':''"
      by blast
    have l: "length (tl (skip s2)) < length s"
      using skip_Cons [OF x(1)] read_string_length [OF x(2)] HasPrefix_tl [OF x(3)] length_skip [of s2] by simp
    have v: "read_value m' d (tl (skip s2)) = read_value n d (tl (skip s2))"
      using 6(1) [OF x(1) _ x(2) refl, of m'] x(3) l 6(3) m(2) by simp
    show ?thesis
    proof (cases "read_value n d (tl (skip s2))")
      case (Some vt)
      then obtain v' t where vt: "read_value n d (tl (skip s2)) = Some (v', t)" by (cases vt) auto
      show ?thesis
      proof (cases "skip t")
        case (Cons c r)
        have "2 * length r + 2 \<le> n" using skip_Cons [OF Cons] read_length(1) [OF vt] l 6(3) by simp
        moreover have "\<not> CHR 0x22 \<noteq> CHR 0x22" "\<not> \<not> HasPrefix (skip s2) '':''" using x(3) by simp_all
        ultimately have A: "c \<noteq> CHR ''}'' \<Longrightarrow> c = CHR '','' \<Longrightarrow> read_object m' d r = read_object n d r"
          using 6(2) [OF x(1) _ x(2) refl _ vt refl Cons] m(2) by blast
        show ?thesis
          unfolding m(1) read_object.simps x(1,2) v vt option.case prod.case Cons list.case
          using A x(3) by (intro if_cong refl) simp_all
      qed (simp add: m x v vt)
    qed (simp add: m x v)
  next
    case False
    then show ?thesis by (auto simp: m split: list.splits option.splits)
  qed
qed auto

lemma read_value_enough: "2 * length s + 1 \<le> n \<Longrightarrow> read_value n d s = read_value (2 * length s + 2) d s"
  using read_fuel(1) [of s "2 * length s + 1" n d] read_fuel(1) [of s "2 * length s + 1" "2 * length s + 2" d] by simp

section \<open>What is written is read back\<close>

definition ascii :: "string \<Rightarrow> bool" where
  "ascii s \<longleftrightarrow> list_all (\<lambda>c. code c < 0x80) s"

lemma escape_string_ASCII_Cons:
  "code c < 0x80 \<Longrightarrow> escape_string (c # s) = escape_ascii c @ escape_string s"
  by (simp add: escape_string.simps(2) DecodeRune_def)

lemma hex_value_digit: "n < 16 \<Longrightarrow> hex_value (hex_digit n) = Some n"
  by (auto simp: hex_value_def hex_digit_def char_class_defs)

lemma read_u_escape:
  assumes "n < 0x80"
  shows "read_string (u_escape n @ t) = map_option (\<lambda>(v, u). (char_of n # v, u)) (read_string t)"
proof -
  have h: "hex4 (hex_digit 0 # hex_digit 0 # hex_digit (n div 16) # hex_digit (n mod 16) # t) = Some n"
    using assms by (simp add: hex_value_digit)
  have u: "unit_rune n t = (n, 0)" using assms by (simp add: unit_rune_def)
  show ?thesis
    using assms unfolding u_escape_def
    by (simp add: read_string.simps(2) h u EncodeRune_ASCII del: hex4.simps)
qed

lemma read_escape_ascii:
  assumes "code c < 0x80"
  shows "read_string (escape_ascii c @ t) = map_option (\<lambda>(v, u). (c # v, u)) (read_string t)"
proof -
  have n: "\<not> code (CHR 0x5C) < 32" by simp
  show ?thesis
  proof (cases "c \<in> {CHR 0x22, CHR 0x5C, CHR 0x08, CHR 0x0C, CHR 0x0A, CHR 0x0D, CHR 0x09}")
    case True
    then show ?thesis
      by (elim insertE emptyE) (simp_all add: escape_ascii_def read_string.simps(2) simple_escape_def n)
  next
    case False
    show ?thesis
    proof (cases "code c < 32 \<or> c = CHR ''<'' \<or> c = CHR ''>'' \<or> c = CHR ''&''")
      case True
      with False have "escape_ascii c = u_escape (code c)" by (simp add: escape_ascii_def)
      then show ?thesis using read_u_escape [OF assms, of t] by simp
    next
      case no: False
      with False have "escape_ascii c = [c]" by (simp add: escape_ascii_def)
      then show ?thesis using assms False no by (simp add: read_string.simps(2))
    qed
  qed
qed

lemma read_escape_string:
  "ascii s \<Longrightarrow> read_string (escape_string s @ CHR 0x22 # t) = Some (s, t)"
proof (induction s)
  case (Cons c s)
  then have "code c < 0x80" "ascii s" by (simp_all add: ascii_def)
  then show ?case using Cons.IH by (simp add: escape_string_ASCII_Cons read_escape_ascii)
qed (simp add: read_string.simps(2))

text \<open>The values the lemmas speak of: texts are ASCII, and numbers are integers in their usual form.
  What follows a number must not continue it.\<close>

definition int_text :: "string \<Rightarrow> bool" where
  "int_text n \<longleftrightarrow>
     (let d = (if HasPrefix n ''-'' then tl n else n) in
      d \<noteq> [] \<and> list_all is_digit d \<and> (hd d = CHR ''0'' \<longrightarrow> d = ''0''))"

definition delimited :: "string \<Rightarrow> bool" where
  "delimited t \<longleftrightarrow> t = [] \<or> \<not> is_digit (hd t) \<and> hd t \<notin> {CHR ''.'', CHR ''e'', CHR ''E''}"

lemma delimited_simps [simp]:
  "delimited []" "delimited (CHR '','' # t)" "delimited (CHR '']'' # t)" "delimited (CHR ''}'' # t)"
  "delimited (CHR 0x0A # t)"
  by (simp_all add: delimited_def char_class_defs)

lemma read_int_text:
  assumes "int_text n" and "delimited t"
  shows "read_number (n @ t) = Some (n, t)"
proof -
  define sign where "sign = (if HasPrefix n ''-'' then ''-'' else [])"
  define d where "d = (if HasPrefix n ''-'' then tl n else n)"
  have n: "n = sign @ d" by (cases n) (auto simp: sign_def d_def HasPrefix_def)
  have d: "d \<noteq> []" "list_all is_digit d" "hd d = CHR ''0'' \<Longrightarrow> d = ''0''"
    using assms(1) by (auto simp: int_text_def d_def Let_def)
  have "n \<noteq> []" using d(1) n by simp
  then have p: "HasPrefix (n @ t) ''-'' = HasPrefix n ''-''" by (cases n) (simp_all add: HasPrefix_def)
  have i: "read_int (d @ t) = Some (d, t)"
  proof (cases "hd d = CHR ''0''")
    case True
    then show ?thesis using d(3) by (simp add: read_int_def HasPrefix_def)
  next
    case False
    then have "\<not> HasPrefix (d @ t) ''0''" using d(1) by (cases d) (auto simp: HasPrefix_def)
    moreover have "takeWhile is_digit t = []" "dropWhile is_digit t = t"
      using assms(2) by (cases t; auto simp: delimited_def)+
    ultimately show ?thesis using d(1,2)
      by (simp add: read_int_def digits_def list_all_iff)
  qed
  have f: "read_frac t = Some ([], t)"
    using assms(2) by (cases t) (auto simp: read_frac_def delimited_def HasPrefix_def)
  have e: "read_exp t = Some ([], t)"
    using assms(2) by (cases t) (auto simp: read_exp_def delimited_def)
  have "drop (length sign) (n @ t) = d @ t" by (simp add: n)
  then show ?thesis
    unfolding read_number_def p sign_def [symmetric] Let_def by (simp add: i f e n [symmetric])
qed

fun plain_json :: "json \<Rightarrow> bool" where
  "plain_json (JStr s) = ascii s"
| "plain_json (JNum n) = int_text n"
| "plain_json (JArr xs) = list_all plain_json xs"
| "plain_json (JObj kvs) = list_all (\<lambda>(k, v). ascii k \<and> plain_json v) kvs"
| "plain_json _ = True"

fun depth :: "json \<Rightarrow> nat" where
  "depth (JArr xs) = Suc (foldr max (map depth xs) 0)"
| "depth (JObj kvs) = Suc (foldr max (map (\<lambda>(k, v). depth v) kvs) 0)"
| "depth _ = 0"

lemma int_text_hd: "int_text n \<Longrightarrow> \<exists>c r. n = c # r \<and> (c = CHR ''-'' \<or> is_digit c)"
  by (cases n) (auto simp: int_text_def HasPrefix_def Let_def split: if_splits)

lemma is_digit_not:
  "is_digit c \<Longrightarrow> c \<noteq> CHR '']'' \<and> c \<noteq> CHR ''}'' \<and> c \<noteq> CHR 0x22 \<and> c \<noteq> CHR ''['' \<and> c \<noteq> CHR ''{''
     \<and> c \<noteq> CHR ''n'' \<and> c \<noteq> CHR ''t'' \<and> c \<noteq> CHR ''f'' \<and> \<not> json_space c"
  by (auto simp: char_class_defs json_space_def)

lemma Marshal_hd: "plain_json v \<Longrightarrow> \<exists>c r. Marshal v = c # r \<and> \<not> json_space c \<and> c \<noteq> CHR '']'' \<and> c \<noteq> CHR ''}''"
  by (cases v) (auto simp: json_string_def json_space_def dest!: int_text_hd dest: is_digit_not)

lemma skip_nonspace: "\<not> json_space c \<Longrightarrow> skip (c # r) = c # r"
  by (simp add: skip_def)

lemma skip_Marshal: "plain_json v \<Longrightarrow> skip (Marshal v @ t) = Marshal v @ t"
  using Marshal_hd [of v] by (auto simp: skip_nonspace)

text \<open>Reading back with any number of calls beyond some bound.\<close>

definition reads :: "nat \<Rightarrow> json \<Rightarrow> bool" where
  "reads d v \<longleftrightarrow> (\<forall>t. delimited t \<longrightarrow> (\<exists>N. \<forall>n \<ge> N. read_value n d (Marshal v @ t) = Some (v, t)))"

lemma readsD:
  "reads d v \<Longrightarrow> delimited t \<Longrightarrow> \<exists>N. \<forall>n \<ge> N. read_value n d (Marshal v @ t) = Some (v, t)"
  by (simp add: reads_def)

lemma reads_array:
  assumes "\<forall>v \<in> set vs. plain_json v \<and> reads d v" and "vs \<noteq> []"
  shows "\<exists>N. \<forall>n \<ge> N. read_array n d (Join (map Marshal vs) '','' @ CHR '']'' # t) = Some (vs, t)"
  using assms
proof (induction vs)
  case (Cons v vs)
  show ?case
  proof (cases vs)
    case Nil
    from Cons.prems(1) have "reads d v" by simp
    then obtain N where N: "\<forall>n \<ge> N. read_value n d (Marshal v @ CHR '']'' # t) = Some (v, CHR '']'' # t)"
      using readsD [of d v "CHR '']'' # t"] by auto
    have "read_array n d (Marshal v @ CHR '']'' # t) = Some ([v], t)" if "n \<ge> Suc N" for n
      using that N by (cases n) (simp_all add: skip_nonspace json_space_def)
    with Nil show ?thesis by auto
  next
    case (Cons w ws)
    let ?r = "Join (map Marshal vs) '','' @ CHR '']'' # t"
    have j: "Join (map Marshal (v # vs)) '','' @ CHR '']'' # t = Marshal v @ CHR '','' # ?r"
      by (simp add: local.Cons)
    from Cons.prems(1) have "reads d v" by simp
    then obtain N where N: "\<forall>n \<ge> N. read_value n d (Marshal v @ CHR '','' # ?r) = Some (v, CHR '','' # ?r)"
      using readsD [of d v "CHR '','' # ?r"] by auto
    from Cons.IH Cons.prems(1) local.Cons obtain M where M: "\<forall>n \<ge> M. read_array n d ?r = Some (vs, t)" by auto
    have "read_array n d (Marshal v @ CHR '','' # ?r) = Some (v # vs, t)" if "n \<ge> Suc (max N M)" for n
    proof -
      from that obtain n' where n: "n = Suc n'" "n' \<ge> N" "n' \<ge> M" by (cases n) auto
      show ?thesis using N n(2) M n(3) by (simp add: n(1) skip_nonspace json_space_def)
    qed
    then show ?thesis unfolding j by blast
  qed
qed simp

lemma reads_object:
  assumes "\<forall>kv \<in> set kvs. ascii (fst kv) \<and> reads d (snd kv)" and "kvs \<noteq> []"
  shows "\<exists>N. \<forall>n \<ge> N. read_object n d
    (Join (map (\<lambda>(k, v). json_string k @ '':'' @ Marshal v) kvs) '','' @ CHR ''}'' # t) = Some (kvs, t)"
  using assms
proof (induction kvs)
  case (Cons kv kvs)
  obtain k v where kv: "kv = (k, v)" by (cases kv)
  have r: "ascii k" "reads d v" using Cons.prems(1) by (simp_all add: kv)
  have step: "\<exists>N. \<forall>n \<ge> N. read_object (Suc n) d (json_string k @ '':'' @ Marshal v @ c # u)
      = (if c = CHR ''}'' then Some ([(k, v)], u)
         else if c = CHR '','' then map_option (\<lambda>(vs, u). ((k, v) # vs, u)) (read_object n d u) else None)"
    if "\<not> json_space c" "delimited (c # u)" for c u
  proof -
    note del = that(2)
    from r(2) obtain N where N: "\<forall>n \<ge> N. read_value n d (Marshal v @ c # u) = Some (v, c # u)"
      using readsD [OF _ del] by blast
    have q: "\<not> json_space (CHR 0x22)" "\<not> json_space (CHR '':'')" by (simp_all add: json_space_def)
    have "read_object (Suc n) d (json_string k @ '':'' @ Marshal v @ c # u)
      = (if c = CHR ''}'' then Some ([(k, v)], u)
         else if c = CHR '','' then map_option (\<lambda>(vs, u). ((k, v) # vs, u)) (read_object n d u) else None)"
      if "n \<ge> N" for n
      using N that \<open>\<not> json_space c\<close>
      by (simp add: json_string_def skip_nonspace q read_escape_string [OF r(1)] HasPrefix_def)
    then show ?thesis by blast
  qed
  show ?case
  proof (cases kvs)
    case Nil
    have "\<not> json_space (CHR ''}'')" by (simp add: json_space_def)
    from step [OF this, of t] obtain N where N: "\<forall>n \<ge> N. read_object (Suc n) d (json_string k @ '':'' @ Marshal v @ CHR ''}'' # t)
      = Some ([(k, v)], t)" by auto
    have "read_object n d (json_string k @ '':'' @ Marshal v @ CHR ''}'' # t) = Some ([(k, v)], t)" if "n \<ge> Suc N" for n
      using that N by (cases n) simp_all
    then show ?thesis by (auto simp: kv Nil)
  next
    case (Cons w ws)
    let ?r = "Join (map (\<lambda>(k, v). json_string k @ '':'' @ Marshal v) kvs) '','' @ CHR ''}'' # t"
    have j: "Join (map (\<lambda>(k, v). json_string k @ '':'' @ Marshal v) (kv # kvs)) '','' @ CHR ''}'' # t
      = json_string k @ '':'' @ Marshal v @ CHR '','' # ?r"
      by (simp add: local.Cons kv)
    have "\<not> json_space (CHR '','')" by (simp add: json_space_def)
    from step [OF this, of ?r] obtain N where N: "\<forall>n \<ge> N. read_object (Suc n) d (json_string k @ '':'' @ Marshal v @ CHR '','' # ?r)
      = map_option (\<lambda>(vs, u). ((k, v) # vs, u)) (read_object n d ?r)" by auto
    from Cons.IH Cons.prems(1) local.Cons obtain M where M: "\<forall>n \<ge> M. read_object n d ?r = Some (kvs, t)" by auto
    have "read_object n d (json_string k @ '':'' @ Marshal v @ CHR '','' # ?r) = Some (kv # kvs, t)" if "n \<ge> Suc (max N M)" for n
    proof -
      from that obtain n' where n: "n = Suc n'" "n' \<ge> N" "n' \<ge> M" by (cases n) auto
      show ?thesis using N n(2) M n(3) by (simp only: n(1) kv option.map prod.case)
    qed
    then show ?thesis unfolding j by blast
  qed
qed simp

lemma reads_step:
  assumes "\<And>t. delimited t \<Longrightarrow> \<exists>N. \<forall>n \<ge> N. read_value (Suc n) d (Marshal v @ t) = Some (v, t)"
  shows "reads d v"
  unfolding reads_def
proof (intro allI impI)
  fix t assume "delimited t"
  from assms [OF this] obtain N where N: "\<forall>n \<ge> N. read_value (Suc n) d (Marshal v @ t) = Some (v, t)" by blast
  have "read_value n d (Marshal v @ t) = Some (v, t)" if "n \<ge> Suc N" for n
    using that N by (cases n) simp_all
  then show "\<exists>N. \<forall>n \<ge> N. read_value n d (Marshal v @ t) = Some (v, t)" by blast
qed

lemma foldr_max_le: "foldr max xs (0::nat) \<le> d \<longleftrightarrow> (\<forall>x \<in> set xs. x \<le> d)"
  by (induction xs) auto

lemma Marshal_reads: "plain_json v \<Longrightarrow> depth v \<le> d \<Longrightarrow> reads d v"
proof (induction v arbitrary: d)
  case (JStr s)
  then show ?case by (intro reads_step) (auto simp: json_string_def skip_nonspace json_space_def read_escape_string)
next
  case (JArr xs)
  show ?case
  proof (rule reads_step)
    fix t
    from JArr.prems(2) obtain e where d: "d = Suc e" by (cases d) auto
    have all: "\<forall>v \<in> set xs. plain_json v \<and> reads e v"
      using JArr by (auto simp: d foldr_max_le list_all_iff)
    have sp: "\<not> json_space (CHR ''['')" "\<not> json_space (CHR '']'')" by (simp_all add: json_space_def)
    show "\<exists>N. \<forall>n \<ge> N. read_value (Suc n) d (Marshal (JArr xs) @ t) = Some (JArr xs, t)"
    proof (cases xs)
      case Nil
      then show ?thesis by (simp add: d skip_nonspace sp HasPrefix_def)
    next
      case (Cons x ys)
      from reads_array [OF all, of t] Cons obtain N where
        N: "\<forall>n \<ge> N. read_array n e (Join (map Marshal xs) '','' @ CHR '']'' # t) = Some (xs, t)" by auto
      obtain c r where c: "Marshal x = c # r" "\<not> json_space c" "c \<noteq> CHR '']''"
        using Marshal_hd all Cons by (metis list.set_intros(1))
      have "\<exists>r'. Join (map Marshal xs) '','' @ CHR '']'' # t = c # r'"
        using c(1) by (cases ys) (auto simp: Cons)
      then have "\<not> HasPrefix (skip (Join (map Marshal xs) '','' @ CHR '']'' # t)) '']''"
        using c by (auto simp: skip_nonspace HasPrefix_def)
      then show ?thesis using N by (auto simp: d skip_nonspace sp)
    qed
  qed
next
  case (JObj kvs)
  show ?case
  proof (rule reads_step)
    fix t
    from JObj.prems(2) obtain e where d: "d = Suc e" by (cases d) auto
    have all: "\<forall>kv \<in> set kvs. ascii (fst kv) \<and> reads e (snd kv)"
    proof
      fix kv assume "kv \<in> set kvs"
      with JObj.prems have "ascii (fst kv)" "plain_json (snd kv)" "depth (snd kv) \<le> e"
        by (cases kv; force simp: d foldr_max_le list_all_iff)+
      with JObj.IH [of kv "snd kv"] \<open>kv \<in> set kvs\<close> show "ascii (fst kv) \<and> reads e (snd kv)"
        by (auto simp: prod_set_simps snds.simps)
    qed
    have sp: "\<not> json_space (CHR ''{'')" "\<not> json_space (CHR ''}'')" "\<not> json_space (CHR 0x22)"
      by (simp_all add: json_space_def)
    show "\<exists>N. \<forall>n \<ge> N. read_value (Suc n) d (Marshal (JObj kvs) @ t) = Some (JObj kvs, t)"
    proof (cases kvs)
      case Nil
      then show ?thesis by (simp add: d skip_nonspace sp HasPrefix_def)
    next
      case (Cons x ys)
      from reads_object [OF all, of t] Cons obtain N where
        N: "\<forall>n \<ge> N. read_object n e (Join (map (\<lambda>(k, v). json_string k @ '':'' @ Marshal v) kvs) '','' @ CHR ''}'' # t)
          = Some (kvs, t)" by auto
      have "\<exists>r'. Join (map (\<lambda>(k, v). json_string k @ '':'' @ Marshal v) kvs) '','' @ CHR ''}'' # t = CHR 0x22 # r'"
        by (cases ys; cases x) (auto simp: Cons json_string_def)
      then have "\<not> HasPrefix (skip (Join (map (\<lambda>(k, v). json_string k @ '':'' @ Marshal v) kvs) '','' @ CHR ''}'' # t)) ''}''"
        by (auto simp: skip_nonspace sp HasPrefix_def)
      then show ?thesis using N by (auto simp: d skip_nonspace sp)
    qed
  qed
next
  case (JNum n)
  show ?case
  proof (rule reads_step)
    fix t assume t: "delimited t"
    from JNum.prems(1) obtain c r where n: "n = c # r" and c: "c = CHR ''-'' \<or> is_digit c" by (auto dest: int_text_hd)
    then have sp: "\<not> json_space c" by (auto simp: json_space_def char_class_defs)
    have ne: "c \<noteq> CHR 0x22" "c \<noteq> CHR ''[''" "c \<noteq> CHR ''{''" "c \<noteq> CHR ''n''" "c \<noteq> CHR ''t''" "c \<noteq> CHR ''f''"
      using c is_digit_not [of c] by auto
    have "read_number (n @ t) = Some (n, t)" using read_int_text JNum.prems(1) t by simp
    then have "read_value (Suc k) d (Marshal (JNum n) @ t) = Some (JNum n, t)" for k
      by (simp add: n skip_nonspace [OF sp] HasPrefix_def ne)
    then show "\<exists>N. \<forall>k \<ge> N. read_value (Suc k) d (Marshal (JNum n) @ t) = Some (JNum n, t)" by blast
  qed
qed (auto intro!: reads_step simp: skip_nonspace json_space_def HasPrefix_def)

lemma DecodeValue_Marshal:
  assumes "plain_json v" and "depth v \<le> max_depth"
    and "delimited t"
  shows "DecodeValue (Marshal v @ t) = Some (v, t)"
proof -
  from readsD [OF Marshal_reads [OF assms(1,2)] assms(3)] obtain N where N: "\<forall>n \<ge> N. read_value n max_depth (Marshal v @ t) = Some (v, t)"
    by blast
  let ?s = "Marshal v @ t"
  let ?n = "max N (2 * length ?s + 2)"
  have "read_value ?n max_depth ?s = Some (v, t)" using N by simp
  moreover have "read_value ?n max_depth ?s = read_value (2 * length ?s + 2) max_depth ?s"
    by (rule read_value_enough) simp
  ultimately show ?thesis by (simp add: DecodeValue_def)
qed

lemma Unmarshal_Marshal:
  assumes "plain_json v" and "depth v \<le> max_depth"
  shows "Unmarshal (Marshal v) = Some v" and "Unmarshal (Marshal v @ [CHR 0x0A]) = Some v"
proof -
  have "skip [] = []" "skip [CHR 0x0A] = []" by (simp_all add: skip_def json_space_def)
  then show "Unmarshal (Marshal v) = Some v" "Unmarshal (Marshal v @ [CHR 0x0A]) = Some v"
    using DecodeValue_Marshal [OF assms, of "[]"] DecodeValue_Marshal [OF assms, of "[CHR 0x0A]"]
    by (simp_all add: Unmarshal_def)
qed

section \<open>Keys and fields\<close>

text \<open>
  The name by which a key is matched to a field: every rune is replaced by the least rune of its
  folding class. That is an ASCII rune for the ASCII letters and for the long s and the Kelvin
  sign only; another rune folds to a rune that is not ASCII and stands for itself here, the
  names of the fields being ASCII.
\<close>

definition fold_rune :: "nat \<Rightarrow> nat" where
  "fold_rune r =
     (if 97 \<le> r \<and> r \<le> 122 then r - 32
      else if r = 0x17F then 0x53
      else if r = 0x212A then 0x4B
      else r)"

definition fold_name :: "string \<Rightarrow> string" where
  "fold_name s = concat (map (EncodeRune \<circ> fold_rune) (runes s))"

text \<open>
  Decoding into a struct whose fields are strings, on top of the values \<open>m\<close>: unknown keys are
  ignored, \<open>null\<close> leaves the field, and a value of another type is skipped and makes the result
  an error, which is the second component.
\<close>

fun string_fields ::
    "string list \<Rightarrow> (string \<times> json) list \<Rightarrow> (string \<rightharpoonup> string) \<Rightarrow> (string \<rightharpoonup> string) \<times> bool" where
  "string_fields names [] m = (m, True)"
| "string_fields names ((k, x) # kvs) m =
     (case find (\<lambda>f. fold_name f = fold_name k) names of
        None \<Rightarrow> string_fields names kvs m
      | Some f \<Rightarrow>
          (case x of
             JStr s \<Rightarrow> string_fields names kvs (m(f \<mapsto> s))
           | JNull \<Rightarrow> string_fields names kvs m
           | _ \<Rightarrow> (fst (string_fields names kvs m), False)))"

definition decode_strings :: "string list \<Rightarrow> json \<Rightarrow> (string \<rightharpoonup> string) \<Rightarrow> (string \<rightharpoonup> string) \<times> bool" where
  "decode_strings names v m =
     (case v of
        JObj kvs \<Rightarrow> string_fields names kvs m
      | JNull \<Rightarrow> (m, True)
      | _ \<Rightarrow> (m, False))"

definition field :: "(string \<rightharpoonup> string) \<Rightarrow> string \<Rightarrow> string" where
  "field m f = (case m f of Some s \<Rightarrow> s | None \<Rightarrow> [])"

definition fold_char :: "char \<Rightarrow> char" where
  "fold_char c = (if is_lower c then char_of (code c - 32) else c)"

lemma fold_name_ASCII: "ascii s \<Longrightarrow> fold_name s = map fold_char s"
proof (induction s)
  case Nil
  then show ?case by (simp add: fold_name_def)
next
  case (Cons c s)
  then have c: "code c < 0x80" and s: "ascii s" by (simp_all add: ascii_def)
  have "EncodeRune (fold_rune (code c)) = [fold_char c]"
    using c by (auto simp: EncodeRune_ASCII fold_rune_def fold_char_def char_class_defs)
  then show ?case using Cons.IH [OF s] c by (simp add: fold_name_def runes_ASCII_Cons)
qed

text \<open>Keys in lower case match the field of that name only.\<close>

definition lower_key :: "string \<Rightarrow> bool" where
  "lower_key s \<longleftrightarrow> list_all (\<lambda>c. code c < 0x80 \<and> \<not> is_upper c) s"

lemma upper_inj:
  fixes m n :: nat
  assumes "\<not> (65 \<le> m \<and> m \<le> 90)" and "\<not> (65 \<le> n \<and> n \<le> 90)"
    and "(if 97 \<le> m \<and> m \<le> 122 then m - 32 else m) = (if 97 \<le> n \<and> n \<le> 122 then n - 32 else n)"
  shows "m = n"
proof (rule ccontr)
  assume "m \<noteq> n"
  show False
  proof (cases "97 \<le> m \<and> m \<le> 122")
    case True
    then obtain k where m: "m = 97 + k" "k \<le> 25" by (metis le_Suc_ex add_le_cancel_left numeral_plus_numeral add_num_simps)
    show False using assms \<open>m \<noteq> n\<close> m by (cases "97 \<le> n \<and> n \<le> 122") auto
  next
    case False
    then show False using assms \<open>m \<noteq> n\<close> by (cases "97 \<le> n \<and> n \<le> 122") auto
  qed
qed

lemma fold_char_inj: "\<not> is_upper c \<Longrightarrow> \<not> is_upper d \<Longrightarrow> fold_char c = fold_char d \<Longrightarrow> c = d"
proof -
  assume u: "\<not> is_upper c" "\<not> is_upper d" and eq: "fold_char c = fold_char d"
  have k: "code (fold_char x) = (if is_lower x then code x - 32 else code x)" for x
  proof (cases "is_lower x")
    case True
    then have "code x \<le> 122" by (simp add: char_class_defs)
    then have "code x - 32 < 256" by linarith
    then show ?thesis using True by (simp add: fold_char_def)
  qed (simp add: fold_char_def)
  from eq have "code (fold_char c) = code (fold_char d)" by simp
  then have e: "(if 97 \<le> code c \<and> code c \<le> 122 then code c - 32 else code c)
      = (if 97 \<le> code d \<and> code d \<le> 122 then code d - 32 else code d)"
    unfolding k by (simp add: char_class_defs)
  have "code c = code d" using u by (intro upper_inj [OF _ _ e]) (simp_all add: char_class_defs)
  then show "c = d" by simp
qed

lemma fold_name_eq:
  assumes "lower_key s" and "lower_key t"
  shows "fold_name s = fold_name t \<longleftrightarrow> s = t"
proof -
  have "inj_on fold_char (set s \<union> set t)"
    using assms fold_char_inj by (auto simp: inj_on_def lower_key_def list_all_iff)
  then have "map fold_char s = map fold_char t \<longleftrightarrow> s = t" by (rule inj_on_map_eq_map)
  moreover have "ascii s" "ascii t" using assms by (auto simp: lower_key_def ascii_def list_all_iff)
  ultimately show ?thesis by (simp add: fold_name_ASCII)
qed

lemma lower_key_simps [simp]:
  "lower_key []" "lower_key (c # s) \<longleftrightarrow> code c < 0x80 \<and> \<not> (65 \<le> code c \<and> code c \<le> 90) \<and> lower_key s"
  by (auto simp: lower_key_def char_class_defs)

section \<open>Values of type any\<close>

fun insert_key :: "string \<Rightarrow> 'a \<Rightarrow> (string \<times> 'a) list \<Rightarrow> (string \<times> 'a) list" where
  "insert_key k v [] = [(k, v)]"
| "insert_key k v ((k', v') # r) =
     (if k < k' then (k, v) # (k', v') # r
      else if k = k' then (k, v) # r
      else (k', v') # insert_key k v r)"

text \<open>
  A number becomes a \<open>float64\<close> and is written in its shortest form: an integer up to
  \<open>2^53\<close> keeps its text, and what becomes of other numbers (None if it is out of
  range) is the argument \<open>F\<close>.
\<close>

definition number_text :: "(string \<Rightarrow> string option) \<Rightarrow> string \<Rightarrow> string option" where
  "number_text F n =
     (let d = (if HasPrefix n ''-'' then tl n else n) in
      if d \<noteq> [] \<and> list_all is_digit d \<and> nat_of_digits d \<le> 2 ^ 53 then Some n else F n)"

text \<open>Decoding into \<open>any\<close>, shown as the value that is written back: the keys of an object are
  sorted, and the last of equal keys counts.\<close>

fun any_value :: "(string \<Rightarrow> string option) \<Rightarrow> json \<Rightarrow> json option" where
  "any_value F (JNum n) = map_option JNum (number_text F n)"
| "any_value F (JArr xs) = map_option JArr (those (map (any_value F) xs))"
| "any_value F (JObj kvs) =
     map_option (\<lambda>ms. JObj (foldl (\<lambda>m (k, v). insert_key k v m) [] ms))
       (those (map (\<lambda>(k, v). map_option (Pair k) (any_value F v)) kvs))"
| "any_value F v = Some v"

section \<open>Indentation\<close>

text \<open>\<open>Indent\<close> with two blanks. It works on the bytes, so that literals keep their text, and
  keeps the white space behind the value. The arguments: inside a string, behind a backslash,
  an opening bracket is waiting for its line, and the depth.\<close>

definition newline :: "nat \<Rightarrow> string" where
  "newline d = CHR 0x0A # replicate (2 * d) (CHR '' '')"

fun indent_text :: "bool \<Rightarrow> bool \<Rightarrow> bool \<Rightarrow> nat \<Rightarrow> string \<Rightarrow> string" where
  "indent_text str esc need d [] = []"
| "indent_text str esc need d (c # s) =
     (if str then c # indent_text (esc \<or> c \<noteq> CHR 0x22) (\<not> esc \<and> c = CHR 0x5C) need d s
      else if json_space c then indent_text False False need d s
      else if c = CHR '']'' \<or> c = CHR ''}'' then
        (if need then c # indent_text False False False d s
         else newline (d - 1) @ c # indent_text False False False (d - 1) s)
      else
        (let d' = (if need then d + 1 else d) in
         (if need then newline d' else [])
         @ (if c = CHR ''['' \<or> c = CHR ''{'' then c # indent_text False False True d' s
            else if c = CHR '','' then c # newline d' @ indent_text False False False d' s
            else if c = CHR '':'' then c # CHR '' '' # indent_text False False False d' s
            else c # indent_text (c = CHR 0x22) False False d' s)))"

definition Indent :: "string \<Rightarrow> string option" where
  "Indent s =
     (if Unmarshal s = None then None
      else Some (indent_text False False False 0 (rev (dropWhile json_space (rev s)))
        @ rev (takeWhile json_space (rev s))))"

end
