(* ===== verification/AuditTrail.thy ===== *)
theory AuditTrail
  imports World Json
begin

text \<open>
  \<open>internal/audit/audit.go\<close>: an audit record goes into SQLite first and then, when the audit
  file is enabled, as a line into the file. The lemmas say that writing one changes nothing
  else in the world, whatever fails.
\<close>

text \<open>\<open>Entry\<close> of \<open>internal/audit/audit.go\<close>, its JSON text, and its line in the audit file.\<close>

record Entry =
  Timestamp :: string
  entAction :: string
  entResource :: string
  entResourceName :: string
  entSuccess :: bool
  entMessage :: string
  entRemoteIP :: string

definition Entry_json :: "Entry \<Rightarrow> json" where
  "Entry_json e =
     JObj [(''timestamp'', JStr (Timestamp e)), (''action'', JStr (entAction e)),
       (''resource'', JStr (entResource e)), (''resource_name'', JStr (entResourceName e)),
       (''success'', JBool (entSuccess e)), (''message'', JStr (entMessage e)),
       (''remote_ip'', JStr (entRemoteIP e))]"

definition line_break :: char where
  "line_break = CHR 0x0A"

definition entry_line :: "Entry \<Rightarrow> string" where
  "entry_line e = Marshal (Entry_json e) @ [line_break]"

text \<open>\<open>w_audit\<close> holds the bytes of the audit file. A write that fails has left some of its bytes there.\<close>

definition Logger_Write :: "('q, 'm) env \<Rightarrow> AuditLog \<Rightarrow> ('q, 'm) world \<Rightarrow> unit outcome \<times> ('q, 'm) world" where
  "Logger_Write E e w =
     (let now = e_time E (w_ticks w);
          w = w\<lparr>w_ticks := Suc (w_ticks w)\<rparr>;
          e = (if IsZero (audCreatedAt e) then e\<lparr>audCreatedAt := now\<rparr> else e)
      in case sql_call E (\<lambda>t. WriteAudit (e_sql E) t e) w of
           (Fail er, w) \<Rightarrow> (Fail (ErrText (''sqlite audit: '' @ errText er)), w)
         | (Panic p, w) \<Rightarrow> (Panic p, w)
         | (Ret _, w) \<Rightarrow>
             (if e_toFile E then
                (let entry = \<lparr>Timestamp = formatNano (audCreatedAt e), entAction = Action e,
                       entResource = Resource e, entResourceName = ResourceName e,
                       entSuccess = Success e, entMessage = Message e, entRemoteIP = RemoteIP e\<rparr>
                 in case os_append (e_os E) (entry_line entry) (w_disk w) of
                      (Some er, out, d) \<Rightarrow>
                        (Fail (ErrText (''file audit: '' @ er)), w\<lparr>w_disk := d, w_audit := w_audit w @ out\<rparr>)
                    | (None, out, d) \<Rightarrow> (Ret (), w\<lparr>w_disk := d, w_audit := w_audit w @ out\<rparr>))
              else (Ret (), w)))"

definition audit_entry :: "string \<Rightarrow> string \<Rightarrow> string \<Rightarrow> bool \<Rightarrow> string \<Rightarrow> AuditLog" where
  "audit_entry action name ip ok msg =
     \<lparr>audID = 0, Action = action, Resource = ''database'', ResourceName = name, Success = ok,
      Message = msg, RemoteIP = ip, audCreatedAt = zeroTime\<rparr>"

text \<open>\<open>internal/provision/service.go\<close>: both helpers ignore the error of the logger.\<close>

definition auditSuccess ::
    "('q, 'm) env \<Rightarrow> string \<Rightarrow> string \<Rightarrow> string \<Rightarrow> string \<Rightarrow> ('q, 'm) world \<Rightarrow> ('q, 'm) world" where
  "auditSuccess E action name ip msg w = snd (Logger_Write E (audit_entry action name ip True msg) w)"

definition auditFailure ::
    "('q, 'm) env \<Rightarrow> string \<Rightarrow> string \<Rightarrow> string \<Rightarrow> string \<Rightarrow> ('q, 'm) world \<Rightarrow> ('q, 'm) world" where
  "auditFailure E action name ip msg w =
     (let w = snd (Logger_Write E (audit_entry action name ip False msg) w)
      in if e_logger E then w\<lparr>w_warnings := w_warnings w @ [(action, name, ip, msg)]\<rparr> else w)"

text \<open>
  \<open>only_audited view w w'\<close>: projects, tokens, MySQL and every file are as they were; only audit
  records, log lines and the counters may differ.
\<close>

definition only_audited :: "('q \<Rightarrow> tables) \<Rightarrow> ('q, 'm) world \<Rightarrow> ('q, 'm) world \<Rightarrow> bool" where
  "only_audited view w w' \<longleftrightarrow>
     projects (view (w_sql w')) = projects (view (w_sql w))
   \<and> tokens (view (w_sql w')) = tokens (view (w_sql w))
   \<and> w_my w' = w_my w \<and> touches {} (w_disk w) (w_disk w') \<and> w_draws w' = w_draws w"

context service
begin

abbreviation unchanged :: "('q, 'm) world \<Rightarrow> ('q, 'm) world \<Rightarrow> bool" where
  "unchanged \<equiv> only_audited view"

lemmas unchanged_def = only_audited_def

lemma unchanged_refl: "unchanged w w"
  by (simp add: unchanged_def touches_refl)

lemma unchanged_trans: "unchanged w w1 \<Longrightarrow> unchanged w1 w2 \<Longrightarrow> unchanged w w2"
  unfolding unchanged_def using touches_trans by auto

lemma unchanged_projs: "unchanged w w' \<Longrightarrow> projs w' = projs w"
  by (auto simp: unchanged_def project_map_def select_project_def)

lemma unchanged_files: "unchanged w w' \<Longrightarrow> files (w_disk w') p = files (w_disk w) p"
  by (auto simp: unchanged_def intro: touches_files)

lemma unchanged_rest [simp]:
  "unchanged w (w'\<lparr>w_ticks := a\<rparr>) = unchanged w w'" "unchanged w (w'\<lparr>w_audit := c\<rparr>) = unchanged w w'"
  "unchanged w (w'\<lparr>w_warnings := x\<rparr>) = unchanged w w'" "unchanged w (w'\<lparr>w_access := y\<rparr>) = unchanged w w'"
  "unchanged w (w'\<lparr>w_errors := z\<rparr>) = unchanged w w'"
  by (simp_all add: unchanged_def)

lemma unchanged_frame: "unchanged w w' \<Longrightarrow> frame n w w'"
proof -
  assume u: "unchanged w w'"
  then have "holds_in p {files (w_disk w) p} (w_disk w) (w_disk w')" for p
    by (intro touches_holds [of "{}"]) (simp_all add: unchanged_def)
  with u unchanged_projs [OF u] show ?thesis by (simp add: frame_def unchanged_def rows_ok_def)
qed

lemma WriteAudit_unchanged:
  "sql_call E (\<lambda>t. WriteAudit (e_sql E) t e) w = (r, w') \<Longrightarrow> unchanged w w'"
proof -
  assume c: "sql_call E (\<lambda>t. WriteAudit (e_sql E) t e) w = (r, w')"
  then obtain q where w': "w' = w\<lparr>w_sql := q, w_ticks := Suc (w_ticks w)\<rparr>"
    and q: "q = snd (WriteAudit (e_sql E) (e_time E (w_ticks w)) e (w_sql w))"
    by (auto simp: sql_call_def split: prod.splits)
  from q db.exec_view have "projects (view q) = projects (view (w_sql w)) \<and> tokens (view q) = tokens (view (w_sql w))"
    unfolding store_op_state by (metis (no_types, lifting) cmd_effect.simps(7) tables.simps(1,3)
      tables.select_convs tables.ext_inject tables.surjective tables.update_convs(5,6))
  with w' show ?thesis by (simp add: unchanged_def touches_refl)
qed

lemma Logger_Write_unchanged: "unchanged w (snd (Logger_Write E e w))"
proof -
  define e' where "e' = (if IsZero (audCreatedAt e) then e\<lparr>audCreatedAt := e_time E (w_ticks w)\<rparr> else e)"
  obtain r w1 where c: "sql_call E (\<lambda>t. WriteAudit (e_sql E) t e') (w\<lparr>w_ticks := Suc (w_ticks w)\<rparr>) = (r, w1)"
    by (metis surj_pair)
  have u: "unchanged w w1"
    using WriteAudit_unchanged [OF c] unfolding unchanged_def by simp
  have "unchanged w1 (w1\<lparr>w_disk := d\<rparr>)" if "os_quiet (e_os E) (w_disk w1) = (x, d)" for x d
    using os_quiet_touches [of "{}" "w_disk w1" "e_os E"] that by (simp add: unchanged_def)
  with u have d: "unchanged w (w1\<lparr>w_disk := d\<rparr>)" if "os_quiet (e_os E) (w_disk w1) = (x, d)" for x d
    using that unchanged_trans by blast
  show ?thesis
    using c u d unfolding Logger_Write_def Let_def e'_def [symmetric] os_append_def
    by (auto split: outcome.splits prod.splits option.splits)
qed

lemma audit_unchanged [simp]:
  "unchanged w (auditSuccess E a n ip m w)" "unchanged w (auditFailure E a n ip m w)"
  using Logger_Write_unchanged [of w] by (simp_all add: auditSuccess_def auditFailure_def Let_def)

lemma audit_frame: "frame n w (auditSuccess E a m ip x w)" "frame n w (auditFailure E a m ip x w)"
  by (simp_all add: unchanged_frame)

end

end
