(* ===== verification/Provision.thy ===== *)
theory Provision
  imports AuditTrail
begin

text \<open>
  \<open>internal/provision/service.go\<close>: creating, rotating, deleting, reading and listing projects.
  Each operation is the body of the Go method between taking and releasing its locks (the
  locks are in \<open>Locks\<close>), with every call, in order, on every branch.
\<close>

record CreateResult =
  Project :: DatabaseProject
  Idempotent :: bool

definition markError :: "('q, 'm) env \<Rightarrow> string \<Rightarrow> goerr \<Rightarrow> ('q, 'm) world \<Rightarrow> ('q, 'm) world" where
  "markError E name err w =
     snd (sql_call E (\<lambda>t. UpdateProjectStatus (e_sql E) t name StatusError (errText err)) w)"

text \<open>The return after an error that is audited.\<close>

definition failed ::
    "('q, 'm) env \<Rightarrow> string \<Rightarrow> string \<Rightarrow> string \<Rightarrow> goerr \<Rightarrow> ('q, 'm) world \<Rightarrow> 'a outcome \<times> ('q, 'm) world" where
  "failed E action name ip err w = (Fail err, auditFailure E action name ip (errText err) w)"

section \<open>Create\<close>

text \<open>From the status update on: the project becomes ready and is read back.\<close>

definition create_finish ::
    "('q, 'm) env \<Rightarrow> string \<Rightarrow> string \<Rightarrow> ('q, 'm) world \<Rightarrow> CreateResult outcome \<times> ('q, 'm) world" where
  "create_finish E name ip w =
     on_call (sql_call E (\<lambda>t. UpdateProjectStatus (e_sql E) t name StatusReady []) w)
       (failed E ActionDatabaseCreate name ip)
       (\<lambda>_ w. on_call (GetProject (e_sql E) name (w_sql w), w)
         (failed E ActionDatabaseCreate name ip)
         (\<lambda>final w. (Ret \<lparr>Project = final, Idempotent = False\<rparr>,
            auditSuccess E ActionDatabaseCreate name ip ''created'' w)))"

text \<open>From the secret file on.\<close>

definition create_secret ::
    "('q, 'm) env \<Rightarrow> string \<Rightarrow> string \<Rightarrow> string \<Rightarrow> string \<Rightarrow> string \<Rightarrow> ('q, 'm) world
      \<Rightarrow> CreateResult outcome \<times> ('q, 'm) world" where
  "create_secret E name ip dbName dbUser password w =
     on_call (disk_call (Writer_Write (e_os E) (e_dir E)
         \<lparr>secName = name, secDatabase = dbName, secUser = dbUser, secPassword = password\<rparr>) w)
       (\<lambda>err w. failed E ActionDatabaseCreate name ip err (markError E name err w))
       (\<lambda>_ w. create_finish E name ip w)"

text \<open>From the grant on; its failure drops the user and the database.\<close>

definition create_grant ::
    "('q, 'm) env \<Rightarrow> string \<Rightarrow> string \<Rightarrow> string \<Rightarrow> string \<Rightarrow> string \<Rightarrow> ('q, 'm) world
      \<Rightarrow> CreateResult outcome \<times> ('q, 'm) world" where
  "create_grant E name ip dbName dbUser password w =
     on_call (my_call (GrantProjectPrivileges (e_run E) dbName dbUser (e_allowDrop E)) w)
       (\<lambda>err w. let w = snd (my_call (DropUser (e_run E) dbUser) w);
                    w = snd (my_call (DropDatabase (e_run E) dbName) w)
          in failed E ActionDatabaseCreate name ip err (markError E name err w))
       (\<lambda>_ w. create_secret E name ip dbName dbUser password w)"

text \<open>From the user on; its failure drops the database.\<close>

definition create_user ::
    "('q, 'm) env \<Rightarrow> string \<Rightarrow> string \<Rightarrow> string \<Rightarrow> string \<Rightarrow> string \<Rightarrow> ('q, 'm) world
      \<Rightarrow> CreateResult outcome \<times> ('q, 'm) world" where
  "create_user E name ip dbName dbUser password w =
     on_call (my_call (EnsureUser (e_run E) dbUser password) w)
       (\<lambda>err w. let w = snd (my_call (DropDatabase (e_run E) dbName) w)
          in failed E ActionDatabaseCreate name ip err (markError E name err w))
       (\<lambda>_ w. create_grant E name ip dbName dbUser password w)"

text \<open>From the password on.\<close>

definition create_provision ::
    "('q, 'm) env \<Rightarrow> string \<Rightarrow> string \<Rightarrow> string \<Rightarrow> string \<Rightarrow> ('q, 'm) world \<Rightarrow> CreateResult outcome \<times> ('q, 'm) world" where
  "create_provision E name ip dbName dbUser w =
     on_call (draw_call E RandomPassword w)
       (\<lambda>err w. (Fail err, markError E name err w))
       (\<lambda>password w. on_call (my_call (EnsureDatabase (e_run E) dbName) w)
         (\<lambda>err w. failed E ActionDatabaseCreate name ip err (markError E name err w))
         (\<lambda>_ w. create_user E name ip dbName dbUser password w))"

definition new_project :: "('q, 'm) env \<Rightarrow> string \<Rightarrow> DatabaseProject" where
  "new_project E name =
     zeroProject\<lparr>Name := name, Engine := ''mysql'', DatabaseName := fst (ProjectIdentifiers name),
       DatabaseUser := snd (ProjectIdentifiers name), SecretPath := Path (e_dir E) name,
       Status := StatusPending\<rparr>"

definition idempotent ::
    "('q, 'm) env \<Rightarrow> string \<Rightarrow> string \<Rightarrow> DatabaseProject \<Rightarrow> ('q, 'm) world \<Rightarrow> CreateResult outcome \<times> ('q, 'm) world" where
  "idempotent E name ip existing w =
     (Ret \<lparr>Project = existing, Idempotent = True\<rparr>,
      auditSuccess E ActionDatabaseCreate name ip ''idempotent'' w)"

definition create_new ::
    "('q, 'm) env \<Rightarrow> string \<Rightarrow> string \<Rightarrow> ('q, 'm) world \<Rightarrow> CreateResult outcome \<times> ('q, 'm) world" where
  "create_new E name ip w =
     on_call (sql_call E (\<lambda>t. CreateProject (e_sql E) t (new_project E name)) w)
       (\<lambda>err w.
          if err = StoreErrConflict then
            (case GetProject (e_sql E) name (w_sql w) of
               Ret existing \<Rightarrow> idempotent E name ip existing w
             | Fail _ \<Rightarrow> (Fail ErrAlreadyExists, w)
             | Panic p \<Rightarrow> (Panic p, w))
          else failed E ActionDatabaseCreate name ip err w)
       (\<lambda>_ w. create_provision E name ip (fst (ProjectIdentifiers name)) (snd (ProjectIdentifiers name)) w)"

definition Service_Create ::
    "('q, 'm) env \<Rightarrow> string \<Rightarrow> string \<Rightarrow> ('q, 'm) world \<Rightarrow> CreateResult outcome \<times> ('q, 'm) world" where
  "Service_Create E name ip w =
     (case ValidateProjectName name of
        Some err \<Rightarrow>
          (Fail ErrInvalidName, auditFailure E ActionDatabaseCreate name ip (errText err) w)
      | None \<Rightarrow>
          (case GetProject (e_sql E) name (w_sql w) of
             Ret existing \<Rightarrow>
               (if Status existing = StatusReady then idempotent E name ip existing w
                else (Fail (ErrText (''project '' @ Quote name @ '' exists with status ''
                        @ Quote (Status existing) @ ''; delete it first'')), w))
           | Fail err \<Rightarrow>
               (if err \<noteq> StoreErrNotFound then (Fail err, w) else create_new E name ip w)
           | Panic p \<Rightarrow> (Panic p, w)))"

section \<open>Rotate\<close>

definition Service_Rotate ::
    "('q, 'm) env \<Rightarrow> string \<Rightarrow> string \<Rightarrow> ('q, 'm) world \<Rightarrow> DatabaseProject outcome \<times> ('q, 'm) world" where
  "Service_Rotate E name ip w =
     (case ValidateProjectName name of
        Some err \<Rightarrow>
          (Fail ErrInvalidName, auditFailure E ActionDatabaseRotate name ip (errText err) w)
      | None \<Rightarrow>
          on_call (GetProject (e_sql E) name (w_sql w), w)
            (\<lambda>err w. if err = StoreErrNotFound then failed E ActionDatabaseRotate name ip ErrNotFound w
                     else (Fail err, w))
            (\<lambda>p w. on_call (draw_call E RandomPassword w) (\<lambda>err w. (Fail err, w))
              (\<lambda>password w. on_call (my_call (SetUserPassword (e_run E) (DatabaseUser p) password) w)
                (failed E ActionDatabaseRotate name ip)
                (\<lambda>_ w. on_call
                  (disk_call (Writer_Write (e_os E) (e_dir E)
                    \<lparr>secName = name, secDatabase = DatabaseName p, secUser = DatabaseUser p,
                     secPassword = password\<rparr>) w)
                  (failed E ActionDatabaseRotate name ip)
                  (\<lambda>_ w. let w = auditSuccess E ActionDatabaseRotate name ip ''rotated'' w
                         in (GetProject (e_sql E) name (w_sql w), w))))))"

section \<open>Delete\<close>

fun joinComma_loop :: "nat \<Rightarrow> string \<Rightarrow> string list \<Rightarrow> string" where
  "joinComma_loop i out [] = out"
| "joinComma_loop i out (p # ps) =
     joinComma_loop (Suc i) ((if 0 < i then out @ '', '' else out) @ p) ps"

definition joinComma :: "string list \<Rightarrow> string" where
  "joinComma parts = joinComma_loop 0 [] parts"

text \<open>A step of the deletion: its error, with a label, joins the others.\<close>

fun attempt :: "string \<Rightarrow> unit outcome \<times> 'w \<Rightarrow> string list \<Rightarrow> (string list, string) sum \<times> 'w" where
  "attempt label (Ret _, w) partial = (Inl partial, w)"
| "attempt label (Fail e, w) partial = (Inl (partial @ [label @ '': '' @ errText e]), w)"
| "attempt label (Panic p, w) partial = (Inr p, w)"

fun then_attempt ::
    "string \<Rightarrow> ('w \<Rightarrow> unit outcome \<times> 'w) \<Rightarrow> (string list, string) sum \<times> 'w \<Rightarrow> (string list, string) sum \<times> 'w" where
  "then_attempt label f (Inl partial, w) = attempt label (f w) partial"
| "then_attempt label f (Inr p, w) = (Inr p, w)"

definition delete_all ::
    "('q, 'm) env \<Rightarrow> string \<Rightarrow> DatabaseProject \<Rightarrow> ('q, 'm) world \<Rightarrow> (string list, string) sum \<times> ('q, 'm) world" where
  "delete_all E name p w =
     then_attempt ''delete_metadata'' (sql_call E (\<lambda>t. DeleteProject (e_sql E) name))
       (then_attempt ''delete_secret'' (disk_call (Writer_Delete (e_os E) (e_dir E) name))
         (then_attempt ''drop_user'' (my_call (DropUser (e_run E) (DatabaseUser p)))
           (then_attempt ''drop_database'' (my_call (DropDatabase (e_run E) (DatabaseName p)))
             (Inl [], w))))"

definition Service_Delete ::
    "('q, 'm) env \<Rightarrow> string \<Rightarrow> string \<Rightarrow> string \<Rightarrow> ('q, 'm) world \<Rightarrow> unit outcome \<times> ('q, 'm) world" where
  "Service_Delete E name confirm ip w =
     (case ValidateProjectName name of
        Some err \<Rightarrow>
          (Fail ErrInvalidName, auditFailure E ActionDatabaseDelete name ip (errText err) w)
      | None \<Rightarrow>
          (if confirm = [] then failed E ActionDatabaseDelete name ip ErrConfirmationNeeded w
           else if confirm \<noteq> name then failed E ActionDatabaseDelete name ip ErrConfirmMismatch w
           else on_call (GetProject (e_sql E) name (w_sql w), w)
             (\<lambda>err w. if err = StoreErrNotFound then failed E ActionDatabaseDelete name ip ErrNotFound w
                      else (Fail err, w))
             (\<lambda>p w.
                case delete_all E name p w of
                  (Inr m, w) \<Rightarrow> (Panic m, w)
                | (Inl partial, w) \<Rightarrow>
                    (if partial \<noteq> [] then
                       failed E ActionDatabaseDelete name ip
                         (ErrText (''partial failure: '' @ joinComma partial)) w
                     else (Ret (), auditSuccess E ActionDatabaseDelete name ip ''deleted'' w)))))"

section \<open>Get and List\<close>

definition Service_Get ::
    "('q, 'm) env \<Rightarrow> string \<Rightarrow> string \<Rightarrow> ('q, 'm) world \<Rightarrow> DatabaseProject outcome \<times> ('q, 'm) world" where
  "Service_Get E name ip w =
     on_call (GetProject (e_sql E) name (w_sql w), w)
       (\<lambda>err w. if err = StoreErrNotFound then failed E ActionDatabaseGet name ip ErrNotFound w
                else (Fail err, w))
       (\<lambda>p w. (Ret p, w))"

definition Service_List :: "('q, 'm) env \<Rightarrow> ('q, 'm) world \<Rightarrow> DatabaseProject list outcome \<times> ('q, 'm) world" where
  "Service_List E w = (ListProjects (e_sql E) (w_sql w), w)"

section \<open>Other projects are left alone\<close>

lemma Join_Cons: "Join (p # ps) sep = (if ps = [] then p else p @ sep @ Join ps sep)"
  by (cases ps) simp_all

lemma joinComma_loop_Join:
  "0 < i \<Longrightarrow> joinComma_loop i out ps = (if ps = [] then out else out @ '', '' @ Join ps '', '')"
proof (induction ps arbitrary: i out)
  case (Cons p ps)
  then show ?case using Cons.IH [of "Suc i" "(out @ '', '') @ p"] by (simp add: Join_Cons)
qed simp

text \<open>The loop is \<open>strings.Join\<close> with a comma and a space.\<close>

lemma joinComma_Join: "joinComma ps = Join ps '', ''"
  by (cases ps) (simp_all add: joinComma_def joinComma_loop_Join Join_Cons)

lemma ids: "fst (ProjectIdentifiers n) = db_of n" "snd (ProjectIdentifiers n) = user_of n"
  by (simp_all add: db_of_def user_of_def)

context service
begin

lemma frame_snd:
  "frame n w w1 \<Longrightarrow> (\<And>r w2. c w1 = (r, w2) \<Longrightarrow> frame n w1 w2) \<Longrightarrow> frame n w (snd (c w1))"
  using frame_trans by (cases "c w1") auto

lemma frame_on_call:
  assumes "frame n w w1" and "\<And>r w2. c = (r, w2) \<Longrightarrow> frame n w1 w2"
    and "\<And>e w2. frame n w w2 \<Longrightarrow> frame n w (snd (h e w2))"
    and "\<And>x w2. frame n w w2 \<Longrightarrow> frame n w (snd (k x w2))"
  shows "frame n w (snd (on_call c h k))"
proof -
  have "frame n w (snd c)" using assms(1,2) frame_trans by (cases c) auto
  then show ?thesis by (rule on_call_induct) (use assms(3,4) in auto)
qed

lemma frame_markError: "frame n w w1 \<Longrightarrow> frame n w (markError E n e w1)"
  unfolding markError_def by (rule frame_snd) (auto intro: frame_UpdateProjectStatus)

lemma frame_auditFailure: "frame n w w1 \<Longrightarrow> frame n w (auditFailure E a m ip x w1)"
  by (rule frame_trans [OF _ audit_frame(2)])

lemma frame_auditSuccess: "frame n w w1 \<Longrightarrow> frame n w (auditSuccess E a m ip x w1)"
  by (rule frame_trans [OF _ audit_frame(1)])

lemma frame_failed: "frame n w w1 \<Longrightarrow> frame n w (snd (failed E a m ip e w1))"
  by (simp add: failed_def frame_auditFailure)

lemmas frame_steps = frame_markError frame_auditFailure frame_auditSuccess frame_failed

lemma frame_create_finish: "frame n w w1 \<Longrightarrow> frame n w (snd (create_finish E n ip w1))"
  unfolding create_finish_def
  by (rule frame_on_call, assumption, erule frame_UpdateProjectStatus, erule frame_failed,
      rule frame_on_call, assumption, simp add: frame_refl, erule frame_failed,
      simp add: frame_auditSuccess)

lemma frame_create_secret:
  assumes "frame n w w1"
  shows "frame n w (snd (create_secret E n ip (db_of n) (user_of n) p w1))"
  unfolding create_secret_def
proof (rule frame_on_call [OF assms])
  show "frame n w1 w2" if "disk_call (Writer_Write (e_os E) (e_dir E)
      \<lparr>secName = n, secDatabase = db_of n, secUser = user_of n, secPassword = p\<rparr>) w1 = (r, w2)" for r w2
    by (rule frame_Writer [OF _ that]) simp
qed (auto intro: frame_failed frame_markError frame_create_finish)

lemma frame_my_snd:
  assumes "frame n w w1"
  shows "frame n w (snd (my_call (DropUser (e_run E) (user_of n)) w1))"
    and "frame n w (snd (my_call (DropDatabase (e_run E) (db_of n)) w1))"
  by (rule frame_snd [OF assms], erule frame_provisioner)+

lemma frame_create_grant:
  assumes "frame n w w1"
  shows "frame n w (snd (create_grant E n ip (db_of n) (user_of n) p w1))"
  unfolding create_grant_def Let_def
  by (rule frame_on_call [OF assms])
     (auto intro: frame_provisioner frame_failed frame_markError frame_my_snd frame_create_secret)

lemma frame_create_user:
  assumes "frame n w w1"
  shows "frame n w (snd (create_user E n ip (db_of n) (user_of n) p w1))"
  unfolding create_user_def Let_def
  by (rule frame_on_call [OF assms])
     (auto intro: frame_provisioner frame_failed frame_markError frame_my_snd frame_create_grant)

lemma frame_create_provision:
  assumes "frame n w w1"
  shows "frame n w (snd (create_provision E n ip (db_of n) (user_of n) w1))"
  unfolding create_provision_def
proof (rule frame_on_call [OF assms])
  fix p w2 assume f: "frame n w w2"
  show "frame n w (snd (on_call (my_call (EnsureDatabase (e_run E) (db_of n)) w2)
      (\<lambda>err w. failed E ActionDatabaseCreate n ip err (markError E n err w))
      (\<lambda>_ w. create_user E n ip (db_of n) (user_of n) p w)))"
    by (rule frame_on_call [OF f])
       (auto intro: frame_provisioner frame_failed frame_markError frame_create_user)
qed (auto intro: frame_draw frame_markError)

lemma frame_Create: "frame n w (snd (Service_Create E n ip w))"
proof (cases "ValidateProjectName n")
  case None
  have new: "frame n w (snd (create_new E n ip w))"
    unfolding create_new_def ids
  proof (rule frame_on_call [OF frame_refl])
    show "frame n w w2" if "sql_call E (\<lambda>t. CreateProject (e_sql E) t (new_project E n)) w = (r, w2)" for r w2
      by (rule frame_CreateProject [OF None _ _ _ that]) (simp_all add: new_project_def ids)
  qed (auto simp: idempotent_def intro: frame_steps frame_create_provision split: outcome.splits)
  with None show ?thesis
    by (simp add: Service_Create_def idempotent_def frame_refl audit_frame split: outcome.splits)
next
  case (Some e)
  then show ?thesis by (simp add: Service_Create_def audit_frame)
qed

lemma row_ids:
  assumes "rows_ok (view (w_sql w))" and "GetProject (e_sql E) n (w_sql w) = Ret p"
  shows "DatabaseName p = db_of n" "DatabaseUser p = user_of n"
proof -
  from db.repo.get_ret [OF assms(2)] obtain r where "select_project n (view (w_sql w)) = Some r"
    "p = scanProject r"
    by (auto simp: project_map_def)
  moreover from this(1) have "r \<in> set (projects (view (w_sql w)))" "p_name r = n"
    by (auto simp: select_project_def find_Some_iff)
  ultimately show "DatabaseName p = db_of n" "DatabaseUser p = user_of n"
    using assms(1) by (auto simp: rows_ok_def scanProject_def)
qed

lemma frame_Rotate:
  assumes "rows_ok (view (w_sql w))"
  shows "frame n w (snd (Service_Rotate E n ip w))"
proof (cases "ValidateProjectName n = None \<and> (\<exists>p. GetProject (e_sql E) n (w_sql w) = Ret p)")
  case True
  then obtain p where v: "ValidateProjectName n = None" and g: "GetProject (e_sql E) n (w_sql w) = Ret p"
    by blast
  note ids = row_ids [OF assms g]
  show ?thesis
    unfolding Service_Rotate_def v option.simps g on_call.simps ids Let_def
  proof (rule frame_on_call [OF frame_refl])
    fix pw w2 assume f: "frame n w w2"
    show "frame n w (snd (on_call (my_call (SetUserPassword (e_run E) (user_of n) pw) w2)
      (failed E ActionDatabaseRotate n ip)
      (\<lambda>_ w. on_call (disk_call (Writer_Write (e_os E) (e_dir E)
           \<lparr>secName = n, secDatabase = db_of n, secUser = user_of n, secPassword = pw\<rparr>) w)
         (failed E ActionDatabaseRotate n ip)
         (\<lambda>_ w. (GetProject (e_sql E) n (w_sql (auditSuccess E ActionDatabaseRotate n ip ''rotated'' w)),
            auditSuccess E ActionDatabaseRotate n ip ''rotated'' w)))))"
      by (intro frame_on_call [OF f] frame_on_call)
         (auto intro: frame_provisioner frame_failed frame_auditSuccess elim: frame_Writer [rotated])
  qed (auto intro: frame_draw)
next
  case False
  then show ?thesis
    by (cases "GetProject (e_sql E) n (w_sql w)")
       (auto simp: Service_Rotate_def frame_refl audit_frame failed_def split: option.splits)
qed

lemma frame_then_attempt:
  assumes "frame n w (snd c)" and "\<And>w1 r w2. f w1 = (r, w2) \<Longrightarrow> frame n w1 w2"
  shows "frame n w (snd (then_attempt l f c))"
proof (cases c)
  case (Pair x w1)
  show ?thesis
  proof (cases x)
    case (Inl ps)
    obtain r w2 where "f w1 = (r, w2)" by (metis surj_pair)
    with Pair Inl assms frame_trans [of n w w1 w2] show ?thesis by (cases r) auto
  next
    case (Inr p)
    with Pair assms show ?thesis by simp
  qed
qed

lemma frame_delete_all:
  assumes "DatabaseName p = db_of n" "DatabaseUser p = user_of n"
  shows "frame n w (snd (delete_all E n p w))"
  unfolding delete_all_def assms
  by (rule frame_then_attempt)+
     (auto intro: frame_refl frame_provisioner frame_Writer_Delete frame_DeleteProject)

lemma frame_Delete:
  assumes "rows_ok (view (w_sql w))"
  shows "frame n w (snd (Service_Delete E n c ip w))"
proof (cases "GetProject (e_sql E) n (w_sql w)")
  case (Ret p)
  obtain r w1 where d: "delete_all E n p w = (r, w1)" by (metis surj_pair)
  with frame_delete_all [OF row_ids [OF assms Ret], of w] have "frame n w w1" by simp
  with Ret d show ?thesis
    by (auto simp: Service_Delete_def audit_frame failed_def intro: frame_steps split: option.splits sum.splits)
qed (auto simp: Service_Delete_def audit_frame failed_def frame_refl split: option.splits)

end

end
