(* ===== verification/Lifecycle.thy ===== *)
theory Lifecycle
  imports Provision
begin

text \<open>
  What the operations of \<open>internal/provision\<close> achieve, on every branch: a project that was
  created is complete in the metadata, in MySQL and on disk; an existing one is returned
  as it is; rotation and deletion, their guards and their partial failures; and no operation
  touches another project.
\<close>

section \<open>The statements of a creation\<close>

definition create_stmts :: "string \<Rightarrow> string \<Rightarrow> bool \<Rightarrow> my_stmt list" where
  "create_stmts n p a =
     [SCreateDatabase (db_of n)] @ create_user_stmts (user_of n) p @ grant_stmts a (db_of n) (user_of n)"

lemma create_stmts_effect:
  "db_of n \<in> databases (effects (create_stmts n p a) c)"
  "h \<in> set hosts \<Longrightarrow> accounts (effects (create_stmts n p a) c) (user_of n, h)
     = Some (case accounts c (user_of n, h) of None \<Rightarrow> p | Some old \<Rightarrow> old)"
  "h \<in> set hosts \<Longrightarrow> (''SELECT'', db_of n, user_of n, h) \<in> grants (effects (create_stmts n p a) c)"
  by (auto simp: create_stmts_def stmts_defs privs_def Let_def split: option.splits)

lemma like_refl: "list_all ident_char d \<Longrightarrow> like d d"
  by (simp add: like_ident list_all2_same)

lemma db_ident: "valid_name n \<Longrightarrow> list_all ident_char (db_of n)"
  using valid_identifiers(1) [of n] by (simp add: ident_iff db_of_def)

text \<open>What a creation leaves in MySQL: the database, and on both hosts an account that may use it,
  with the password \<open>pw\<close> unless the account was there before.\<close>

definition provisioned :: "string \<Rightarrow> string \<Rightarrow> catalog \<Rightarrow> catalog \<Rightarrow> bool" where
  "provisioned n pw c c' \<longleftrightarrow>
     db_of n \<in> databases c'
   \<and> (\<forall>h \<in> set hosts. may_use c' (user_of n, h) (db_of n)
        \<and> accounts c' (user_of n, h) = Some (case accounts c (user_of n, h) of None \<Rightarrow> pw | Some old \<Rightarrow> old))"

lemma create_stmts_may_use:
  "valid_name n \<Longrightarrow> h \<in> set hosts \<Longrightarrow> may_use (effects (create_stmts n p a) c) (user_of n, h) (db_of n)"
  unfolding may_use_def by (rule bexI [OF _ create_stmts_effect(3)]) (simp_all add: like_refl db_ident)

lemma create_stmts_provisioned: "valid_name n \<Longrightarrow> provisioned n p c (effects (create_stmts n p a) c)"
  by (simp add: provisioned_def create_stmts_effect(1,2) create_stmts_may_use)

definition secret_of :: "string \<Rightarrow> string \<Rightarrow> Secret" where
  "secret_of n p = \<lparr>secName = n, secDatabase = db_of n, secUser = user_of n, secPassword = p\<rparr>"

context service
begin

section \<open>Success, stage by stage\<close>

lemma get_row: "GetProject (e_sql E) n (w_sql w) = Ret p \<Longrightarrow> projs w n = Some p"
  by (rule db.repo.get_ret)

lemma failed_not_ret [simp]: "fst (failed E a n ip e w) \<noteq> Ret x"
  by (simp add: failed_def)

lemma status_call_ret:
  assumes "sql_call E (\<lambda>t. UpdateProjectStatus (e_sql E) t n st le) w = (Ret (), w')"
  shows "\<exists>u. projs w' = (projs w)(n := map_option (\<lambda>p. p\<lparr>Status := st, LastError := le, UpdatedAt := u\<rparr>) (projs w n))"
    and "w_my w' = w_my w" and "w_disk w' = w_disk w"
proof -
  obtain q where "UpdateProjectStatus (e_sql E) (e_time E (w_ticks w)) n st le (w_sql w) = (Ret (), q)"
    "w' = w\<lparr>w_sql := q, w_ticks := Suc (w_ticks w)\<rparr>"
    using assms by (auto simp: sql_call_def split: prod.splits)
  with db.repo.status_ret [OF this(1)] show
    "\<exists>u. projs w' = (projs w)(n := map_option (\<lambda>p. p\<lparr>Status := st, LastError := le, UpdatedAt := u\<rparr>) (projs w n))"
    "w_my w' = w_my w" "w_disk w' = w_disk w" by simp_all
qed

lemma create_finish_ret:
  assumes "create_finish E n ip w = (Ret res, w')" and "projs w n = Some p"
  shows "\<exists>u. projs w' n = Some (p\<lparr>Status := StatusReady, LastError := [], UpdatedAt := u\<rparr>)
      \<and> Project res = p\<lparr>Status := StatusReady, LastError := [], UpdatedAt := u\<rparr>"
    and "\<not> Idempotent res" and "w_my w' = w_my w" and "files (w_disk w') = files (w_disk w)"
proof -
  from assms(1) have "\<exists>w1. sql_call E (\<lambda>t. UpdateProjectStatus (e_sql E) t n StatusReady []) w = (Ret (), w1)
      \<and> on_call (GetProject (e_sql E) n (w_sql w1), w1) (failed E ActionDatabaseCreate n ip)
         (\<lambda>final w. (Ret \<lparr>Project = final, Idempotent = False\<rparr>,
            auditSuccess E ActionDatabaseCreate n ip ''created'' w)) = (Ret res, w')"
    unfolding create_finish_def by (auto dest!: on_call_Ret)
  then obtain w1 f where s: "sql_call E (\<lambda>t. UpdateProjectStatus (e_sql E) t n StatusReady []) w = (Ret (), w1)"
    and g: "GetProject (e_sql E) n (w_sql w1) = Ret f"
    and r: "res = \<lparr>Project = f, Idempotent = False\<rparr>" "w' = auditSuccess E ActionDatabaseCreate n ip ''created'' w1"
    by (auto dest!: on_call_Ret)
  have u: "unchanged w1 w'" by (simp add: r)
  from status_call_ret [OF s] assms(2) obtain x where
    x: "projs w1 n = Some (p\<lparr>Status := StatusReady, LastError := [], UpdatedAt := x\<rparr>)" by auto
  with db.repo.get_ret [OF g] unchanged_projs [OF u] r
  show "\<exists>u. projs w' n = Some (p\<lparr>Status := StatusReady, LastError := [], UpdatedAt := u\<rparr>)
      \<and> Project res = p\<lparr>Status := StatusReady, LastError := [], UpdatedAt := u\<rparr>" by auto
  show "\<not> Idempotent res" by (simp add: r)
  show "w_my w' = w_my w" using u status_call_ret [OF s] by (simp add: unchanged_def)
  show "files (w_disk w') = files (w_disk w)"
    using unchanged_files [OF u] status_call_ret [OF s] by (simp add: fun_eq_iff)
qed

text \<open>\<open>complete n p a c w'\<close>: the row is ready, MySQL went from the catalog \<open>c\<close> through the
  statements \<open>sts\<close>, and the env file holds the password \<open>p\<close>.\<close>

definition complete :: "string \<Rightarrow> string \<Rightarrow> my_stmt list \<Rightarrow> catalog \<Rightarrow> CreateResult \<Rightarrow> ('q, 'm) world \<Rightarrow> bool" where
  "complete n p sts c res w' \<longleftrightarrow>
     projs w' n = Some (Project res) \<and> Status (Project res) = StatusReady
   \<and> DatabaseName (Project res) = db_of n \<and> DatabaseUser (Project res) = user_of n
   \<and> SecretPath (Project res) = Path (e_dir E) n \<and> LastError (Project res) = [] \<and> \<not> Idempotent res
   \<and> cat (w_my w') = effects sts c
   \<and> files (w_disk w') (Path (e_dir E) n) = Some (env_file (secret_of n p))"

definition pending :: "string \<Rightarrow> ('q, 'm) world \<Rightarrow> bool" where
  "pending n w \<longleftrightarrow> (\<exists>p. projs w n = Some p \<and> DatabaseName p = db_of n \<and> DatabaseUser p = user_of n
     \<and> SecretPath p = Path (e_dir E) n)"

lemma create_secret_ret:
  assumes "create_secret E n ip (db_of n) (user_of n) p w = (Ret res, w')" and "pending n w"
  shows "complete n p [] (cat (w_my w)) res w'"
proof -
  from assms(1) obtain x w1 where
    d: "disk_call (Writer_Write (e_os E) (e_dir E) (secret_of n p)) w = (Ret x, w1)"
    and f: "create_finish E n ip w1 = (Ret res, w')"
    unfolding create_secret_def secret_of_def by (auto dest!: on_call_Ret)
  from d obtain d' where w1: "w1 = w\<lparr>w_disk := d'\<rparr>"
    and wr: "Writer_Write (e_os E) (e_dir E) (secret_of n p) (w_disk w) = (Ret x, d')"
    by (auto simp: disk_call_def split: prod.splits)
  from Writer_Write_final [OF wr] have "files d' (Path (e_dir E) n) = Some (env_file (secret_of n p))"
    by (simp add: secret_of_def)
  with w1 have fin: "files (w_disk w1) (Path (e_dir E) n) = Some (env_file (secret_of n p))" by simp
  from assms(2) w1 obtain r where r: "projs w1 n = Some r" "DatabaseName r = db_of n"
    "DatabaseUser r = user_of n" "SecretPath r = Path (e_dir E) n"
    by (auto simp: pending_def)
  note c = create_finish_ret [OF f r(1)]
  from c fin r w1 show ?thesis by (auto simp: complete_def)
qed

lemma my_call_ret:
  assumes "my_call f w = (Ret (), w1)"
    and "\<And>m r m'. f m = (r, m') \<Longrightarrow> my.progress sts m r m'"
  shows "cat (w_my w1) = effects sts (cat (w_my w))" and "projs w1 = projs w" and "w_disk w1 = w_disk w"
proof -
  from assms(1) obtain m where m: "f (w_my w) = (Ret (), m)" "w1 = w\<lparr>w_my := m\<rparr>"
    by (auto simp: my_call_def split: prod.splits)
  with my.progress_ret [OF assms(2) [OF m(1)]] show "cat (w_my w1) = effects sts (cat (w_my w))"
    "projs w1 = projs w" "w_disk w1 = w_disk w" by simp_all
qed

lemma complete_effects:
  "complete n p sts (cat (w_my w1)) res w' \<Longrightarrow> cat (w_my w1) = effects sts0 c \<Longrightarrow> complete n p (sts0 @ sts) c res w'"
  by (simp add: complete_def)

lemma create_grant_ret:
  assumes "create_grant E n ip (db_of n) (user_of n) p w = (Ret res, w')" and "pending n w"
  shows "complete n p (grant_stmts (e_allowDrop E) (db_of n) (user_of n)) (cat (w_my w)) res w'"
proof -
  from assms(1) obtain w1 where
    g: "my_call (GrantProjectPrivileges (e_run E) (db_of n) (user_of n) (e_allowDrop E)) w = (Ret (), w1)"
    and s: "create_secret E n ip (db_of n) (user_of n) p w1 = (Ret res, w')"
    unfolding create_grant_def by (auto dest!: on_call_Ret)
  note m = my_call_ret [OF g my.Grant_progress]
  from assms(2) m(2) have "pending n w1" by (simp add: pending_def)
  from complete_effects [OF create_secret_ret [OF s this] m(1)] show ?thesis by simp
qed

lemma create_user_ret:
  assumes "create_user E n ip (db_of n) (user_of n) p w = (Ret res, w')" and "pending n w"
  shows "complete n p (create_user_stmts (user_of n) p @ grant_stmts (e_allowDrop E) (db_of n) (user_of n))
    (cat (w_my w)) res w'"
proof -
  from assms(1) obtain w1 where
    g: "my_call (EnsureUser (e_run E) (user_of n) p) w = (Ret (), w1)"
    and s: "create_grant E n ip (db_of n) (user_of n) p w1 = (Ret res, w')"
    unfolding create_user_def by (auto dest!: on_call_Ret)
  note m = my_call_ret [OF g my.EnsureUser_progress]
  from assms(2) m(2) have "pending n w1" by (simp add: pending_def)
  from complete_effects [OF create_grant_ret [OF s this] m(1)] show ?thesis .
qed

lemma create_provision_ret:
  assumes "create_provision E n ip (db_of n) (user_of n) w = (Ret res, w')" and "pending n w"
  shows "\<exists>p. RandomPassword (e_entropy E) (w_draws w) = (Ret p, w_draws w + 2)
    \<and> complete n p (create_stmts n p (e_allowDrop E)) (cat (w_my w)) res w'"
proof -
  from assms(1) obtain p w1 where r: "draw_call E RandomPassword w = (Ret p, w1)"
    and k: "on_call (my_call (EnsureDatabase (e_run E) (db_of n)) w1)
         (\<lambda>err w. failed E ActionDatabaseCreate n ip err (markError E n err w))
         (\<lambda>_ w. create_user E n ip (db_of n) (user_of n) p w) = (Ret res, w')"
    unfolding create_provision_def by (auto dest!: on_call_Ret)
  from k obtain w2 where d: "my_call (EnsureDatabase (e_run E) (db_of n)) w1 = (Ret (), w2)"
    and u: "create_user E n ip (db_of n) (user_of n) p w2 = (Ret res, w')"
    by (auto dest!: on_call_Ret)
  from r obtain j where j: "RandomPassword (e_entropy E) (w_draws w) = (Ret p, j)" "w1 = w\<lparr>w_draws := j\<rparr>"
    by (auto simp: draw_call_def split: prod.splits)
  note m = my_call_ret [OF d my.EnsureDatabase_progress]
  from assms(2) m(2) j have "pending n w2" by (simp add: pending_def)
  from complete_effects [OF create_user_ret [OF u this] m(1)] j
  have "complete n p (create_stmts n p (e_allowDrop E)) (cat (w_my w)) res w'"
    by (simp add: create_stmts_def)
  moreover from j(1) have "j = w_draws w + 2"
    by (auto simp: RandomPassword_def Let_def split: sum.splits if_splits)
  ultimately show ?thesis using j by auto
qed

lemma Create_ret:
  assumes "Service_Create E n ip w = (Ret res, w')"
  shows "valid_name n \<and>
    (Idempotent res \<and> unchanged w w' \<and> projs w n = Some (Project res)
     \<or> projs w n = None \<and> (\<exists>p. RandomPassword (e_entropy E) (w_draws w) = (Ret p, w_draws w + 2)
          \<and> complete n p (create_stmts n p (e_allowDrop E)) (cat (w_my w)) res w'))"
proof -
  from assms have v: "ValidateProjectName n = None"
    by (auto simp: Service_Create_def split: option.splits)
  show ?thesis
  proof (cases "GetProject (e_sql E) n (w_sql w)")
    case (Ret p)
    with assms v have "Status p = StatusReady" "idempotent E n ip p w = (Ret res, w')"
      by (auto simp: Service_Create_def split: if_splits)
    with v db.repo.get_ret [OF Ret] show ?thesis by (auto simp: idempotent_def)
  next
    case (Fail e)
    with assms v have e: "e = StoreErrNotFound" and c: "create_new E n ip w = (Ret res, w')"
      by (auto simp: Service_Create_def split: if_splits)
    have none: "projs w n = None" using db.repo.get_missing Fail e by simp
    obtain r w1 where s: "sql_call E (\<lambda>t. CreateProject (e_sql E) t (new_project E n)) w = (r, w1)"
      by (metis surj_pair)
    then obtain q where q: "CreateProject (e_sql E) (e_time E (w_ticks w)) (new_project E n) (w_sql w) = (r, q)"
      "w1 = w\<lparr>w_sql := q, w_ticks := Suc (w_ticks w)\<rparr>"
      by (auto simp: sql_call_def split: prod.splits)
    have np: "Name (new_project E n) = n" by (simp add: new_project_def)
    show ?thesis
    proof (cases r)
      case (Ret p)
      with c s have k: "create_provision E n ip (db_of n) (user_of n) w1 = (Ret res, w')"
        by (simp add: create_new_def ids)
      from db.repo.create_ret [of _ _ _ p q] q Ret np have "pending n w1"
        by (fastforce simp: pending_def new_project_def ids)
      from create_provision_ret [OF k this] q v none show ?thesis by simp
    next
      case (Fail e')
      have "e' \<noteq> StoreErrConflict"
      proof
        assume "e' = StoreErrConflict"
        with q(1) Fail have "CreateProject (e_sql E) (e_time E (w_ticks w)) (new_project E n) (w_sql w)
            = (Fail StoreErrConflict, q)" by simp
        from db.repo.create_conflict [OF this] np none show False by simp
      qed
      with c s Fail show ?thesis by (simp add: create_new_def failed_def)
    next
      case (Panic m)
      with c s show ?thesis by (simp add: create_new_def)
    qed
  next
    case (Panic m)
    with assms v show ?thesis by (simp add: Service_Create_def)
  qed
qed

end

section \<open>Creation\<close>

text \<open>C1: a creation that returns a new project has found no row for the name and leaves
  everything in place: a ready row with the project's identifiers, the database, an account
  on both hosts with the granted privileges, and the env file, complete and with mode 0600.
  The file holds the freshly drawn password, and so do the accounts, except that an account
  that was already there keeps its old one.\<close>

theorem create_provisions:
  assumes "service E view cat"
    and "Service_Create E n ip w = (Ret res, w')" and "\<not> Idempotent res"
  shows "valid_name n \<and> project_map (view (w_sql w)) n = None
    \<and> project_map (view (w_sql w')) n = Some (Project res) \<and> Status (Project res) = StatusReady
    \<and> db_of n \<in> databases (cat (w_my w'))
    \<and> (\<exists>p. RandomPassword (e_entropy E) (w_draws w) = (Ret p, w_draws w + 2)
        \<and> files (w_disk w') (Path (e_dir E) n) = Some \<lparr>content = renderEnv (secret_of n p), mode = m0600\<rparr>
        \<and> (\<forall>h. h \<notin> set hosts \<or> may_use (cat (w_my w')) (user_of n, h) (db_of n)
             \<and> accounts (cat (w_my w')) (user_of n, h)
               = Some (case accounts (cat (w_my w)) (user_of n, h) of None \<Rightarrow> p | Some old \<Rightarrow> old)))"
proof -
  from service.Create_ret [OF assms(1,2)] assms(3) obtain p where
    v: "valid_name n" and none: "project_map (view (w_sql w)) n = None"
    and p: "RandomPassword (e_entropy E) (w_draws w) = (Ret p, w_draws w + 2)"
    and c: "service.complete E view cat n p (create_stmts n p (e_allowDrop E)) (cat (w_my w)) res w'"
    by blast
  from c have cat: "cat (w_my w') = effects (create_stmts n p (e_allowDrop E)) (cat (w_my w))"
    and row: "project_map (view (w_sql w')) n = Some (Project res)" "Status (Project res) = StatusReady"
    and fin: "files (w_disk w') (Path (e_dir E) n) = Some (env_file (secret_of n p))"
    by (simp_all add: service.complete_def [OF assms(1)])
  have "may_use (cat (w_my w')) (user_of n, h) (db_of n)" if "h \<in> set hosts" for h
    unfolding may_use_def cat
    by (rule bexI [OF _ create_stmts_effect(3) [OF that]]) (simp add: like_refl db_ident v)
  with v none p row fin show ?thesis
    unfolding cat by (auto simp: create_stmts_effect env_file_def)
qed

text \<open>On the reference environment nothing fails, so a creation succeeds.\<close>

abbreviation ref_row :: "string \<Rightarrow> (tables, catalog) world \<Rightarrow> bool" where
  "ref_row n w \<equiv> project_map (w_sql w) n \<noteq> None"

lemma ref_env_simps [simp]:
  "e_sql reference_env = table_engine" "e_run reference_env = ref_run" "e_os reference_env = no_fault"
  "e_dir reference_env = ''/s''" "e_entropy reference_env = zero_entropy"
  "e_allowDrop reference_env = False"
  by (simp_all add: reference_env_def)

lemma ref_get: "project_map t n = Some p \<Longrightarrow> GetProject table_engine n t = Ret p"
  by (auto simp: GetProject_def table_engine_def project_map_def)

lemma ref_get_none: "project_map t n = None \<Longrightarrow> GetProject table_engine n t = Fail StoreErrNotFound"
  by (auto simp: GetProject_def table_engine_def project_map_def)

lemma ref_status:
  "sql_call reference_env (\<lambda>t. UpdateProjectStatus table_engine t n st le) w
   = (Ret (), w\<lparr>w_sql := cmd_effect (UpdateStatus st le (formatNano (e_time reference_env (w_ticks w))) n) (w_sql w),
        w_ticks := Suc (w_ticks w)\<rparr>)"
  by (simp add: sql_call_def UpdateProjectStatus_def table_engine_def table_exec_def del: cmd_effect.simps)

lemma ref_create_finish:
  assumes "ref_row n w"
  shows "\<exists>res w'. create_finish reference_env n ip w = (Ret res, w') \<and> \<not> Idempotent res"
proof -
  from assms obtain p where
    "project_map (cmd_effect (UpdateStatus StatusReady [] (formatNano (e_time reference_env (w_ticks w))) n) (w_sql w)) n
      = Some p"
    unfolding project_map_status by auto
  from ref_get [OF this] show ?thesis by (simp add: create_finish_def ref_status del: cmd_effect.simps)
qed

lemma valid_file_names:
  assumes "valid_name n" "length n \<le> 27"
  shows "validateIdentifier n = None" "validateIdentifier (db_of n) = None" "validateIdentifier (user_of n) = None"
proof -
  show "validateIdentifier n = None"
    using assms by (auto simp: validateIdentifier_iff valid_name_iff list_all_iff name_char_def file_char_def)
  have "list_all file_char (db_of n)" "list_all file_char (user_of n)"
    using identifier_chars [OF assms(1)] by (auto simp: list_all_iff file_char_def db_of_def user_of_def)
  then show "validateIdentifier (db_of n) = None" "validateIdentifier (user_of n) = None"
    using assms(2) by (simp_all add: validateIdentifier_iff db_of_def user_of_def)
qed

lemma ref_create_secret:
  assumes "valid_name n" "length n \<le> 27" "p \<noteq> []" "ref_row n w"
    and "\<And>r. files (w_disk w) (temp_path ''/s'' (''.'' @ n @ ''.'') ''.tmp'' r) = None"
  shows "\<exists>res w'. create_secret reference_env n ip (db_of n) (user_of n) p w = (Ret res, w') \<and> \<not> Idempotent res"
proof -
  let ?s = "\<lparr>secName = n, secDatabase = db_of n, secUser = user_of n, secPassword = p\<rparr>"
  from no_fault_Write [of ?s "w_disk w" "''/s''"] valid_file_names [OF assms(1,2)] assms(3,5)
  obtain d where "Writer_Write no_fault ''/s'' ?s (w_disk w) = (Ret (Path ''/s'' n), d)" by auto
  then have "create_secret reference_env n ip (db_of n) (user_of n) p w
      = create_finish reference_env n ip (w\<lparr>w_disk := d\<rparr>)"
    by (simp add: create_secret_def disk_call_def)
  with ref_create_finish [of "w\<lparr>w_disk := d\<rparr>" n ip] assms(4) show ?thesis by simp
qed

lemma ref_create_mysql:
  assumes v: "valid_name n" "length n \<le> 27" and p: "isSafePasswordLiteral p"
    and w: "ref_row n w" "\<And>r. files (w_disk w) (temp_path ''/s'' (''.'' @ n @ ''.'') ''.tmp'' r) = None"
  shows "\<exists>res w'. create_user reference_env n ip (db_of n) (user_of n) p w = (Ret res, w') \<and> \<not> Idempotent res"
proof -
  let ?c1 = "effects (create_user_stmts (user_of n) p) (w_my w)"
  let ?c2 = "effects (grant_stmts False (db_of n) (user_of n)) ?c1"
  have i: "ident (db_of n)" "ident (user_of n)" using valid_identifiers [OF v(1)] by (simp_all add: db_of_def user_of_def)
  have "length (user_of n) \<le> 32" using v(2) by (simp add: user_of_def)
  then have en: "enabled_seq (create_user_stmts (user_of n) p) (w_my w)"
    "enabled_seq (grant_stmts False (db_of n) (user_of n)) ?c1"
    by (simp_all add: stmts_defs)
  have "create_user reference_env n ip (db_of n) (user_of n) p w
      = create_secret reference_env n ip (db_of n) (user_of n) p (w\<lparr>w_my := ?c2\<rparr>)"
    by (simp add: create_user_def create_grant_def my_call_def ref_EnsureUser [OF i(2) p en(1)]
        ref_Grant [OF i en(2)])
  moreover have "p \<noteq> []" using p by (auto simp: isSafePasswordLiteral_def)
  ultimately show ?thesis
    using ref_create_secret [OF v, where p = p and w = "w\<lparr>w_my := ?c2\<rparr>" and ip = ip] w by simp
qed

lemma ref_CreateProject:
  "Name p \<notin> p_name ` set (projects t) \<Longrightarrow> \<exists>x q. CreateProject table_engine r p t = (Ret x, q)"
  by (simp add: CreateProject_def table_engine_def table_exec_def Let_def del: cmd_effect.simps)

lemma ref_Create:
  assumes v: "valid_name n" "length n \<le> 27" and none: "project_map (w_sql w) n = None"
    and tmp: "\<And>r. files (w_disk w) (temp_path ''/s'' (''.'' @ n @ ''.'') ''.tmp'' r) = None"
  shows "\<exists>res w'. Service_Create reference_env n ip w = (Ret res, w') \<and> \<not> Idempotent res"
proof -
  have ok: "n \<notin> p_name ` set (projects (w_sql w))" using none by (simp add: project_map_None)
  obtain w1 x where c: "sql_call reference_env (\<lambda>t. CreateProject table_engine t (new_project reference_env n)) w
      = (Ret x, w1)" "w_my w1 = w_my w" "w_disk w1 = w_disk w" "w_draws w1 = w_draws w"
    using ref_CreateProject [of "new_project reference_env n" "w_sql w" "e_time reference_env (w_ticks w)"] ok
    by (auto simp: sql_call_def new_project_def)
  then obtain q where "CreateProject table_engine (e_time reference_env (w_ticks w)) (new_project reference_env n) (w_sql w)
      = (Ret x, q)" "w_sql w1 = q"
    by (auto simp: sql_call_def split: prod.splits)
  from reference_sql.repo.create_ret [OF this(1)] this(2) have row: "ref_row n w1"
    by (auto simp: new_project_def)
  let ?p = "''aA0!AAAAAAAAAAAAAAAAAAAAAAAAAAAA''"
  have safe: "isSafePasswordLiteral ?p" by (rule generated_password_safe [OF zero_password])
  have i: "ident (db_of n)" "length (db_of n) \<le> 64"
    using valid_identifiers [OF v(1)] v(2) by (simp_all add: db_of_def)
  let ?w2 = "w1\<lparr>w_draws := w_draws w + 2, w_my := stmt_effect (SCreateDatabase (db_of n)) (w_my w1)\<rparr>"
  have "Service_Create reference_env n ip w
      = create_user reference_env n ip (db_of n) (user_of n) ?p ?w2"
    using v(1) c(1,4) by (simp add: Service_Create_def ref_get_none [OF none] create_new_def ids
        create_provision_def draw_call_def zero_password_at my_call_def ref_EnsureDatabase [OF i])
  with ref_create_mysql [OF v safe, where w = ?w2 and ip = ip] row tmp c(3) show ?thesis by simp
qed

theorem create_provisions_witness:
  "\<exists>res w'. Service_Create reference_env ''app'' ''ip'' fresh_world = (Ret res, w')
    \<and> Status (Project res) = StatusReady \<and> db_of ''app'' \<in> databases (w_my w')"
proof -
  have "valid_name ''app''" by (simp add: valid_name_iff name_char_def char_class_defs)
  moreover have "project_map (w_sql fresh_world) ''app'' = None"
    by (simp add: fresh_world_def empty_tables_def project_map_def select_project_def)
  ultimately obtain res w' where c: "Service_Create reference_env ''app'' ''ip'' fresh_world = (Ret res, w')"
    and i: "\<not> Idempotent res"
    using ref_Create [of "''app''" fresh_world "''ip''"] by (auto simp: fresh_world_def empty_disk_def)
  from create_provisions [OF reference_service.service_axioms c i] c show ?thesis by blast
qed

text \<open>Creating a project that exists changes nothing but the audit trail: a ready one is
  returned as it is, and one in another state is refused.\<close>

theorem create_existing:
  assumes "service E view cat" and "valid_name n" and "GetProject (e_sql E) n (w_sql w) = Ret p"
  shows "project_map (view (w_sql w)) n = Some p
    \<and> only_audited view w (snd (Service_Create E n ip w))
    \<and> (if Status p = StatusReady
       then fst (Service_Create E n ip w) = Ret \<lparr>Project = p, Idempotent = True\<rparr>
       else \<exists>e. Service_Create E n ip w = (Fail (ErrText e), w))"
proof -
  have "project_map (view (w_sql w)) n = Some p"
    by (rule service.get_row [OF assms(1,3)])
  moreover have "only_audited view w w"
    by (rule service.unchanged_refl [OF assms(1)])
  moreover have "only_audited view w (auditSuccess E ActionDatabaseCreate n ip ''idempotent'' w)"
    by (rule service.audit_unchanged [OF assms(1)])
  ultimately show ?thesis using assms(2,3) by (simp add: Service_Create_def idempotent_def)
qed

theorem create_existing_witness:
  "\<exists>res w1 w2. Service_Create reference_env ''app'' ''ip'' fresh_world = (Ret res, w1)
    \<and> Service_Create reference_env ''app'' ''ip'' w1 = (Ret \<lparr>Project = Project res, Idempotent = True\<rparr>, w2)
    \<and> w_my w2 = w_my w1"
proof -
  have v: "valid_name ''app''" by (simp add: valid_name_iff name_char_def char_class_defs)
  moreover have "project_map (w_sql fresh_world) ''app'' = None"
    by (simp add: fresh_world_def empty_tables_def project_map_def select_project_def)
  ultimately obtain res w1 where c: "Service_Create reference_env ''app'' ''ip'' fresh_world = (Ret res, w1)"
    and i: "\<not> Idempotent res"
    using ref_Create [of "''app''" fresh_world "''ip''"] by (auto simp: fresh_world_def empty_disk_def)
  from reference_service.Create_ret [OF c] i have
    r: "project_map (w_sql w1) ''app'' = Some (Project res)" "Status (Project res) = StatusReady"
    by (auto simp: reference_service.complete_def)
  from ref_get [OF r(1)] have "GetProject (e_sql reference_env) ''app'' (w_sql w1) = Ret (Project res)" by simp
  from create_existing [OF reference_service.service_axioms v this, of "''ip''"] r(2) c
  show ?thesis
    by (cases "Service_Create reference_env ''app'' ''ip'' w1") (auto simp: only_audited_def)
qed

section \<open>A ready project is a complete one\<close>

context service
begin

definition not_ready :: "string \<Rightarrow> ('q, 'm) world \<Rightarrow> bool" where
  "not_ready n w \<longleftrightarrow> (\<forall>p. projs w n = Some p \<longrightarrow> Status p \<noteq> StatusReady)"

lemma not_ready_same: "projs w' = projs w \<Longrightarrow> not_ready n w' = not_ready n w"
  by (simp add: not_ready_def)

lemma not_ready_audit [simp]: "not_ready n (auditFailure E a m ip x w) = not_ready n w"
  by (rule not_ready_same) (rule unchanged_projs, simp)

lemma not_ready_markError:
  assumes "not_ready n w"
  shows "not_ready n (markError E n e w)"
proof -
  obtain r w1 where s: "sql_call E (\<lambda>t. UpdateProjectStatus (e_sql E) t n StatusError (errText e)) w = (r, w1)"
    by (metis surj_pair)
  then obtain q where q: "UpdateProjectStatus (e_sql E) (e_time E (w_ticks w)) n StatusError (errText e) (w_sql w) = (r, q)"
    "w1 = w\<lparr>w_sql := q, w_ticks := Suc (w_ticks w)\<rparr>"
    by (auto simp: sql_call_def split: prod.splits)
  have "not_ready n w1"
  proof (cases r)
    case (Ret u)
    with s have "sql_call E (\<lambda>t. UpdateProjectStatus (e_sql E) t n StatusError (errText e)) w = (Ret (), w1)" by simp
    from status_call_ret(1) [OF this] show ?thesis
      by (auto simp: not_ready_def StatusError_def StatusReady_def)
  next
    case (Fail x)
    with q db.repo.status_fail assms show ?thesis by (simp add: not_ready_def)
  next
    case (Panic m)
    with q db.repo.status_no_panic show ?thesis by blast
  qed
  with s show ?thesis by (simp add: markError_def)
qed

lemma not_ready_failed: "not_ready n w \<Longrightarrow> not_ready n (snd (failed E a n ip e w))"
  by (simp add: failed_def)

lemma my_call_projs [simp]: "projs (snd (my_call f w)) = projs w" "not_ready n (snd (my_call f w)) = not_ready n w"
  by (auto simp: my_call_def not_ready_def split: prod.splits)

lemma disk_call_projs: "disk_call f w = (r, w') \<Longrightarrow> projs w' = projs w \<and> w_my w' = w_my w"
  by (auto simp: disk_call_def split: prod.splits)

lemma create_finish_same:
  assumes "create_finish E n ip w = (r, w')"
  shows "w_my w' = w_my w" and "files (w_disk w') = files (w_disk w)"
proof -
  let ?P = "\<lambda>x. w_my x = w_my w \<and> files (w_disk x) = files (w_disk w)"
  have u: "?P x' = ?P x" if "unchanged x x'" for x x'
    using that unchanged_files [OF that] by (simp add: unchanged_def fun_eq_iff)
  have "?P (snd (create_finish E n ip w))"
    unfolding create_finish_def
  proof (rule on_call_induct)
    show "?P (snd (sql_call E (\<lambda>t. UpdateProjectStatus (e_sql E) t n StatusReady []) w))"
      by (simp add: sql_call_def split: prod.splits)
  next
    fix x and w1 :: "('q, 'm) world" assume "?P w1"
    then show "?P (snd (on_call (GetProject (e_sql E) n (w_sql w1), w1) (failed E ActionDatabaseCreate n ip)
      (\<lambda>final w. (Ret \<lparr>Project = final, Idempotent = False\<rparr>, auditSuccess E ActionDatabaseCreate n ip ''created'' w))))"
      by (cases "GetProject (e_sql E) n (w_sql w1)")
         (simp_all add: failed_def u [OF audit_unchanged(1)] u [OF audit_unchanged(2)])
  qed (simp add: failed_def u [OF audit_unchanged(2)])
  with assms show "w_my w' = w_my w" "files (w_disk w') = files (w_disk w)" by simp_all
qed

text \<open>When the row is ready after a stage that began with it not ready, the stage came to the end.\<close>

lemma ready_secret:
  assumes "create_secret E n ip (db_of n) (user_of n) p w = (r, w')" and "not_ready n w" and "\<not> not_ready n w'"
  shows "cat (w_my w') = cat (w_my w) \<and> files (w_disk w') (Path (e_dir E) n) = Some (env_file (secret_of n p))"
proof -
  obtain x w1 where d: "disk_call (Writer_Write (e_os E) (e_dir E) (secret_of n p)) w = (x, w1)"
    by (metis surj_pair)
  note s = assms(1) [unfolded create_secret_def, folded secret_of_def, unfolded d]
  have "projs w1 = projs w" using disk_call_projs [OF d] by (rule conjunct1)
  then have n1: "not_ready n w1" using assms(2) by (simp add: not_ready_def)
  show ?thesis
  proof (cases x)
    case (Ret q)
    with s have f: "create_finish E n ip w1 = (r, w')" by simp
    from d Ret obtain d' where "w_disk w1 = d'" "Writer_Write (e_os E) (e_dir E) (secret_of n p) (w_disk w) = (Ret q, d')"
      by (auto simp: disk_call_def split: prod.splits)
    with Writer_Write_final [OF this(2)] create_finish_same [OF f] disk_call_projs [OF d]
    show ?thesis by (simp add: secret_of_def)
  next
    case (Fail e)
    with s have "w' = snd (failed E ActionDatabaseCreate n ip e (markError E n e w1) :: CreateResult outcome \<times> _)" by simp
    then have "not_ready n w'" using not_ready_failed [OF not_ready_markError [OF n1]] by simp
    with assms(3) show ?thesis by simp
  next
    case (Panic m)
    with s n1 assms(3) show ?thesis by simp
  qed
qed

lemma my_call_cases:
  assumes "my_call f w = (x, w1)" and "\<And>m r m'. f m = (r, m') \<Longrightarrow> my.progress sts m r m'"
    and "not_ready n w"
  shows "not_ready n w1" and "x = Ret () \<Longrightarrow> cat (w_my w1) = effects sts (cat (w_my w))"
proof -
  show "not_ready n w1" using my_call_projs(2) [of n f w] assms(1,3) by simp
  assume "x = Ret ()"
  with assms(1) have "my_call f w = (Ret (), w1)" by simp
  then show "cat (w_my w1) = effects sts (cat (w_my w))" by (rule my_call_ret(1) [OF _ assms(2)])
qed

lemma failed_not_ready:
  "(Fail e', w') = failed E a n ip e w \<Longrightarrow> not_ready n w \<Longrightarrow> not_ready n w'"
  by (simp add: failed_def)

lemma ready_grant:
  assumes "create_grant E n ip (db_of n) (user_of n) p w = (r, w')" and "not_ready n w" and "\<not> not_ready n w'"
  shows "cat (w_my w') = effects (grant_stmts (e_allowDrop E) (db_of n) (user_of n)) (cat (w_my w))
    \<and> files (w_disk w') (Path (e_dir E) n) = Some (env_file (secret_of n p))"
proof -
  obtain x w1 where g: "my_call (GrantProjectPrivileges (e_run E) (db_of n) (user_of n) (e_allowDrop E)) w = (x, w1)"
    by (metis surj_pair)
  have c: "not_ready n w1" "x = Ret () \<Longrightarrow> cat (w_my w1) = effects (grant_stmts (e_allowDrop E) (db_of n) (user_of n)) (cat (w_my w))"
    by (rule my_call_cases [OF g _ assms(2)], erule my.Grant_progress)
       (rule my_call_cases(2) [OF g _ assms(2)], erule my.Grant_progress, assumption)
  note s = assms(1) [unfolded create_grant_def g]
  show ?thesis
  proof (cases x)
    case (Ret u)
    with s have "create_secret E n ip (db_of n) (user_of n) p w1 = (r, w')" by simp
    from ready_secret [OF this c(1) assms(3)] c(2) Ret show ?thesis by simp
  next
    case (Fail e)
    with s c(1) have "not_ready n w'" by (auto simp: failed_def intro!: not_ready_markError)
    with assms(3) show ?thesis by simp
  next
    case (Panic m)
    with s c(1) assms(3) show ?thesis by simp
  qed
qed

lemma ready_user:
  assumes "create_user E n ip (db_of n) (user_of n) p w = (r, w')" and "not_ready n w" and "\<not> not_ready n w'"
  shows "cat (w_my w') = effects (create_user_stmts (user_of n) p
      @ grant_stmts (e_allowDrop E) (db_of n) (user_of n)) (cat (w_my w))
    \<and> files (w_disk w') (Path (e_dir E) n) = Some (env_file (secret_of n p))"
proof -
  obtain x w1 where g: "my_call (EnsureUser (e_run E) (user_of n) p) w = (x, w1)"
    by (metis surj_pair)
  have c: "not_ready n w1" "x = Ret () \<Longrightarrow> cat (w_my w1) = effects (create_user_stmts (user_of n) p) (cat (w_my w))"
    by (rule my_call_cases [OF g _ assms(2)], erule my.EnsureUser_progress)
       (rule my_call_cases(2) [OF g _ assms(2)], erule my.EnsureUser_progress, assumption)
  note s = assms(1) [unfolded create_user_def g]
  show ?thesis
  proof (cases x)
    case (Ret u)
    with s have "create_grant E n ip (db_of n) (user_of n) p w1 = (r, w')" by simp
    from ready_grant [OF this c(1) assms(3)] c(2) Ret show ?thesis by simp
  next
    case (Fail e)
    with s c(1) have "not_ready n w'" by (auto simp: failed_def intro!: not_ready_markError)
    with assms(3) show ?thesis by simp
  next
    case (Panic m)
    with s c(1) assms(3) show ?thesis by simp
  qed
qed

lemma ready_provision:
  assumes "create_provision E n ip (db_of n) (user_of n) w = (r, w')" and "not_ready n w" and "\<not> not_ready n w'"
  shows "\<exists>p k. RandomPassword (e_entropy E) (w_draws w) = (Ret p, k)
    \<and> cat (w_my w') = effects (create_stmts n p (e_allowDrop E)) (cat (w_my w))
    \<and> files (w_disk w') (Path (e_dir E) n) = Some (env_file (secret_of n p))"
proof -
  obtain y w1 where d: "draw_call E RandomPassword w = (y, w1)" by (metis surj_pair)
  then obtain k where k: "RandomPassword (e_entropy E) (w_draws w) = (y, k)" "w1 = w\<lparr>w_draws := k\<rparr>"
    by (auto simp: draw_call_def split: prod.splits)
  have n1: "not_ready n w1" using assms(2) k(2) by (simp add: not_ready_def)
  note s = assms(1) [unfolded create_provision_def d]
  show ?thesis
  proof (cases y)
    case (Ret p)
    obtain x w2 where g: "my_call (EnsureDatabase (e_run E) (db_of n)) w1 = (x, w2)" by (metis surj_pair)
    have c: "not_ready n w2" "x = Ret () \<Longrightarrow> cat (w_my w2) = effects ([SCreateDatabase (db_of n)]) (cat (w_my w1))"
    by (rule my_call_cases [OF g _ n1], erule my.EnsureDatabase_progress)
       (rule my_call_cases(2) [OF g _ n1], erule my.EnsureDatabase_progress, assumption)
    show ?thesis
    proof (cases x)
      case r2: (Ret u)
      with s Ret g have "create_user E n ip (db_of n) (user_of n) p w2 = (r, w')" by simp
      from ready_user [OF this c(1) assms(3)] c(2) r2 k Ret show ?thesis by (simp add: create_stmts_def)
    next
      case (Fail e)
      with s Ret g c(1) have "not_ready n w'" by (auto simp: failed_def intro!: not_ready_markError)
      with assms(3) show ?thesis by simp
    next
      case (Panic m)
      with s Ret g c(1) assms(3) show ?thesis by simp
    qed
  next
    case (Fail e)
    with s n1 have "not_ready n w'" by (auto intro!: not_ready_markError)
    with assms(3) show ?thesis by simp
  next
    case (Panic m)
    with s n1 assms(3) show ?thesis by simp
  qed
qed

lemma ready_create:
  assumes "Service_Create E n ip w = (r, w')" and "projs w n = None" and "\<not> not_ready n w'"
  shows "\<exists>p k. RandomPassword (e_entropy E) (w_draws w) = (Ret p, k)
    \<and> cat (w_my w') = effects (create_stmts n p (e_allowDrop E)) (cat (w_my w))
    \<and> files (w_disk w') (Path (e_dir E) n) = Some (env_file (secret_of n p))"
proof -
  have n0: "not_ready n w" using assms(2) by (simp add: not_ready_def)
  have "\<not> (GetProject (e_sql E) n (w_sql w) = Ret p)" for p using get_row assms(2) by fastforce
  moreover have "\<not> (GetProject (e_sql E) n (w_sql w) = Panic m)" for m by (rule db.repo.get_no_panic)
  ultimately have new: "create_new E n ip w = (r, w')"
    using assms(1,3) n0 by (auto simp: Service_Create_def split: option.splits outcome.splits if_splits)
  obtain x w1 where s: "sql_call E (\<lambda>t. CreateProject (e_sql E) t (new_project E n)) w = (x, w1)"
    by (metis surj_pair)
  then obtain q where q: "CreateProject (e_sql E) (e_time E (w_ticks w)) (new_project E n) (w_sql w) = (x, q)"
    "w1 = w\<lparr>w_sql := q, w_ticks := Suc (w_ticks w)\<rparr>"
    by (auto simp: sql_call_def split: prod.splits)
  have np: "Name (new_project E n) = n" "Status (new_project E n) = StatusPending" by (simp_all add: new_project_def)
  show ?thesis
  proof (cases x)
    case (Ret p)
    with new s have k: "create_provision E n ip (db_of n) (user_of n) w1 = (r, w')"
      by (simp add: create_new_def ids)
    from db.repo.create_ret [of _ _ _ p q] q Ret np have "not_ready n w1"
      by (fastforce simp: not_ready_def StatusPending_def StatusReady_def)
    from ready_provision [OF k this assms(3)] q(2) show ?thesis by simp
  next
    case (Fail e)
    have "projs w1 n = None" using db.repo.create_fail q Fail assms(2) by simp
    then have "not_ready n w1" by (simp add: not_ready_def)
    moreover have "e \<noteq> StoreErrConflict"
    proof
      assume "e = StoreErrConflict"
      with q(1) Fail have "CreateProject (e_sql E) (e_time E (w_ticks w)) (new_project E n) (w_sql w)
          = (Fail StoreErrConflict, q)" by simp
      from db.repo.create_conflict [OF this] np assms(2) show False by simp
    qed
    ultimately have "not_ready n w'" using new s Fail by (auto simp: create_new_def failed_def)
    with assms(3) show ?thesis by simp
  next
    case (Panic m)
    with q db.repo.create_no_panic show ?thesis by blast
  qed
qed

lemma ready_after_create:
  assumes "Service_Create E n ip w = (r, w')" and "not_ready n w" and "\<not> not_ready n w'"
  shows "\<exists>p k. RandomPassword (e_entropy E) (w_draws w) = (Ret p, k)
    \<and> cat (w_my w') = effects (create_stmts n p (e_allowDrop E)) (cat (w_my w))
    \<and> files (w_disk w') (Path (e_dir E) n) = Some (env_file (secret_of n p))"
proof (cases "projs w n")
  case None
  with assms show ?thesis by (intro ready_create)
next
  case (Some p0)
  have "Status p \<noteq> StatusReady" if "GetProject (e_sql E) n (w_sql w) = Ret p" for p
    using get_row [OF that] assms(2) by (simp add: not_ready_def)
  moreover have "GetProject (e_sql E) n (w_sql w) \<noteq> Fail StoreErrNotFound" using db.repo.get_missing Some by force
  ultimately have "not_ready n w'"
    using assms(1,2) by (auto simp: Service_Create_def split: option.splits outcome.splits)
  with assms(3) show ?thesis by simp
qed

end

text \<open>C2: a creation marks a project ready only when it has provisioned it. Whatever a creation returns,
  if the row says ready afterwards and did not before, then MySQL has executed every statement
  of the creation and the env file is complete; after any earlier failure the row says
  pending or error, or is missing.\<close>

theorem ready_only_when_provisioned:
  assumes "service E view cat" and "Service_Create E n ip w = (r, w')"
    and "\<nexists>p0. project_map (view (w_sql w)) n = Some p0 \<and> Status p0 = StatusReady"
    and "project_map (view (w_sql w')) n = Some p" and "Status p = StatusReady"
  shows "\<exists>pw k. RandomPassword (e_entropy E) (w_draws w) = (Ret pw, k)
    \<and> cat (w_my w') = effects (create_stmts n pw (e_allowDrop E)) (cat (w_my w))
    \<and> files (w_disk w') (Path (e_dir E) n) = Some \<lparr>content = renderEnv (secret_of n pw), mode = m0600\<rparr>"
proof -
  have "\<not> service.not_ready view n w'" "service.not_ready view n w"
    using assms(3-5) by (auto simp: service.not_ready_def [OF assms(1)])
  from service.ready_after_create [OF assms(1,2) this(2,1)] show ?thesis by (simp add: env_file_def)
qed

theorem ready_only_when_provisioned_witness:
  "\<exists>w' pw. snd (Service_Create reference_env ''app'' ''ip'' fresh_world) = w'
    \<and> w_my w' = effects (create_stmts ''app'' pw False) empty_catalog"
proof -
  have none: "project_map (w_sql fresh_world) ''app'' = None"
    by (simp add: fresh_world_def empty_tables_def project_map_def select_project_def)
  moreover have "valid_name ''app''" by (simp add: valid_name_iff name_char_def char_class_defs)
  ultimately obtain res w1 where c: "Service_Create reference_env ''app'' ''ip'' fresh_world = (Ret res, w1)"
    and i: "\<not> Idempotent res"
    using ref_Create [of "''app''" fresh_world "''ip''"] by (auto simp: fresh_world_def empty_disk_def)
  from reference_service.Create_ret [OF c] i have
    r: "project_map (w_sql w1) ''app'' = Some (Project res)" "Status (Project res) = StatusReady"
    by (auto simp: reference_service.complete_def)
  have "\<nexists>p0. project_map (w_sql fresh_world) ''app'' = Some p0 \<and> Status p0 = StatusReady" using none by simp
  from ready_only_when_provisioned [OF reference_service.service_axioms c this r] c show ?thesis
    by (auto simp: fresh_world_def)
qed

section \<open>Deletion\<close>

lemma then_attempt_done:
  "then_attempt l f c = (Inl [], w') \<longleftrightarrow> (\<exists>w. c = (Inl [], w) \<and> f w = (Ret (), w'))"
proof (cases c)
  case (Pair x w)
  show ?thesis
  proof (cases x)
    case (Inl ps)
    with Pair show ?thesis by (cases "f w"; cases "fst (f w)") auto
  qed (simp add: Pair)
qed

lemma Writer_Delete_gone: "Writer_Delete os dir n d = (Ret (), d') \<Longrightarrow> files d' (Path dir n) = None"
  by (auto simp: Writer_Delete_def os_remove_def Let_def dest!: sys_call_ok
      split: option.splits remove_result.splits prod.splits if_splits)

context service
begin

lemma delete_call_ret:
  assumes "sql_call E (\<lambda>t. DeleteProject (e_sql E) n) w = (Ret (), w')"
  shows "projs w' = (projs w)(n := None)" and "w_my w' = w_my w" and "w_disk w' = w_disk w"
proof -
  obtain q where "DeleteProject (e_sql E) n (w_sql w) = (Ret (), q)"
    "w' = w\<lparr>w_sql := q, w_ticks := Suc (w_ticks w)\<rparr>"
    using assms by (auto simp: sql_call_def split: prod.splits)
  with db.repo.remove_ret [OF this(1)] show "projs w' = (projs w)(n := None)"
    "w_my w' = w_my w" "w_disk w' = w_disk w" by simp_all
qed

lemma delete_all_done:
  assumes "delete_all E n p w = (Inl [], w')" and "DatabaseName p = db_of n" and "DatabaseUser p = user_of n"
  shows "projs w' n = None" and "files (w_disk w') (Path (e_dir E) n) = None"
    and "cat (w_my w') = effects (SDropDatabase (db_of n) # drop_user_stmts (user_of n)) (cat (w_my w))"
proof -
  from assms(1) obtain w1 w2 w3 where
    1: "my_call (DropDatabase (e_run E) (db_of n)) w = (Ret (), w1)"
    and 2: "my_call (DropUser (e_run E) (user_of n)) w1 = (Ret (), w2)"
    and 3: "disk_call (Writer_Delete (e_os E) (e_dir E) n) w2 = (Ret (), w3)"
    and 4: "sql_call E (\<lambda>t. DeleteProject (e_sql E) n) w3 = (Ret (), w')"
    unfolding delete_all_def assms(2,3) then_attempt_done by auto
  note c1 = my_call_ret [OF 1 my.DropDatabase_progress] and c2 = my_call_ret [OF 2 my.DropUser_progress]
  from 3 obtain d where d: "Writer_Delete (e_os E) (e_dir E) n (w_disk w2) = (Ret (), d)" "w3 = w2\<lparr>w_disk := d\<rparr>"
    by (auto simp: disk_call_def split: prod.splits)
  note c4 = delete_call_ret [OF 4]
  from c4(1) show "projs w' n = None" by simp
  from Writer_Delete_gone [OF d(1)] d(2) c4(3) show "files (w_disk w') (Path (e_dir E) n) = None" by simp
  from c1(1) c2(1) d(2) c4(2)
  show "cat (w_my w') = effects (SDropDatabase (db_of n) # drop_user_stmts (user_of n)) (cat (w_my w))" by simp
qed

lemma Delete_ret:
  assumes "Service_Delete E n c ip w = (Ret (), w')" and "rows_ok (view (w_sql w))"
  shows "valid_name n \<and> c = n \<and> projs w n \<noteq> None \<and> projs w' n = None
    \<and> files (w_disk w') (Path (e_dir E) n) = None
    \<and> cat (w_my w') = effects (SDropDatabase (db_of n) # drop_user_stmts (user_of n)) (cat (w_my w))"
proof -
  from assms(1) obtain p w1 where v: "valid_name n" "c = n" and g: "GetProject (e_sql E) n (w_sql w) = Ret p"
    and d: "delete_all E n p w = (Inl [], w1)" and w': "w' = auditSuccess E ActionDatabaseDelete n ip ''deleted'' w1"
    by (auto simp: Service_Delete_def failed_def split: option.splits if_splits sum.splits prod.splits
        dest!: on_call_Ret)
  note a = delete_all_done [OF d row_ids [OF assms(2) g]]
  have "unchanged w1 w'" by (simp add: w')
  with a v get_row [OF g] unchanged_projs [OF this] unchanged_files [OF this]
  show ?thesis by (simp add: unchanged_def)
qed

end

section \<open>Other projects\<close>

text \<open>What an operation on \<open>n\<close> leaves of another project \<open>k\<close>: its row, its env file at every moment, and
  its database, its accounts and their grants, unless the two names have the same identifiers.\<close>

definition project_kept ::
    "('q, 'm) env \<Rightarrow> ('q \<Rightarrow> tables) \<Rightarrow> ('m \<Rightarrow> catalog) \<Rightarrow> string \<Rightarrow> string
      \<Rightarrow> ('q, 'm) world \<Rightarrow> ('q, 'm) world \<Rightarrow> bool" where
  "project_kept E view cat n k w w' \<longleftrightarrow>
     project_map (view (w_sql w')) k = project_map (view (w_sql w)) k
   \<and> holds_in (Path (e_dir E) k) {files (w_disk w) (Path (e_dir E) k)} (w_disk w) (w_disk w')
   \<and> (db_of k \<noteq> db_of n \<longrightarrow>
        (db_of k \<in> databases (cat (w_my w')) \<longleftrightarrow> db_of k \<in> databases (cat (w_my w)))
      \<and> (\<forall>h. accounts (cat (w_my w')) (user_of k, h) = accounts (cat (w_my w)) (user_of k, h))
      \<and> (\<forall>priv d h. (priv, d, user_of k, h) \<in> grants (cat (w_my w')) \<longleftrightarrow> (priv, d, user_of k, h) \<in> grants (cat (w_my w))))"

lemma same_identifiers: "user_of k = user_of n \<longleftrightarrow> db_of k = db_of n"
  by (simp add: db_of_def user_of_def ProjectIdentifiers_eq_iff)

lemma others_eq:
  assumes "others d u c' = others d u c"
  shows "x \<noteq> d \<Longrightarrow> x \<in> databases c' \<longleftrightarrow> x \<in> databases c"
    and "y \<noteq> u \<Longrightarrow> accounts c' (y, h) = accounts c (y, h)"
    and "y \<noteq> u \<Longrightarrow> (priv, e, y, h) \<in> grants c' \<longleftrightarrow> (priv, e, y, h) \<in> grants c"
proof -
  have c: "databases c' - {d} = databases c - {d}"
    "(\<lambda>a. if fst a = u then None else accounts c' a) = (\<lambda>a. if fst a = u then None else accounts c a)"
    "{g \<in> grants c'. fst (snd (snd g)) \<noteq> u} = {g \<in> grants c. fst (snd (snd g)) \<noteq> u}"
    using assms by (simp_all add: others_def)
  show "x \<noteq> d \<Longrightarrow> x \<in> databases c' \<longleftrightarrow> x \<in> databases c" using c(1) by blast
  show "y \<noteq> u \<Longrightarrow> accounts c' (y, h) = accounts c (y, h)" using fun_cong [OF c(2), of "(y, h)"] by simp
  show "y \<noteq> u \<Longrightarrow> (priv, e, y, h) \<in> grants c' \<longleftrightarrow> (priv, e, y, h) \<in> grants c" using c(3) by fastforce
qed

lemma only_project_kept:
  assumes "only_project E view cat n w w'" and "valid_name k" and "k \<noteq> n"
  shows "project_kept E view cat n k w w'"
proof -
  have slash: "slash \<notin> set k"
    using assms(2) by (auto simp: valid_name_iff list_all_iff name_char_def char_class_defs)
  have "others (db_of n) (user_of n) (cat (w_my w')) = others (db_of n) (user_of n) (cat (w_my w))"
    using assms(1) by (simp add: only_project_def)
  note o = others_eq [OF this]
  have row: "project_map (view (w_sql w')) k = project_map (view (w_sql w)) k"
    and env: "holds_in (Path (e_dir E) k) {files (w_disk w) (Path (e_dir E) k)} (w_disk w) (w_disk w')"
    using assms(1,3) slash unfolding only_project_def by blast+
  have u: "user_of k \<noteq> user_of n" if "db_of k \<noteq> db_of n" using that by (simp add: same_identifiers)
  show ?thesis
    unfolding project_kept_def
    by (intro conjI impI allI row env) (erule o(1), rule o(2), erule u, rule o(3), erule u)
qed

text \<open>C3: whatever it returns and wherever it fails, an operation on one project leaves every other
  project as it was: the rows, the tokens, the env file at every moment, and the database,
  the accounts and their grants, with one exception that the last clause shows to be real:
  two names that differ only in hyphens against underscores have the same database and user,
  and a deletion of one takes them from the other.\<close>

theorem operations_touch_only_their_project:
  assumes "service E view cat" and "rows_ok (view (w_sql w))"
    and "w' \<in> {snd (Service_Create E n ip w), snd (Service_Rotate E n ip w), snd (Service_Delete E n c ip w)}"
  shows "only_project E view cat n w w'
    \<and> (\<forall>k. valid_name k \<and> k \<noteq> n \<longrightarrow> project_kept E view cat n k w w')
    \<and> (\<forall>k w1. db_of k = db_of n \<and> Service_Delete E n c ip w = (Ret (), w1) \<longrightarrow>
        db_of k \<notin> databases (cat (w_my w1)) \<and> (\<forall>h \<in> set hosts. accounts (cat (w_my w1)) (user_of k, h) = None))"
proof -
  have f: "only_project E view cat n w w'"
    using assms(3) service.frame_Create [OF assms(1)] service.frame_Rotate [OF assms(1,2)]
      service.frame_Delete [OF assms(1,2)] by blast
  moreover have "db_of k \<notin> databases (cat (w_my w1)) \<and> (\<forall>h \<in> set hosts. accounts (cat (w_my w1)) (user_of k, h) = None)"
    if "db_of k = db_of n" "Service_Delete E n c ip w = (Ret (), w1)" for k w1
  proof -
    have "user_of k = user_of n" using that(1) by (simp add: same_identifiers)
    with service.Delete_ret [OF assms(1) that(2) assms(2)] that(1) show ?thesis by (auto simp: stmts_defs)
  qed
  ultimately show ?thesis using only_project_kept [OF f] by blast
qed

theorem operations_touch_only_their_project_witness:
  "project_map (w_sql (snd (Service_Create reference_env ''app'' ''ip'' fresh_world))) ''web'' = None"
proof -
  have "rows_ok (w_sql fresh_world)" by (simp add: fresh_world_def empty_tables_def rows_ok_def)
  from operations_touch_only_their_project [OF reference_service.service_axioms this, of _ "''app''" "''ip''"]
  have "only_project reference_env (\<lambda>t. t) (\<lambda>c. c) ''app'' fresh_world
      (snd (Service_Create reference_env ''app'' ''ip'' fresh_world))" by blast
  then show ?thesis
    by (auto simp: only_project_def fresh_world_def empty_tables_def project_map_def select_project_def)
qed

section \<open>What a deletion leaves\<close>

text \<open>C4: a deletion that returns was confirmed with the project's own name, and leaves
  nothing of it: no row, no database, no account on either host, no grant, and no env file.\<close>

theorem delete_removes_everything:
  assumes "service E view cat" and "rows_ok (view (w_sql w))"
    and "Service_Delete E n c ip w = (Ret (), w')"
  shows "c = n \<and> project_map (view (w_sql w')) n = None \<and> db_of n \<notin> databases (cat (w_my w'))
    \<and> (\<forall>h. h \<notin> set hosts \<or> accounts (cat (w_my w')) (user_of n, h) = None
         \<and> (\<forall>d. \<not> may_use (cat (w_my w')) (user_of n, h) d))
    \<and> files (w_disk w') (Path (e_dir E) n) = None"
  using service.Delete_ret [OF assms(1,3,2)] by (auto simp: stmts_defs may_use_def)

lemma ref_DeleteProject:
  "sql_call E (\<lambda>t. DeleteProject table_engine n) w
   = (Ret (), w\<lparr>w_sql := cmd_effect (DeleteProjectRow n) (w_sql w), w_ticks := Suc (w_ticks w)\<rparr>)"
  by (simp add: sql_call_def DeleteProject_def table_engine_def table_exec_def del: cmd_effect.simps)

lemma no_fault_Delete:
  "validateIdentifier n = None \<Longrightarrow> \<exists>d'. Writer_Delete no_fault dir n d = (Ret (), d')"
  by (simp add: Writer_Delete_def os_remove_def no_fault_call Let_def)

lemma ref_Delete:
  assumes v: "valid_name n" "length n \<le> 27" and row: "project_map (w_sql w) n = Some p"
    and ids: "DatabaseName p = db_of n" "DatabaseUser p = user_of n"
  shows "\<exists>w'. Service_Delete reference_env n n ip w = (Ret (), w')"
proof -
  have i: "ident (db_of n)" "ident (user_of n)" using valid_identifiers [OF v(1)] by (simp_all add: db_of_def user_of_def)
  obtain d where d: "Writer_Delete no_fault ''/s'' n (w_disk w) = (Ret (), d)"
    using no_fault_Delete valid_file_names(1) [OF v] by blast
  have "\<exists>w'. delete_all reference_env n p w = (Inl [], w')"
    by (simp add: delete_all_def ids my_call_def ref_DropDatabase [OF i(1)] ref_DropUser [OF i(2)]
        disk_call_def d ref_DeleteProject del: cmd_effect.simps stmt_effect.simps)
  moreover have "n \<noteq> []" using valid_name_ne [OF v(1)] .
  ultimately show ?thesis using v(1) by (auto simp: Service_Delete_def ref_get [OF row])
qed

lemma fresh_app:
  "valid_name ''app''" "project_map (w_sql fresh_world) ''app'' = None" "rows_ok (w_sql fresh_world)"
  by (simp_all add: valid_name_iff name_char_def char_class_defs fresh_world_def empty_tables_def
      project_map_def select_project_def rows_ok_def)

lemma app_created:
  obtains res w where "Service_Create reference_env ''app'' ''ip'' fresh_world = (Ret res, w)"
    "project_map (w_sql w) ''app'' = Some (Project res)" "DatabaseName (Project res) = db_of ''app''"
    "DatabaseUser (Project res) = user_of ''app''" "rows_ok (w_sql w)"
proof -
  obtain res w where c: "Service_Create reference_env ''app'' ''ip'' fresh_world = (Ret res, w)" and i: "\<not> Idempotent res"
    using ref_Create [of "''app''" fresh_world "''ip''"] fresh_app by (auto simp: fresh_world_def empty_disk_def)
  from reference_service.Create_ret [OF c] i have
    "project_map (w_sql w) ''app'' = Some (Project res)" "DatabaseName (Project res) = db_of ''app''"
    "DatabaseUser (Project res) = user_of ''app''"
    by (auto simp: reference_service.complete_def)
  moreover have "rows_ok (w_sql w)"
    using reference_service.frame_Create [of "''app''" fresh_world "''ip''"] c fresh_app(3)
    by (simp add: only_project_def)
  ultimately show thesis using c that by blast
qed

theorem delete_removes_everything_witness:
  "\<exists>w w'. Service_Delete reference_env ''app'' ''app'' ''ip'' w = (Ret (), w')
    \<and> project_map (w_sql w) ''app'' \<noteq> None \<and> project_map (w_sql w') ''app'' = None"
proof (rule app_created)
  fix res and w :: "(tables, catalog) world" assume c: "project_map (w_sql w) ''app'' = Some (Project res)"
    "DatabaseName (Project res) = db_of ''app''" "DatabaseUser (Project res) = user_of ''app''" "rows_ok (w_sql w)"
  obtain w' where d: "Service_Delete reference_env ''app'' ''app'' ''ip'' w = (Ret (), w')"
    using ref_Delete [OF fresh_app(1) _ c(1-3)] by auto
  from delete_removes_everything [OF reference_service.service_axioms c(4) d] d c(1) show ?thesis by auto
qed

text \<open>C27: a deletion with an invalid name, without a confirmation, or with another text than
  the project's name, does nothing but write an audit record.\<close>

theorem delete_needs_confirmation:
  assumes "service E view cat" and "\<not> valid_name n \<or> c \<noteq> n"
  shows "fst (Service_Delete E n c ip w)
      = Fail (if \<not> valid_name n then ErrInvalidName
              else if c = [] then ErrConfirmationNeeded else ErrConfirmMismatch)
    \<and> only_audited view w (snd (Service_Delete E n c ip w))"
  using assms(2) service.audit_unchanged(2) [OF assms(1)]
  by (auto simp: Service_Delete_def failed_def split: option.splits)

theorem delete_needs_confirmation_witness:
  "fst (Service_Delete reference_env ''app'' ''App'' ''ip'' fresh_world) = Fail ErrConfirmMismatch"
proof -
  have "valid_name ''app''" by (simp add: valid_name_iff name_char_def char_class_defs)
  with delete_needs_confirmation [OF reference_service.service_axioms, of "''app''" "''App''" "''ip''" fresh_world]
  show ?thesis by simp
qed

section \<open>A deletion that fails half-way\<close>

text \<open>A server that refuses every \<open>DROP\<close>, as one does that is read-only or short of rights.\<close>

definition no_drop_run :: "catalog run" where
  "no_drop_run q c = (if HasPrefix q ''DROP '' then (Some ''refused'', c) else ref_run q c)"

definition no_drop_env :: "(tables, catalog) env" where
  "no_drop_env = reference_env\<lparr>e_run := no_drop_run\<rparr>"

lemma no_drop_prefix:
  "HasPrefix (stmt_text st) ''DROP '' = (case st of SDropDatabase d \<Rightarrow> True | SDropUser u h \<Rightarrow> True | _ \<Rightarrow> False)"
  by (cases st) (simp_all add: HasPrefix_def create_user_text_def alter_user_text_def)

interpretation no_drop: mysql_server no_drop_run "\<lambda>c. c"
proof unfold_locales
  fix st m m' assume "stmt_wf st" "no_drop_run (stmt_text st) m = (None, m')"
  then show "stmt_enabled st m \<and> m' = stmt_effect st m"
    by (auto simp: no_drop_run_def ref_run_stmt split: if_splits)
next
  fix st m e m' assume "stmt_wf st" "no_drop_run (stmt_text st) m = (Some e, m')"
  then show "m' = m \<or> stmt_enabled st m \<and> m' = stmt_effect st m"
    by (auto simp: no_drop_run_def ref_run_stmt split: if_splits)
qed

interpretation no_drop_service: service no_drop_env "\<lambda>t. t" "\<lambda>c. c"
  by (rule service.intro)
     (simp_all add: no_drop_env_def reference_sql.sqlite_engine_axioms no_drop.mysql_server_axioms)

lemma no_drop_env_simps [simp]:
  "e_sql no_drop_env = table_engine" "e_run no_drop_env = no_drop_run" "e_os no_drop_env = no_fault"
  "e_dir no_drop_env = ''/s''"
  by (simp_all add: no_drop_env_def)

lemma no_drop_calls:
  "ident d \<Longrightarrow> DropDatabase no_drop_run d c = (Fail (ErrText ''drop database: refused''), c)"
  "ident u \<Longrightarrow> DropUser no_drop_run u c = (Fail (ErrText ''drop user@127.0.0.1: refused''), c)"
  by (simp_all add: DropDatabase_def DropUser_def hosts_def exec_one_def no_drop_run_def HasPrefix_def)

text \<open>C28: a deletion forgets the project even when MySQL refuses to drop anything. It returns
  an error, the database and the account (with its password) stay, but the row is gone, so
  the deletion can never be repeated: the second attempt finds no project.\<close>

theorem failed_drop_orphans_project:
  assumes "valid_name n" and "length n \<le> 27" and "rows_ok (w_sql w)"
    and "project_map (w_sql w) n = Some p"
  shows "\<exists>e w'. Service_Delete no_drop_env n n ip w = (Fail (ErrText e), w')
    \<and> w_my w' = w_my w \<and> project_map (w_sql w') n = None \<and> files (w_disk w') (Path ''/s'' n) = None
    \<and> fst (Service_Delete no_drop_env n n ip w') = Fail ErrNotFound"
proof -
  have g: "GetProject table_engine n (w_sql w) = Ret p" by (rule ref_get [OF assms(4)])
  have ids: "DatabaseName p = db_of n" "DatabaseUser p = user_of n"
    using no_drop_service.row_ids [of w n p] assms(3) g by simp_all
  have i: "ident (db_of n)" "ident (user_of n)"
    using valid_identifiers [OF assms(1)] by (simp_all add: db_of_def user_of_def)
  obtain d where d: "Writer_Delete no_fault ''/s'' n (w_disk w) = (Ret (), d)"
    using no_fault_Delete valid_file_names(1) [OF assms(1,2)] by blast
  let ?w1 = "w\<lparr>w_disk := d, w_sql := cmd_effect (DeleteProjectRow n) (w_sql w), w_ticks := Suc (w_ticks w)\<rparr>"
  have "delete_all no_drop_env n p w = (Inl [''drop_database: drop database: refused'',
      ''drop_user: drop user@127.0.0.1: refused''], ?w1)"
    by (simp add: delete_all_def ids my_call_def no_drop_calls [OF i(1)] no_drop_calls(2) [OF i(2)]
        disk_call_def d ref_DeleteProject del: cmd_effect.simps)
  then obtain e where del: "Service_Delete no_drop_env n n ip w
      = (Fail (ErrText e), auditFailure no_drop_env ActionDatabaseDelete n ip e ?w1)"
    using assms(1) valid_name_ne [OF assms(1)] g by (simp add: Service_Delete_def failed_def)
  let ?w2 = "auditFailure no_drop_env ActionDatabaseDelete n ip e ?w1"
  have u: "only_audited (\<lambda>t. t) ?w1 ?w2" by (rule no_drop_service.audit_unchanged)
  have none: "project_map (w_sql ?w2) n = None"
    unfolding no_drop_service.unchanged_projs [OF u] by (simp add: project_map_delete del: cmd_effect.simps)
  have "files (w_disk ?w2) (Path ''/s'' n) = None"
    unfolding no_drop_service.unchanged_files [OF u] using Writer_Delete_gone [OF d] by simp
  moreover have "w_my ?w2 = w_my w" using u by (simp add: only_audited_def)
  moreover have "fst (Service_Delete no_drop_env n n ip ?w2) = Fail ErrNotFound"
    using assms(1) valid_name_ne [OF assms(1)] ref_get_none [OF none] by (simp add: Service_Delete_def failed_def)
  ultimately show ?thesis using none del by (intro exI conjI)
qed

theorem failed_drop_orphans_project_witness:
  "\<exists>w e w'. db_of ''app'' \<in> databases (w_my w)
    \<and> Service_Delete no_drop_env ''app'' ''app'' ''ip'' w = (Fail (ErrText e), w')
    \<and> db_of ''app'' \<in> databases (w_my w') \<and> project_map (w_sql w') ''app'' = None"
proof (rule app_created)
  fix res and w :: "(tables, catalog) world" assume c: "Service_Create reference_env ''app'' ''ip'' fresh_world = (Ret res, w)"
    "project_map (w_sql w) ''app'' = Some (Project res)" "rows_ok (w_sql w)"
  have "db_of ''app'' \<in> databases (w_my w)"
    using reference_service.Create_ret [OF c(1)] fresh_app(2)
    by (auto simp: reference_service.complete_def create_stmts_effect)
  moreover have "length ''app'' \<le> 27" by simp
  note failed_drop_orphans_project [OF fresh_app(1) this c(3,2), of "''ip''"]
  ultimately show ?thesis by metis
qed

section \<open>Rotation\<close>

context service
begin

lemma Rotate_ret:
  assumes "Service_Rotate E n ip w = (Ret p', w')" and "rows_ok (view (w_sql w))"
  shows "valid_name n \<and> projs w' = projs w \<and> projs w n = Some p'
    \<and> (\<exists>pw k. RandomPassword (e_entropy E) (w_draws w) = (Ret pw, k)
        \<and> files (w_disk w') (Path (e_dir E) n) = Some (env_file (secret_of n pw))
        \<and> cat (w_my w') = effects (alter_user_stmts (user_of n) pw) (cat (w_my w)))"
proof -
  have "valid_name n" using assms(1) by (auto simp: Service_Rotate_def split: option.splits)
  then have "on_call (GetProject (e_sql E) n (w_sql w), w)
      (\<lambda>err w. if err = StoreErrNotFound then failed E ActionDatabaseRotate n ip ErrNotFound w else (Fail err, w))
      (\<lambda>p w. on_call (draw_call E RandomPassword w) (\<lambda>err w. (Fail err, w))
        (\<lambda>password w. on_call (my_call (SetUserPassword (e_run E) (DatabaseUser p) password) w)
          (failed E ActionDatabaseRotate n ip)
          (\<lambda>_ w. on_call (disk_call (Writer_Write (e_os E) (e_dir E)
              \<lparr>secName = n, secDatabase = DatabaseName p, secUser = DatabaseUser p, secPassword = password\<rparr>) w)
            (failed E ActionDatabaseRotate n ip)
            (\<lambda>_ w. (GetProject (e_sql E) n (w_sql (auditSuccess E ActionDatabaseRotate n ip ''rotated'' w)),
                auditSuccess E ActionDatabaseRotate n ip ''rotated'' w))))) = (Ret p', w')"
    using assms(1) by (simp add: Service_Rotate_def Let_def)
  then obtain p pw w1 w2 x w3 where g: "GetProject (e_sql E) n (w_sql w) = Ret p"
    and d: "draw_call E RandomPassword w = (Ret pw, w1)"
    and s: "my_call (SetUserPassword (e_run E) (DatabaseUser p) pw) w1 = (Ret (), w2)"
    and f: "disk_call (Writer_Write (e_os E) (e_dir E)
        \<lparr>secName = n, secDatabase = DatabaseName p, secUser = DatabaseUser p, secPassword = pw\<rparr>) w2 = (Ret x, w3)"
    and e: "w' = auditSuccess E ActionDatabaseRotate n ip ''rotated'' w3" "GetProject (e_sql E) n (w_sql w') = Ret p'"
    by (auto dest!: on_call_Ret split: if_splits)
  note ids = row_ids [OF assms(2) g]
  from d obtain k where k: "RandomPassword (e_entropy E) (w_draws w) = (Ret pw, k)" "w1 = w\<lparr>w_draws := k\<rparr>"
    by (auto simp: draw_call_def split: prod.splits)
  note c = my_call_ret [OF s [unfolded ids] my.SetUserPassword_progress]
  from f [unfolded ids, folded secret_of_def] obtain d3 where
    d3: "w3 = w2\<lparr>w_disk := d3\<rparr>" "Writer_Write (e_os E) (e_dir E) (secret_of n pw) (w_disk w2) = (Ret x, d3)"
    by (auto simp: disk_call_def split: prod.splits)
  from Writer_Write_final [OF d3(2)] have "files d3 (Path (e_dir E) n) = Some (env_file (secret_of n pw))"
    by (simp add: secret_of_def)
  moreover have u: "unchanged w3 w'" by (simp add: e)
  ultimately show ?thesis
    using \<open>valid_name n\<close> c k d3(1) get_row [OF e(2)] unchanged_projs [OF u] unchanged_files [OF u]
    by (auto simp: unchanged_def)
qed

end

text \<open>C26: a rotation that returns has given the accounts on both hosts the freshly drawn
  password and written that password into the env file. Every other account has the password
  it had; all rows, tokens, databases and grants, and the env files of other projects, are as
  they were.\<close>

theorem rotate_changes_password_everywhere:
  assumes "service E view cat" and "rows_ok (view (w_sql w))"
    and "Service_Rotate E n ip w = (Ret p, w')"
  shows "project_map (view (w_sql w')) = project_map (view (w_sql w))
    \<and> tokens (view (w_sql w')) = tokens (view (w_sql w))
    \<and> databases (cat (w_my w')) = databases (cat (w_my w)) \<and> grants (cat (w_my w')) = grants (cat (w_my w))
    \<and> (\<exists>pw k. RandomPassword (e_entropy E) (w_draws w) = (Ret pw, k)
        \<and> files (w_disk w') (Path (e_dir E) n) = Some \<lparr>content = renderEnv (secret_of n pw), mode = m0600\<rparr>
        \<and> (\<forall>u h. accounts (cat (w_my w')) (u, h)
             = (if u = user_of n \<and> h \<in> set hosts then Some pw else accounts (cat (w_my w)) (u, h))))
    \<and> (\<forall>k. valid_name k \<and> k \<noteq> n \<longrightarrow> files (w_disk w') (Path (e_dir E) k) = files (w_disk w) (Path (e_dir E) k))"
proof -
  have f: "only_project E view cat n w w'" using service.frame_Rotate [OF assms(1,2), of n ip] assms(3) by simp
  have "files (w_disk w') (Path (e_dir E) k) = files (w_disk w) (Path (e_dir E) k)" if "valid_name k" "k \<noteq> n" for k
    using only_project_kept [OF f that] by (auto simp: project_kept_def holds_in_def)
  moreover have "tokens (view (w_sql w')) = tokens (view (w_sql w))" using f by (simp add: only_project_def)
  ultimately show ?thesis using service.Rotate_ret [OF assms(1,3,2)] by (auto simp: stmts_defs env_file_def)
qed

lemma app_accounts:
  assumes "Service_Create reference_env ''app'' ''ip'' fresh_world = (Ret res, w)" and "h \<in> set hosts"
  shows "\<exists>x. accounts (w_my w) (user_of ''app'', h) = Some x"
  using reference_service.Create_ret [OF assms(1)] fresh_app(2) assms(2)
  by (auto simp: reference_service.complete_def create_stmts_effect)

lemma app_set_password:
  assumes "Service_Create reference_env ''app'' ''ip'' fresh_world = (Ret res, w)" and "isSafePasswordLiteral p"
  shows "SetUserPassword ref_run (user_of ''app'') p (w_my w)
    = (Ret (), effects (alter_user_stmts (user_of ''app'') p) (w_my w))"
proof (rule ref_SetUserPassword [OF _ assms(2)])
  show "ident (user_of ''app'')" using valid_identifiers(2) [OF fresh_app(1)] by (simp add: user_of_def)
  show "enabled_seq (alter_user_stmts (user_of ''app'') p) (w_my w)"
    using app_accounts [OF assms(1)] by (simp add: stmts_defs)
qed

theorem rotate_changes_password_everywhere_witness:
  "\<exists>w p w'. Service_Rotate reference_env ''app'' ''ip'' w = (Ret p, w')
    \<and> (\<exists>pw. accounts (w_my w') (user_of ''app'', ''localhost'') = Some pw)"
proof (rule app_created)
  fix res and w :: "(tables, catalog) world"
  assume c: "Service_Create reference_env ''app'' ''ip'' fresh_world = (Ret res, w)"
    "project_map (w_sql w) ''app'' = Some (Project res)" "DatabaseName (Project res) = db_of ''app''"
    "DatabaseUser (Project res) = user_of ''app''" "rows_ok (w_sql w)"
  let ?p = "''aA0!AAAAAAAAAAAAAAAAAAAAAAAAAAAA''"
  let ?w = "w\<lparr>w_disk := empty_disk\<rparr>"
  let ?w2 = "?w\<lparr>w_draws := w_draws w + 2, w_my := effects (alter_user_stmts (user_of ''app'') ?p) (w_my w)\<rparr>"
  note s = app_set_password [OF c(1) generated_password_safe [OF zero_password]]
  have "\<exists>p w'. Service_Rotate reference_env ''app'' ''ip'' ?w = (Ret p, w')"
    if "Writer_Write no_fault ''/s'' (secret_of ''app'' ?p) empty_disk = (Ret x, d)" for x d
  proof -
    let ?w3 = "?w2\<lparr>w_disk := d\<rparr>"
    let ?w' = "auditSuccess reference_env ActionDatabaseRotate ''app'' ''ip'' ''rotated'' ?w3"
    have "project_map (w_sql ?w') ''app'' = Some (Project res)"
      using reference_service.unchanged_projs [OF reference_service.audit_unchanged(1)] c(2) by simp
    from ref_get [OF this] ref_get [OF c(2)] c(3,4) that s fresh_app(1) show ?thesis
      by (simp add: Service_Rotate_def draw_call_def zero_password_at my_call_def disk_call_def flip: secret_of_def)
  qed
  moreover have "\<exists>d. Writer_Write no_fault ''/s'' (secret_of ''app'' ?p) empty_disk = (Ret (Path ''/s'' ''app''), d)"
    using no_fault_Write [of "secret_of ''app'' ?p" empty_disk "''/s''"]
    by (simp add: secret_of_def valid_file_names [OF fresh_app(1)] empty_disk_def)
  ultimately obtain p w' where r: "Service_Rotate reference_env ''app'' ''ip'' ?w = (Ret p, w')" by blast
  have "rows_ok (w_sql ?w)" using c(5) by simp
  from rotate_changes_password_everywhere [OF reference_service.service_axioms this r]
  have "\<exists>pw. accounts (w_my w') (user_of ''app'', ''localhost'') = Some pw" by (auto simp: hosts_def)
  with r show ?thesis by blast
qed

text \<open>C29: a rotation is not atomic. When the env file cannot be written after MySQL has taken
  the new password, the call fails with the new password in force and the old env file in
  place: the application is locked out until a rotation succeeds.\<close>

theorem rotate_can_lock_out:
  assumes "service E view cat" and "rows_ok (view (w_sql w))" and "valid_name n"
    and "GetProject (e_sql E) n (w_sql w) = Ret p"
    and "RandomPassword (e_entropy E) (w_draws w) = (Ret pw, k)"
    and "SetUserPassword (e_run E) (user_of n) pw (w_my w) = (Ret (), m)"
    and "Writer_Write (e_os E) (e_dir E) (secret_of n pw) (w_disk w) = (Fail e, d)"
  shows "\<exists>w'. Service_Rotate E n ip w = (Fail e, w')
    \<and> files (w_disk w') (Path (e_dir E) n) = files (w_disk w) (Path (e_dir E) n)
    \<and> (\<forall>h. h \<notin> set hosts \<or> accounts (cat (w_my w')) (user_of n, h) = Some pw)"
proof -
  note ids = service.row_ids [OF assms(1,2,4)]
  let ?w3 = "w\<lparr>w_draws := k, w_my := m, w_disk := d\<rparr>"
  let ?w' = "auditFailure E ActionDatabaseRotate n ip (errText e) ?w3"
  have r: "Service_Rotate E n ip w = (Fail e, ?w')"
    using assms(3-7) by (simp add: Service_Rotate_def draw_call_def my_call_def disk_call_def ids failed_def
        flip: secret_of_def)
  have u: "only_audited view ?w3 ?w'" by (rule service.audit_unchanged [OF assms(1)])
  have "cat m = effects (alter_user_stmts (user_of n) pw) (cat (w_my w))"
    by (rule mysql_server.progress_ret [OF service.my [OF assms(1)], THEN conjunct2])
       (rule mysql_server.SetUserPassword_progress [OF service.my [OF assms(1)] assms(6)])
  moreover have "files d (Path (e_dir E) n) = files (w_disk w) (Path (e_dir E) n)"
    using Writer_Write_final [OF assms(7)] by (simp add: secret_of_def)
  ultimately show ?thesis
    using r u service.unchanged_files [OF assms(1) u]
    by (intro exI [of _ ?w']) (auto simp: only_audited_def stmts_defs)
qed

text \<open>A disk on which every call fails.\<close>

definition broken_disk :: os where
  "broken_disk = \<lparr>os_fault = (\<lambda>_. Some (''EIO'', 0)), os_rand = id\<rparr>"

definition broken_env :: "(tables, catalog) env" where
  "broken_env = reference_env\<lparr>e_os := broken_disk\<rparr>"

interpretation broken_service: service broken_env "\<lambda>t. t" "\<lambda>c. c"
  by (rule service.intro)
     (simp_all add: broken_env_def reference_sql.sqlite_engine_axioms reference_server.mysql_server_axioms)

lemma broken_write:
  assumes "validateIdentifier (secName s) = None" "validateIdentifier (secDatabase s) = None"
    "validateIdentifier (secUser s) = None" "secPassword s \<noteq> []"
  shows "\<exists>e d'. Writer_Write broken_disk dir s d = (Fail e, d')"
proof -
  from assms(1-3) have "secName s \<noteq> []" "secDatabase s \<noteq> []" "secUser s \<noteq> []"
    by (auto simp: validateIdentifier_iff)
  moreover have "sys_call broken_disk b g x
      = (Some ''EIO'', \<lparr>files = b 0 (files x), calls = Suc (calls x), seen = b 0 (files x) # seen x\<rparr>)" for b g x
    by (simp add: sys_call_def broken_disk_def)
  ultimately show ?thesis using assms
    by (auto simp: Writer_Write_def first_error_def os_create_temp_def Let_def split: option.splits)
qed

theorem rotate_can_lock_out_witness:
  "\<exists>w e w'. Service_Rotate broken_env ''app'' ''ip'' w = (Fail e, w')
    \<and> accounts (w_my w') (user_of ''app'', ''localhost'') = Some ''aA0!AAAAAAAAAAAAAAAAAAAAAAAAAAAA''"
proof (rule app_created)
  fix res and w :: "(tables, catalog) world"
  assume c: "Service_Create reference_env ''app'' ''ip'' fresh_world = (Ret res, w)"
    "project_map (w_sql w) ''app'' = Some (Project res)" "rows_ok (w_sql w)"
  let ?p = "''aA0!AAAAAAAAAAAAAAAAAAAAAAAAAAAA''"
  have env: "e_sql broken_env = table_engine" "e_run broken_env = ref_run" "e_os broken_env = broken_disk"
    "e_entropy broken_env = zero_entropy"
    by (simp_all add: broken_env_def)
  have g: "GetProject (e_sql broken_env) ''app'' (w_sql w) = Ret (Project res)"
    unfolding env by (rule ref_get [OF c(2)])
  have r: "RandomPassword (e_entropy broken_env) (w_draws w) = (Ret ?p, w_draws w + 2)"
    unfolding env by (rule zero_password_at)
  have s: "SetUserPassword (e_run broken_env) (user_of ''app'') ?p (w_my w)
      = (Ret (), effects (alter_user_stmts (user_of ''app'') ?p) (w_my w))"
    unfolding env by (rule app_set_password [OF c(1) generated_password_safe [OF zero_password]])
  have "\<exists>e d. Writer_Write broken_disk (e_dir broken_env) (secret_of ''app'' ?p) (w_disk w) = (Fail e, d)"
    by (rule broken_write) (simp_all add: secret_of_def valid_file_names [OF fresh_app(1)])
  then obtain e d where "Writer_Write (e_os broken_env) (e_dir broken_env) (secret_of ''app'' ?p) (w_disk w) = (Fail e, d)"
    unfolding env by blast
  from rotate_can_lock_out [OF broken_service.service_axioms c(3) fresh_app(1) g r s this, of "''ip''"]
  obtain w' where "Service_Rotate broken_env ''app'' ''ip'' w = (Fail e, w')"
    "\<forall>h. h \<notin> set hosts \<or> accounts (w_my w') (user_of ''app'', h) = Some ?p" by blast
  then show ?thesis by (intro exI conjI) (auto simp: hosts_def)
qed

end
