(* ===== verification/Api.thy ===== *)
theory Api
  imports Auth Lifecycle Json
begin

text \<open>
  \<open>internal/api\<close>: routing, the bearer-token middleware, the handlers and their error envelopes.
  A request is what \<open>net/http\<close> hands over: the method, the unescaped path segments, the
  headers the code reads, and the JSON value at the start of the body, if there is one.
\<close>

section \<open>Requests and responses\<close>

record request =
  Method :: string
  Segments :: "string list"
  Authorization :: string
  RemoteAddr :: string
  ContentLength :: int
  BodyValue :: "json option"

text \<open>\<open>ProjectView\<close>: what a response shows of a project.\<close>

record ProjectView =
  vwName :: string
  vwDatabase :: string
  vwUser :: string
  vwSecretPath :: string
  vwStatus :: string
  vwLastError :: string
  vwCreatedAt :: string
  vwUpdatedAt :: string

datatype payload =
    PHealth
  | PItems "ProjectView list"
  | PProject ProjectView
  | PError string string
  | PText string
  | PEmpty

record response =
  respStatus :: nat
  respBody :: payload

definition CodeUnauthorized :: string where "CodeUnauthorized = ''UNAUTHORIZED''"

definition CodeInvalidProjectName :: string where "CodeInvalidProjectName = ''INVALID_PROJECT_NAME''"

definition CodeDatabaseNotFound :: string where "CodeDatabaseNotFound = ''DATABASE_NOT_FOUND''"

definition CodeDatabaseAlreadyExists :: string where "CodeDatabaseAlreadyExists = ''DATABASE_ALREADY_EXISTS''"

definition CodeMySQLError :: string where "CodeMySQLError = ''MYSQL_ERROR''"

definition CodeSecretWriteError :: string where "CodeSecretWriteError = ''SECRET_WRITE_ERROR''"

definition CodeConfirmationRequired :: string where "CodeConfirmationRequired = ''CONFIRMATION_REQUIRED''"

definition CodeInternalError :: string where "CodeInternalError = ''INTERNAL_ERROR''"

definition CodeBadRequest :: string where "CodeBadRequest = ''BAD_REQUEST''"

lemmas code_defs = CodeUnauthorized_def CodeInvalidProjectName_def CodeDatabaseNotFound_def
  CodeDatabaseAlreadyExists_def CodeMySQLError_def CodeSecretWriteError_def
  CodeConfirmationRequired_def CodeInternalError_def CodeBadRequest_def

definition writeJSON :: "nat \<Rightarrow> payload \<Rightarrow> response" where
  "writeJSON status body = \<lparr>respStatus = status, respBody = body\<rparr>"

definition writeError :: "nat \<Rightarrow> string \<Rightarrow> string \<Rightarrow> response" where
  "writeError status ec msg = \<lparr>respStatus = status, respBody = PError ec msg\<rparr>"

text \<open>A nil logger inside the interface value is not nil: logging through it panics.\<close>

definition writeInternal ::
    "('q, 'm) env \<Rightarrow> goerr \<Rightarrow> string \<Rightarrow> ('q, 'm) world \<Rightarrow> response outcome \<times> ('q, 'm) world" where
  "writeInternal E err ec w =
     (if e_logger E
      then (Ret (writeError 500 CodeInternalError ''internal error''),
            w\<lparr>w_errors := w_errors w @ [(ec, errText err)]\<rparr>)
      else (Panic ''nil pointer dereference'', w))"

fun mapProvisionError :: "goerr option \<Rightarrow> response option" where
  "mapProvisionError None = None"
| "mapProvisionError (Some err) = Some
     (if err = ErrInvalidName then writeError 400 CodeInvalidProjectName (errText err)
      else if err = ErrNotFound then writeError 404 CodeDatabaseNotFound ''database project not found''
      else if err = ErrAlreadyExists
        then writeError 409 CodeDatabaseAlreadyExists ''database project already exists''
      else if err = ErrConfirmationNeeded then writeError 400 CodeConfirmationRequired ''confirmation required''
      else if err = ErrConfirmMismatch
        then writeError 400 CodeConfirmationRequired ''confirmation does not match project name''
      else writeError 500 CodeInternalError ''internal error'')"

definition map_or_internal ::
    "('q, 'm) env \<Rightarrow> goerr \<Rightarrow> ('q, 'm) world \<Rightarrow> response outcome \<times> ('q, 'm) world" where
  "map_or_internal E err w =
     (case mapProvisionError (Some err) of
        Some resp \<Rightarrow> (Ret resp, w)
      | None \<Rightarrow> writeInternal E err CodeInternalError w)"

section \<open>Helpers\<close>

text \<open>\<open>net.SplitHostPort\<close>: the host part, or None on an error.\<close>

definition LastIndexByte :: "string \<Rightarrow> char \<Rightarrow> nat option" where
  "LastIndexByte s c = map_option (\<lambda>i. length s - 1 - i) (IndexByte (rev s) c)"

definition SplitHost :: "string \<Rightarrow> string option" where
  "SplitHost hp =
     (case LastIndexByte hp (CHR '':'') of
        None \<Rightarrow> None
      | Some i \<Rightarrow>
          (if HasPrefix hp ''['' then
             (case IndexByte hp (CHR '']'') of
                None \<Rightarrow> None
              | Some e \<Rightarrow>
                  (if e + 1 = i \<and> CHR ''['' \<notin> set (drop 1 hp) \<and> CHR '']'' \<notin> set (drop (e + 1) hp)
                   then Some (take (e - 1) (drop 1 hp)) else None))
           else if CHR '':'' \<in> set (take i hp) then None
           else if CHR ''['' \<in> set hp \<or> CHR '']'' \<in> set hp then None
           else Some (take i hp)))"

definition clientIP :: "request \<Rightarrow> string" where
  "clientIP r = (case SplitHost (RemoteAddr r) of None \<Rightarrow> RemoteAddr r | Some host \<Rightarrow> host)"

definition toView :: "DatabaseProject \<Rightarrow> ProjectView" where
  "toView p =
     \<lparr>vwName = Name p, vwDatabase = DatabaseName p, vwUser = DatabaseUser p,
      vwSecretPath = SecretPath p, vwStatus = Status p, vwLastError = LastError p,
      vwCreatedAt = formatRFC3339 (CreatedAt p), vwUpdatedAt = formatRFC3339 (UpdatedAt p)\<rparr>"

text \<open>Decoding a body into a struct with one string field; None when there is no value, or
  when it has the wrong type.\<close>

definition decode_struct :: "string \<Rightarrow> json option \<Rightarrow> string option" where
  "decode_struct key body =
     (case body of
        None \<Rightarrow> None
      | Some v \<Rightarrow>
          (case decode_strings [key] v Map.empty of
             (m, ok) \<Rightarrow> if ok then Some (field m key) else None))"

lemma decode_struct_exact: "decode_struct key (Some (JObj [(key, JStr s)])) = Some s"
  by (simp add: decode_struct_def decode_strings_def field_def)

section \<open>Handlers\<close>

type_synonym ('q, 'm) handler =
  "request \<Rightarrow> ('q, 'm) world \<Rightarrow> response outcome \<times> ('q, 'm) world"

definition health :: "('q, 'm) handler" where
  "health r w = (Ret (writeJSON 200 PHealth), w)"

definition listDatabases :: "('q, 'm) env \<Rightarrow> ('q, 'm) handler" where
  "listDatabases E r w =
     on_call (Service_List E w)
       (\<lambda>err w. writeInternal E err CodeInternalError w)
       (\<lambda>items w. (Ret (writeJSON 200 (PItems (map toView items))), w))"

definition invalid_name :: "goerr \<Rightarrow> response" where
  "invalid_name err = writeError 400 CodeInvalidProjectName (errText err)"

definition getDatabase :: "('q, 'm) env \<Rightarrow> string \<Rightarrow> ('q, 'm) handler" where
  "getDatabase E pathName r w =
     (let name = TrimSpace pathName in
      case ValidateProjectName name of
        Some err \<Rightarrow> (Ret (invalid_name err), w)
      | None \<Rightarrow>
          on_call (Service_Get E name (clientIP r) w)
            (map_or_internal E)
            (\<lambda>p w. (Ret (writeJSON 200 (PProject (toView p))), w)))"

definition create_error :: "('q, 'm) env \<Rightarrow> goerr \<Rightarrow> ('q, 'm) world \<Rightarrow> response outcome \<times> ('q, 'm) world" where
  "create_error E err w =
     (if Contains (errText err) ''secret''
      then (Ret (writeError 500 CodeSecretWriteError ''secret file write failed''), w)
      else if Contains (errText err) ''create database'' \<or> Contains (errText err) ''create user''
        \<or> Contains (errText err) ''grant'' \<or> Contains (errText err) ''alter user''
      then (Ret (writeError 502 CodeMySQLError ''MySQL provisioning failed''), w)
      else map_or_internal E err w)"

definition createDatabase :: "('q, 'm) env \<Rightarrow> ('q, 'm) handler" where
  "createDatabase E r w =
     (case decode_struct ''name'' (BodyValue r) of
        None \<Rightarrow> (Ret (writeError 400 CodeBadRequest ''invalid JSON body''), w)
      | Some n \<Rightarrow>
          (let name = TrimSpace n in
           case ValidateProjectName name of
             Some err \<Rightarrow> (Ret (invalid_name err), w)
           | None \<Rightarrow>
               on_call (Service_Create E name (clientIP r) w)
                 (create_error E)
                 (\<lambda>res w. (Ret (writeJSON (if Idempotent res then 200 else 201)
                     (PProject (toView (Project res)))), w))))"

definition rotate_error :: "('q, 'm) env \<Rightarrow> goerr \<Rightarrow> ('q, 'm) world \<Rightarrow> response outcome \<times> ('q, 'm) world" where
  "rotate_error E err w =
     (if Contains (errText err) ''secret''
      then (Ret (writeError 500 CodeSecretWriteError ''secret file write failed''), w)
      else map_or_internal E err w)"

definition rotateDatabase :: "('q, 'm) env \<Rightarrow> string \<Rightarrow> ('q, 'm) handler" where
  "rotateDatabase E pathName r w =
     (let name = TrimSpace pathName in
      case ValidateProjectName name of
        Some err \<Rightarrow> (Ret (invalid_name err), w)
      | None \<Rightarrow>
          on_call (Service_Rotate E name (clientIP r) w)
            (rotate_error E)
            (\<lambda>p w. (Ret (writeJSON 200 (PProject (toView p))), w)))"

text \<open>The body of a deletion may be missing.\<close>

definition confirmation :: "request \<Rightarrow> string option" where
  "confirmation r = (if ContentLength r > 0 then decode_struct ''confirm'' (BodyValue r) else Some [])"

definition deleteDatabase :: "('q, 'm) env \<Rightarrow> string \<Rightarrow> ('q, 'm) handler" where
  "deleteDatabase E pathName r w =
     (let name = TrimSpace pathName in
      case ValidateProjectName name of
        Some err \<Rightarrow> (Ret (invalid_name err), w)
      | None \<Rightarrow>
          (case confirmation r of
             None \<Rightarrow> (Ret (writeError 400 CodeBadRequest ''invalid JSON body''), w)
           | Some confirm \<Rightarrow>
               on_call (Service_Delete E name confirm (clientIP r) w)
                 (map_or_internal E)
                 (\<lambda>_ w. (Ret \<lparr>respStatus = 204, respBody = PEmpty\<rparr>, w))))"

section \<open>Middleware and routes\<close>

definition token_entry :: "string \<Rightarrow> string \<Rightarrow> bool \<Rightarrow> string \<Rightarrow> string \<Rightarrow> AuditLog" where
  "token_entry action name ok msg ip =
     \<lparr>audID = 0, Action = action, Resource = ''token'', ResourceName = name, Success = ok,
      Message = msg, RemoteIP = ip, audCreatedAt = zeroTime\<rparr>"

definition requireAuth :: "('q, 'm) env \<Rightarrow> ('q, 'm) handler \<Rightarrow> ('q, 'm) handler" where
  "requireAuth E next_handler r w =
     (let ip = clientIP r in
      on_call (sql_call E (\<lambda>t. Lookup (e_sql E) t (Authorization r)) w)
        (\<lambda>err w. (Ret (writeError 401 CodeUnauthorized ''invalid or missing token''),
           snd (Logger_Write E (token_entry ActionAuthFailure [] False ''invalid token'' ip) w)))
        (\<lambda>tok w. next_handler r
           (snd (Logger_Write E (token_entry ActionAuthSuccess (tokName tok) True [] ip) w))))"

text \<open>The patterns of the mux, in the order they are registered; \<open>GET\<close> also takes \<open>HEAD\<close>, and
  \<open>{name}\<close> takes one segment that is not empty.\<close>

datatype route = RHealth | RList | RGet string | RCreate | RRotate string | RDelete string

definition patterns :: "string list \<Rightarrow> (string \<times> route) list" where
  "patterns segs =
     (if segs = [''health''] then [(''GET'', RHealth)]
      else if segs = [''v1'', ''databases''] then [(''GET'', RList), (''POST'', RCreate)]
      else case segs of
        [a, b, name] \<Rightarrow>
          (if a = ''v1'' \<and> b = ''databases'' \<and> name \<noteq> [] then [(''GET'', RGet name), (''DELETE'', RDelete name)]
           else [])
      | [a, b, name, c] \<Rightarrow>
          (if a = ''v1'' \<and> b = ''databases'' \<and> name \<noteq> [] \<and> c = ''rotate'' then [(''POST'', RRotate name)]
           else [])
      | _ \<Rightarrow> [])"

definition find_route :: "string \<Rightarrow> string list \<Rightarrow> (nat, route) sum" where
  "find_route meth segs =
     (case map_of (patterns segs) (if meth = ''HEAD'' then ''GET'' else meth) of
        Some rt \<Rightarrow> Inr rt
      | None \<Rightarrow> Inl (if patterns segs = [] then 404 else 405))"

fun route_handler :: "('q, 'm) env \<Rightarrow> route \<Rightarrow> ('q, 'm) handler" where
  "route_handler E RHealth = health"
| "route_handler E RList = requireAuth E (listDatabases E)"
| "route_handler E (RGet n) = requireAuth E (getDatabase E n)"
| "route_handler E RCreate = requireAuth E (createDatabase E)"
| "route_handler E (RRotate n) = requireAuth E (rotateDatabase E n)"
| "route_handler E (RDelete n) = requireAuth E (deleteDatabase E n)"

definition mux :: "('q, 'm) env \<Rightarrow> ('q, 'm) handler" where
  "mux E r w =
     (case find_route (Method r) (Segments r) of
        Inr rt \<Rightarrow> route_handler E rt r w
      | Inl st \<Rightarrow> (Ret \<lparr>respStatus = st, respBody = PText (if st = 404 then ''404 page not found'' else ''Method Not Allowed'')\<rparr>, w))"

definition logRequest :: "('q, 'm) env \<Rightarrow> ('q, 'm) handler \<Rightarrow> ('q, 'm) handler" where
  "logRequest E h r w =
     (if \<not> e_logger E then h r w
      else case h r w of
        (Ret resp, w) \<Rightarrow>
          (Ret resp, w\<lparr>w_access := w_access w
             @ [(Method r, Join (map (\<lambda>s. CHR ''/'' # s) (Segments r)) [], respStatus resp, clientIP r)]\<rparr>)
      | (x, w) \<Rightarrow> (x, w))"

definition Routes :: "('q, 'm) env \<Rightarrow> ('q, 'm) handler" where
  "Routes E = logRequest E (mux E)"

section \<open>What a refused request does\<close>

text \<open>The answer to a request without an accepted token: it depends on the method and the path
  alone.\<close>

definition refusal :: "request \<Rightarrow> response" where
  "refusal r =
     (case find_route (Method r) (Segments r) of
        Inr rt \<Rightarrow> if rt = RHealth then writeJSON 200 PHealth
          else writeError 401 CodeUnauthorized ''invalid or missing token''
      | Inl st \<Rightarrow> \<lparr>respStatus = st,
          respBody = PText (if st = 404 then ''404 page not found'' else ''Method Not Allowed'')\<rparr>)"

context service
begin

lemma Lookup_call_fail:
  "sql_call E (\<lambda>t. Lookup (e_sql E) t h) w = (Fail e, w') \<Longrightarrow> unchanged w w'"
  by (auto simp: sql_call_def unchanged_def touches_refl split: prod.splits dest!: db.Lookup_fail_state)

lemma requireAuth_refused:
  assumes "fst (sql_call E (\<lambda>t. Lookup (e_sql E) t (Authorization r)) w) = Fail e"
  shows "unchanged w (snd (requireAuth E k r w))"
    and "fst (requireAuth E k r w) = Ret (writeError 401 CodeUnauthorized ''invalid or missing token'')"
proof -
  obtain w1 where l: "sql_call E (\<lambda>t. Lookup (e_sql E) t (Authorization r)) w = (Fail e, w1)"
    using assms by (metis prod.collapse)
  from unchanged_trans [OF Lookup_call_fail [OF l] Logger_Write_unchanged]
  show "unchanged w (snd (requireAuth E k r w))" by (simp add: requireAuth_def Let_def l)
  show "fst (requireAuth E k r w) = Ret (writeError 401 CodeUnauthorized ''invalid or missing token'')"
    by (simp add: requireAuth_def Let_def l)
qed

lemma refused_request:
  assumes "fst (sql_call E (\<lambda>t. Lookup (e_sql E) t (Authorization r)) w) = Fail e"
  shows "unchanged w (snd (Routes E r w))"
    and "fst (Routes E r w) = Ret (refusal r)"
proof -
  note a = requireAuth_refused [OF assms]
  have m: "unchanged w (snd (mux E r w)) \<and> fst (mux E r w) = Ret (refusal r)"
  proof (cases "find_route (Method r) (Segments r)")
    case (Inl st)
    then show ?thesis by (simp add: mux_def refusal_def unchanged_refl)
  next
    case (Inr rt)
    with a show ?thesis by (cases rt) (simp_all add: mux_def refusal_def health_def unchanged_refl)
  qed
  then show "unchanged w (snd (Routes E r w))" "fst (Routes E r w) = Ret (refusal r)"
    by (cases "mux E r w"; simp add: Routes_def logRequest_def)+
qed

end

text \<open>A token is accepted when it is stored and not revoked.\<close>

definition accepted :: "tables \<Rightarrow> string \<Rightarrow> bool" where
  "accepted t h \<longleftrightarrow>
     (case bearer_token h of
        None \<Rightarrow> False
      | Some raw \<Rightarrow> list_ex (\<lambda>row. t_hash row = HashToken raw \<and> t_revoked row = None) (tokens t))"

lemma Lookup_no_panic: "fst (Lookup Q t h q) \<noteq> Panic m"
  by (simp add: Lookup_bearer GetTokenByHash_no_panic split: option.splits outcome.splits)

text \<open>C6: a request without an accepted token gets one answer whatever the server holds: the
  envelope 401 on every project route, the texts 404 or 405 where there is no route, and 200
  for the health check only; it changes no project, no token, nothing in MySQL and no file.\<close>

theorem unauthenticated_request_refused:
  assumes "service E view cat" and "\<not> accepted (view (w_sql w)) (Authorization r)"
  shows "only_audited view w (snd (Routes E r w)) \<and> fst (Routes E r w) = Ret (refusal r)"
proof -
  have "\<exists>e. fst (sql_call E (\<lambda>t. Lookup (e_sql E) t (Authorization r)) w) = Fail e"
  proof (cases "Lookup (e_sql E) (e_time E (w_ticks w)) (Authorization r) (w_sql w)")
    case (Pair x q)
    show ?thesis
    proof (cases x)
      case (Ret tok)
      with Pair have "Lookup (e_sql E) (e_time E (w_ticks w)) (Authorization r) (w_sql w) = (Ret tok, q)" by simp
      then obtain raw row where "bearer_token (Authorization r) = Some raw" "row \<in> set (tokens (view (w_sql w)))"
        "t_hash row = HashToken raw" "t_revoked row = None"
        by (rule sqlite_engine.Lookup_ret [OF service.sql [OF assms(1)]])
      with assms(2) show ?thesis by (auto simp: accepted_def list_ex_iff)
    next
      case (Panic m)
      with Pair Lookup_no_panic [of "e_sql E" "e_time E (w_ticks w)" "Authorization r" "w_sql w" m]
      show ?thesis by simp
    qed (simp add: sql_call_def Pair)
  qed
  then obtain e where e: "fst (sql_call E (\<lambda>t. Lookup (e_sql E) t (Authorization r)) w) = Fail e" ..
  from service.refused_request [OF assms(1) e] show ?thesis by blast
qed

definition demo_request :: request where
  "demo_request = \<lparr>Method = ''DELETE'', Segments = [''v1'', ''databases'', ''app''], Authorization = ''Basic x'',
     RemoteAddr = ''127.0.0.1:9'', ContentLength = 0, BodyValue = None\<rparr>"

theorem unauthenticated_request_refused_witness:
  "fst (Routes reference_env demo_request fresh_world) = Ret (writeError 401 CodeUnauthorized ''invalid or missing token'')"
proof -
  have "\<not> accepted (w_sql fresh_world) (Authorization demo_request)"
    by (simp add: accepted_def fresh_world_def empty_tables_def split: option.splits)
  from unauthenticated_request_refused [OF reference_service.service_axioms this]
  have "fst (Routes reference_env demo_request fresh_world) = Ret (refusal demo_request)" by blast
  then show ?thesis by (simp add: refusal_def find_route_def patterns_def demo_request_def)
qed

section \<open>A creation over HTTP\<close>

lemma Routes_ret:
  "Routes E r w = (Ret resp, w') \<Longrightarrow> \<exists>w1. mux E r w = (Ret resp, w1) \<and> w_sql w' = w_sql w1
     \<and> w_my w' = w_my w1 \<and> w_disk w' = w_disk w1"
  by (auto simp: Routes_def logRequest_def split: prod.splits outcome.splits if_splits)

lemma map_or_internal_error: "\<exists>resp. map_or_internal E e w = (Ret resp, w) \<and> 400 \<le> respStatus resp"
  by (simp add: map_or_internal_def writeError_def)

lemma create_error_error: "\<exists>resp. create_error E e w = (Ret resp, w) \<and> 400 \<le> respStatus resp"
  using map_or_internal_error [of E e w] by (simp add: create_error_def writeError_def)

lemma createDatabase_ret:
  assumes "createDatabase E r w = (Ret resp, w')" and "respStatus resp < 400"
  shows "\<exists>m res. decode_struct ''name'' (BodyValue r) = Some m
    \<and> Service_Create E (TrimSpace m) (clientIP r) w = (Ret res, w')
    \<and> respStatus resp = (if Idempotent res then 200 else 201) \<and> respBody resp = PProject (toView (Project res))"
proof -
  from assms obtain m where m: "decode_struct ''name'' (BodyValue r) = Some m" "ValidateProjectName (TrimSpace m) = None"
    by (auto simp: createDatabase_def writeError_def invalid_name_def Let_def split: option.splits)
  obtain x w1 where c: "Service_Create E (TrimSpace m) (clientIP r) w = (x, w1)" by (metis surj_pair)
  show ?thesis
  proof (cases x)
    case (Ret res)
    with assms(1) m c show ?thesis by (auto simp: createDatabase_def writeJSON_def)
  next
    case (Fail e)
    with assms m c create_error_error [of E e w1] show ?thesis by (auto simp: createDatabase_def)
  next
    case (Panic q)
    with assms m c show ?thesis by (simp add: createDatabase_def)
  qed
qed

context service
begin

lemma requireAuth_ret:
  assumes "requireAuth E k r w = (Ret resp, w')" and "respStatus resp \<noteq> 401"
  obtains w1 where "accepted (view (w_sql w)) (Authorization r)" "k r w1 = (Ret resp, w')"
    "projs w1 = projs w" "w_my w1 = w_my w" "files (w_disk w1) = files (w_disk w)" "w_draws w1 = w_draws w"
    "projects (view (w_sql w1)) = projects (view (w_sql w))"
proof -
  obtain x w1 where l: "sql_call E (\<lambda>t. Lookup (e_sql E) t (Authorization r)) w = (x, w1)" by (metis surj_pair)
  then obtain q where q: "Lookup (e_sql E) (e_time E (w_ticks w)) (Authorization r) (w_sql w) = (x, q)"
    "w1 = w\<lparr>w_sql := q, w_ticks := Suc (w_ticks w)\<rparr>"
    by (auto simp: sql_call_def split: prod.splits)
  from assms l obtain tok where x: "x = Ret tok" by (cases x) (auto simp: requireAuth_def writeError_def Let_def)
  let ?w2 = "snd (Logger_Write E (token_entry ActionAuthSuccess (tokName tok) True [] (clientIP r)) w1)"
  have "accepted (view (w_sql w)) (Authorization r)"
    using q(1) [unfolded x] by (rule db.Lookup_ret) (auto simp: accepted_def list_ex_iff)
  moreover have "k r ?w2 = (Ret resp, w')" using assms(1) l x by (simp add: requireAuth_def Let_def)
  moreover have u: "unchanged w1 ?w2" by (rule Logger_Write_unchanged)
  have "projs w1 = projs w"
    using db.Lookup_projects [of "e_time E (w_ticks w)" "Authorization r" "w_sql w"] q by simp
  with unchanged_projs [OF u] have "projs ?w2 = projs w" by simp
  moreover have "files (w_disk ?w2) = files (w_disk w)"
    using unchanged_files [OF u] q(2) by (simp add: fun_eq_iff)
  moreover have "w_my ?w2 = w_my w" "w_draws ?w2 = w_draws w" using u q(2) by (simp_all add: unchanged_def)
  moreover have "projects (view (w_sql ?w2)) = projects (view (w_sql w))"
    using db.Lookup_rows [of "e_time E (w_ticks w)" "Authorization r" "w_sql w"] q u by (simp add: unchanged_def)
  ultimately show thesis using \<open>projs ?w2 = projs w\<close> by (intro that [of ?w2])
qed

text \<open>A handler that was reached answered for an accepted token, on the same projects.\<close>

lemma Routes_reached:
  assumes "Routes E r w = (Ret resp, w')" and "find_route (Method r) (Segments r) = Inr rt"
    and "\<And>w. route_handler E rt r w = requireAuth E k r w" and "respStatus resp \<noteq> 401"
  obtains w1 w2 where "accepted (view (w_sql w)) (Authorization r)" "k r w1 = (Ret resp, w2)"
    "projs w1 = projs w" "w_my w1 = w_my w" "w_draws w1 = w_draws w" "rows_ok (view (w_sql w)) \<longrightarrow> rows_ok (view (w_sql w1))"
    "w_sql w' = w_sql w2" "w_my w' = w_my w2" "w_disk w' = w_disk w2"
proof -
  from Routes_ret [OF assms(1)] obtain w2 where m: "mux E r w = (Ret resp, w2)"
    and s: "w_sql w' = w_sql w2" "w_my w' = w_my w2" "w_disk w' = w_disk w2" by blast
  from m assms(2,3) have "requireAuth E k r w = (Ret resp, w2)" by (simp add: mux_def)
  then show thesis
  proof (rule requireAuth_ret [OF _ assms(4)])
    fix w1 assume a: "accepted (view (w_sql w)) (Authorization r)" "k r w1 = (Ret resp, w2)" "projs w1 = projs w"
      "w_my w1 = w_my w" "w_draws w1 = w_draws w" "projects (view (w_sql w1)) = projects (view (w_sql w))"
    then show thesis using s by (intro that [of w1 w2]) (simp_all add: rows_ok_def)
  qed
qed

text \<open>What a creation answered below 400 means: the project exists and is ready, and if it did
  not exist before, it was provisioned.\<close>

lemma Routes_create:
  assumes "Routes E r w = (Ret resp, w')" and "find_route (Method r) (Segments r) = Inr RCreate"
    and "respStatus resp < 400"
  shows "accepted (view (w_sql w)) (Authorization r)
    \<and> (\<exists>m res. decode_struct ''name'' (BodyValue r) = Some m \<and> valid_name (TrimSpace m)
        \<and> respStatus resp = (if Idempotent res then 200 else 201)
        \<and> respBody resp = PProject (toView (Project res))
        \<and> (if Idempotent res then projs w (TrimSpace m) \<noteq> None
           else projs w (TrimSpace m) = None
             \<and> (\<exists>pw. RandomPassword (e_entropy E) (w_draws w) = (Ret pw, w_draws w + 2)
                  \<and> complete (TrimSpace m) pw (create_stmts (TrimSpace m) pw (e_allowDrop E)) (cat (w_my w)) res w')))"
proof -
  obtain w1 w2 where a: "accepted (view (w_sql w)) (Authorization r)" and c: "createDatabase E r w1 = (Ret resp, w2)"
    and p: "projs w1 = projs w" and my: "w_my w1 = w_my w" and dr: "w_draws w1 = w_draws w"
    and s: "w_sql w' = w_sql w2" "w_my w' = w_my w2" "w_disk w' = w_disk w2"
    using assms by (elim Routes_reached) auto
  from createDatabase_ret [OF c assms(3)] obtain k res where
    d: "decode_struct ''name'' (BodyValue r) = Some k"
    and sc: "Service_Create E (TrimSpace k) (clientIP r) w1 = (Ret res, w2)"
    and b: "respStatus resp = (if Idempotent res then 200 else 201)" "respBody resp = PProject (toView (Project res))"
    by blast
  have eq: "complete n pw sts cc res w2 = complete n pw sts cc res w'" for n pw sts cc
    using s by (simp add: complete_def)
  have ni: "complete n pw sts cc res w' \<Longrightarrow> \<not> Idempotent res" for n pw sts cc
    by (simp add: complete_def)
  from Create_ret [OF sc] have "valid_name (TrimSpace k) \<and> (if Idempotent res then projs w (TrimSpace k) \<noteq> None
      else projs w (TrimSpace k) = None
        \<and> (\<exists>pw. RandomPassword (e_entropy E) (w_draws w) = (Ret pw, w_draws w + 2)
             \<and> complete (TrimSpace k) pw (create_stmts (TrimSpace k) pw (e_allowDrop E)) (cat (w_my w)) res w'))"
    unfolding eq p my dr by (auto dest: ni)
  with a d b show ?thesis by blast
qed

text \<open>What a deletion answered below 400 means.\<close>

lemma deleteDatabase_ret:
  assumes "deleteDatabase E n r w = (Ret resp, w')" and "respStatus resp < 400"
  shows "\<exists>c. confirmation r = Some c \<and> Service_Delete E (TrimSpace n) c (clientIP r) w = (Ret (), w')
    \<and> respStatus resp = 204 \<and> respBody resp = PEmpty"
proof -
  from assms obtain c where c: "confirmation r = Some c"
    and v: "ValidateProjectName (TrimSpace n) = None"
    by (auto simp: deleteDatabase_def writeError_def invalid_name_def Let_def split: option.splits)
  obtain x w1 where d: "Service_Delete E (TrimSpace n) c (clientIP r) w = (x, w1)" by (metis surj_pair)
  have k: "deleteDatabase E n r w = on_call (x, w1) (map_or_internal E)
      (\<lambda>_ w. (Ret \<lparr>respStatus = 204, respBody = PEmpty\<rparr>, w))"
    unfolding deleteDatabase_def Let_def v c by (simp add: d)
  show ?thesis
  proof (cases x)
    case (Ret u)
    with assms(1) k d have "Service_Delete E (TrimSpace n) c (clientIP r) w = (Ret (), w')"
      "respStatus resp = 204 \<and> respBody resp = PEmpty" by auto
    with c show ?thesis by blast
  next
    case (Fail e)
    with assms k map_or_internal_error [of E e w1] show ?thesis by simp
  next
    case (Panic m)
    with assms(1) k show ?thesis by simp
  qed
qed

lemma Routes_delete:
  assumes "Routes E r w = (Ret resp, w')" and "find_route (Method r) (Segments r) = Inr (RDelete n)"
    and "respStatus resp < 400" and "rows_ok (view (w_sql w))"
  shows "accepted (view (w_sql w)) (Authorization r) \<and> respStatus resp = 204 \<and> respBody resp = PEmpty
    \<and> confirmation r = Some (TrimSpace n)
    \<and> projs w (TrimSpace n) \<noteq> None \<and> projs w' (TrimSpace n) = None
    \<and> files (w_disk w') (Path (e_dir E) (TrimSpace n)) = None
    \<and> (\<exists>c. cat (w_my w') = effects (SDropDatabase (db_of (TrimSpace n)) # drop_user_stmts (user_of (TrimSpace n))) c)"
proof -
  obtain w1 w2 where a: "accepted (view (w_sql w)) (Authorization r)" and c: "deleteDatabase E n r w1 = (Ret resp, w2)"
    and p: "projs w1 = projs w" and rows: "rows_ok (view (w_sql w1))"
    and s: "w_sql w' = w_sql w2" "w_my w' = w_my w2" "w_disk w' = w_disk w2"
    using assms by (elim Routes_reached) auto
  from deleteDatabase_ret [OF c assms(3)] obtain k where
    cf: "confirmation r = Some k" and
    d: "Service_Delete E (TrimSpace n) k (clientIP r) w1 = (Ret (), w2)" and b: "respStatus resp = 204" "respBody resp = PEmpty"
    by blast
  from Delete_ret [OF d rows] cf a b p s show ?thesis by (simp del: if_split) blast
qed

end

text \<open>C7: \<open>POST /v1/databases\<close> answers 201 only to an accepted token, and only after it has
  provisioned the project named in the body, which did not exist: its row, which the response
  shows, is ready, the database is there, both accounts may use it, and the env file is
  complete. Its password is the one just drawn, and that of every account that was not there
  before.\<close>

theorem http_create_provisions:
  assumes "service E view cat" and "find_route (Method r) (Segments r) = Inr RCreate"
    and "Routes E r w = (Ret resp, w')" and "respStatus resp = 201"
  shows "accepted (view (w_sql w)) (Authorization r)
    \<and> (\<exists>m p pw. decode_struct ''name'' (BodyValue r) = Some m \<and> valid_name (TrimSpace m)
        \<and> project_map (view (w_sql w)) (TrimSpace m) = None
        \<and> project_map (view (w_sql w')) (TrimSpace m) = Some p \<and> Status p = StatusReady
        \<and> respBody resp = PProject (toView p)
        \<and> RandomPassword (e_entropy E) (w_draws w) = (Ret pw, w_draws w + 2)
        \<and> provisioned (TrimSpace m) pw (cat (w_my w)) (cat (w_my w'))
        \<and> files (w_disk w') (Path (e_dir E) (TrimSpace m))
          = Some \<lparr>content = renderEnv (secret_of (TrimSpace m) pw), mode = m0600\<rparr>)"
proof -
  have "respStatus resp < 400" using assms(4) by simp
  from service.Routes_create [OF assms(1,3,2) this] assms(4) show ?thesis
    by (auto simp: service.complete_def [OF assms(1)] create_stmts_provisioned env_file_def split: if_splits)
qed

definition create_request :: request where
  "create_request = \<lparr>Method = ''POST'', Segments = [''v1'', ''databases''], Authorization = ''Bearer dbi_x'',
     RemoteAddr = ''127.0.0.1:9'', ContentLength = 14, BodyValue = Some (JObj [(''name'', JStr ''app'')])\<rparr>"

lemma ref_requireAuth:
  assumes "Authorization r = ''Bearer dbi_x''" and "tokens (w_sql w) = tokens one_token"
  obtains w2 where "\<And>k. requireAuth reference_env k r w = k r w2"
    "project_map (w_sql w2) = project_map (w_sql w)" "projects (w_sql w2) = projects (w_sql w)"
    "w_draws w2 = w_draws w" "files (w_disk w2) = files (w_disk w)"
proof -
  let ?tok = "scanToken (hd (tokens one_token))"
  let ?q = "snd (Lookup table_engine (e_time reference_env (w_ticks w)) (Authorization r) (w_sql w))"
  let ?w1 = "w\<lparr>w_sql := ?q, w_ticks := Suc (w_ticks w)\<rparr>"
  let ?w2 = "snd (Logger_Write reference_env (token_entry ActionAuthSuccess (tokName ?tok) True [] (clientIP r)) ?w1)"
  have l: "sql_call reference_env (\<lambda>t. Lookup table_engine t (Authorization r)) w = (Ret ?tok, ?w1)"
    by (simp add: sql_call_def assms(1) token_lookup [OF assms(2)])
  have u: "only_audited (\<lambda>t. t) ?w1 ?w2" by (rule reference_service.Logger_Write_unchanged)
  have p: "projects ?q = projects (w_sql w)" by (rule reference_sql.Lookup_rows)
  show thesis
  proof (rule that [of ?w2])
    show "requireAuth reference_env k r w = k r ?w2" for k by (simp add: requireAuth_def l Let_def)
    show "project_map (w_sql ?w2) = project_map (w_sql w)"
      using reference_service.unchanged_projs [OF u] p by (simp add: fun_eq_iff project_map_def select_project_def)
    show "projects (w_sql ?w2) = projects (w_sql w)" using u p by (simp add: only_audited_def)
    show "w_draws ?w2 = w_draws w" using u by (simp add: only_audited_def)
    show "files (w_disk ?w2) = files (w_disk w)" using reference_service.unchanged_files [OF u] by (simp add: fun_eq_iff)
  qed
qed

lemma create_request_created:
  "\<exists>resp w'. Routes reference_env create_request (fresh_world\<lparr>w_sql := one_token\<rparr>) = (Ret resp, w')
    \<and> respStatus resp = 201"
proof -
  let ?w = "fresh_world\<lparr>w_sql := one_token\<rparr>"
  obtain w2 where a: "\<And>k. requireAuth reference_env k create_request ?w = k create_request w2"
    and p: "project_map (w_sql w2) = project_map (w_sql ?w)" and f: "w_draws w2 = w_draws ?w" "files (w_disk w2) = files (w_disk ?w)"
    by (rule ref_requireAuth [of create_request ?w]) (simp_all add: create_request_def)
  have "project_map (w_sql ?w) ''app'' = None"
    by (simp add: store_op_state table_engine_def table_exec_def one_token_def empty_tables_def
        project_map_def select_project_def)
  with p f have "\<exists>res w3. Service_Create reference_env ''app'' (clientIP create_request) w2 = (Ret res, w3) \<and> \<not> Idempotent res"
    by (intro ref_Create [OF fresh_app(1)]) (simp_all add: fresh_world_def empty_disk_def)
  then obtain res w3 where c: "Service_Create reference_env ''app'' (clientIP create_request) w2 = (Ret res, w3)"
    "\<not> Idempotent res"
    by blast
  have "TrimSpace ''app'' = ''app''" by (rule valid_name_TrimSpace [OF fresh_app(1)])
  moreover have "decode_struct ''name'' (BodyValue create_request) = Some ''app''"
    by (simp add: create_request_def decode_struct_exact)
  ultimately have "createDatabase reference_env create_request w2
      = (Ret (writeJSON 201 (PProject (toView (Project res)))), w3)"
    using c fresh_app(1) by (simp add: createDatabase_def)
  moreover have "find_route (Method create_request) (Segments create_request) = Inr RCreate"
    by (simp add: find_route_def patterns_def create_request_def)
  ultimately show ?thesis by (simp add: Routes_def logRequest_def mux_def writeJSON_def a)
qed

theorem http_create_provisions_witness:
  "\<exists>resp w'. Routes reference_env create_request (fresh_world\<lparr>w_sql := one_token\<rparr>) = (Ret resp, w')
    \<and> respStatus resp = 201 \<and> db_of (TrimSpace ''app'') \<in> databases (w_my w')"
proof -
  obtain resp w' where r: "Routes reference_env create_request (fresh_world\<lparr>w_sql := one_token\<rparr>) = (Ret resp, w')"
    "respStatus resp = 201"
    using create_request_created by blast
  have "find_route (Method create_request) (Segments create_request) = Inr RCreate"
    by (simp add: find_route_def patterns_def create_request_def)
  from http_create_provisions [OF reference_service.service_axioms this r]
  obtain m where "decode_struct ''name'' (BodyValue create_request) = Some m" "db_of (TrimSpace m) \<in> databases (w_my w')"
    unfolding provisioned_def by blast
  moreover have "decode_struct ''name'' (BodyValue create_request) = Some ''app''"
    by (simp add: create_request_def decode_struct_exact)
  ultimately show ?thesis using r by auto
qed

section \<open>What error responses say\<close>

definition fixed_errors :: "(nat \<times> string \<times> string) list" where
  "fixed_errors =
     [(400, CodeBadRequest, ''invalid JSON body''),
      (400, CodeInvalidProjectName, ''invalid project name''),
      (400, CodeConfirmationRequired, ''confirmation required''),
      (400, CodeConfirmationRequired, ''confirmation does not match project name''),
      (401, CodeUnauthorized, ''invalid or missing token''),
      (404, CodeDatabaseNotFound, ''database project not found''),
      (409, CodeDatabaseAlreadyExists, ''database project already exists''),
      (500, CodeInternalError, ''internal error''),
      (500, CodeSecretWriteError, ''secret file write failed''),
      (502, CodeMySQLError, ''MySQL provisioning failed'')]"

text \<open>A response is clean when its status is an error exactly if its body is one: an envelope with a
  fixed text or the text the name policy gives, or one of the two texts of the mux.\<close>

definition clean :: "response \<Rightarrow> bool" where
  "clean resp \<longleftrightarrow>
     (case respBody resp of
        PError ec msg \<Rightarrow> (respStatus resp, ec, msg) \<in> set fixed_errors
          \<or> (respStatus resp = 400 \<and> ec = CodeInvalidProjectName
             \<and> msg \<in> {''project name is required'', ''project name too long (max '' @ Itoa MaxProjectNameLen @ '')'',
                        ''project name must match '' @ projectNameRegexText})
      | PText t \<Rightarrow> (respStatus resp, t) \<in> {(404, ''404 page not found''), (405, ''Method Not Allowed'')}
      | _ \<Rightarrow> respStatus resp < 400)"

definition clean_result :: "response outcome \<times> 'w \<Rightarrow> bool" where
  "clean_result c \<longleftrightarrow> (case fst c of Ret resp \<Rightarrow> clean resp | _ \<Rightarrow> True)"

lemma clean_fixed: "(s, ec, m) \<in> set fixed_errors \<Longrightarrow> clean_result (Ret (writeError s ec m), w)"
  by (simp add: clean_result_def clean_def writeError_def)

lemma clean_invalid_name: "ValidateProjectName n = Some e \<Longrightarrow> clean_result (Ret (invalid_name e), w)"
  by (auto simp: clean_result_def clean_def invalid_name_def writeError_def ValidateProjectName_def split: if_splits)

lemma clean_map_or_internal: "clean_result (map_or_internal E e w)"
  by (simp add: map_or_internal_def clean_fixed fixed_errors_def)

lemma clean_internal: "clean_result (writeInternal E e ec w)"
  by (simp add: writeInternal_def clean_result_def clean_def writeError_def fixed_errors_def)

lemma clean_json: "s < 400 \<Longrightarrow> clean_result (Ret (writeJSON s (PProject v)), w)"
  "s < 400 \<Longrightarrow> clean_result (Ret (writeJSON s (PItems vs)), w)"
  "s < 400 \<Longrightarrow> clean_result (Ret (writeJSON s PHealth), w)"
  "s < 400 \<Longrightarrow> clean_result (Ret \<lparr>respStatus = s, respBody = PEmpty\<rparr>, w)"
  by (simp_all add: clean_result_def clean_def writeJSON_def)

lemma clean_no_route:
  "find_route m segs = Inl st \<Longrightarrow>
     clean_result (Ret \<lparr>respStatus = st, respBody = PText (if st = 404 then ''404 page not found'' else ''Method Not Allowed'')\<rparr>, w)"
  by (auto simp: clean_result_def clean_def find_route_def split: option.splits if_splits)

lemma clean_on_call:
  "(\<And>e w. clean_result (h e w)) \<Longrightarrow> (\<And>x w. clean_result (k x w)) \<Longrightarrow> clean_result (on_call c h k)"
  by (cases c; cases "fst c") (auto simp: clean_result_def)

lemmas clean_rules = clean_map_or_internal clean_internal clean_json clean_invalid_name

lemma clean_errors: "clean_result (create_error E e w)" "clean_result (rotate_error E e w)"
  by (simp_all add: create_error_def rotate_error_def clean_map_or_internal clean_fixed fixed_errors_def)

lemma clean_handlers:
  "clean_result (listDatabases E r w)" "clean_result (getDatabase E n r w)" "clean_result (createDatabase E r w)"
  "clean_result (rotateDatabase E n r w)" "clean_result (deleteDatabase E n r w)"
proof -
  have bad: "clean_result (Ret (writeError 400 CodeBadRequest ''invalid JSON body''), w)" for w :: "('a, 'b) world"
    by (rule clean_fixed) (simp add: fixed_errors_def)
  show "clean_result (listDatabases E r w)"
    unfolding listDatabases_def by (intro clean_on_call clean_rules) simp_all
  show "clean_result (getDatabase E n r w)"
    unfolding getDatabase_def Let_def by (auto split: option.splits intro!: clean_on_call clean_rules)
  show "clean_result (createDatabase E r w)"
    unfolding createDatabase_def Let_def by (auto split: option.splits intro!: clean_on_call clean_rules clean_errors bad)
  show "clean_result (rotateDatabase E n r w)"
    unfolding rotateDatabase_def Let_def by (auto split: option.splits intro!: clean_on_call clean_rules clean_errors)
  show "clean_result (deleteDatabase E n r w)"
    unfolding deleteDatabase_def Let_def by (auto split: option.splits intro!: clean_on_call clean_rules bad)
qed

lemma clean_requireAuth: "(\<And>w. clean_result (k r w)) \<Longrightarrow> clean_result (requireAuth E k r w)"
  unfolding requireAuth_def Let_def
  by (intro clean_on_call) (simp_all add: clean_fixed fixed_errors_def)

text \<open>C14: a response with an error status has one of fixed bodies: ten envelopes, the three texts
  of the name policy, and the two texts of the mux. So no handler puts the error it met into
  its response; an error envelope never comes with another status.\<close>

theorem error_responses_are_fixed:
  "clean_result (Routes E r w)"
proof -
  have "clean_result (route_handler E rt r w)" for rt
    by (cases rt) (auto simp: health_def intro!: clean_requireAuth clean_handlers clean_json)
  then have "clean_result (mux E r w)"
    by (auto simp: mux_def clean_no_route split: sum.splits)
  then show ?thesis
    by (auto simp: Routes_def logRequest_def clean_result_def split: prod.splits outcome.splits)
qed

section \<open>Error codes by substring\<close>

lemma name_char_code: "name_char c \<Longrightarrow> 45 \<le> code c \<and> code c \<le> 122 \<and> code c \<noteq> 92"
  unfolding name_char_def char_class_defs by auto

lemma quote_name_char: "name_char c \<Longrightarrow> quote_char c = [c]"
proof -
  assume "name_char c"
  then have r: "45 \<le> code c" "code c \<le> 122" "code c \<noteq> 92" by (simp_all add: name_char_code)
  have "c \<notin> {CHR 0x22, CHR 0x5C, CHR 0x07, CHR 0x08, CHR 0x0C, CHR 0x0A, CHR 0x0D, CHR 0x09, CHR 0x0B}"
    using r by auto
  then show ?thesis using r by (simp add: quote_char_def)
qed

lemma Quote_valid: "valid_name n \<Longrightarrow> Quote n = [CHR 0x22] @ n @ [CHR 0x22]"
proof -
  assume "valid_name n"
  then have "list_all name_char n" by (simp add: valid_name_iff)
  then have "concat (map quote_char n) = n" by (induction n) (simp_all add: quote_name_char)
  then show ?thesis by (simp add: Quote_def)
qed

lemma Contains_trans_mid: "Contains n sub \<Longrightarrow> Contains (a @ n @ b) sub"
proof -
  assume "Contains n sub"
  then obtain x y where "n = x @ sub @ y" by (auto simp: Contains_iff)
  then have "a @ n @ b = (a @ x) @ sub @ (y @ b)" by simp
  then show ?thesis by (simp only: Contains_mid)
qed

text \<open>The error codes of a failed creation are guessed from words in the error text, and
  the guess can be wrong both ways: a refused creation of an existing, unfinished project
  whose name contains the word secret is reported as a failed secret write although nothing
  was written, and the secret writer's refusal of a long name is reported as an internal
  error.\<close>

theorem secret_code_misleads:
  assumes "decode_struct ''name'' (BodyValue r) = Some n" and "valid_name n" and "Contains n ''secret''"
    and "GetProject (e_sql E) n (w_sql w) = Ret p" and "Status p \<noteq> StatusReady"
  shows "createDatabase E r w = (Ret (writeError 500 CodeSecretWriteError ''secret file write failed''), w)
    \<and> create_error E (ErrText ''identifier too long'') w
      = (Ret (writeError 500 CodeInternalError ''internal error''), w)"
proof -
  let ?e = "''project '' @ Quote n @ '' exists with status '' @ Quote (Status p) @ ''; delete it first''"
  have "Contains ((''project '' @ [CHR 0x22]) @ n @ ([CHR 0x22] @ '' exists with status '' @ Quote (Status p) @ ''; delete it first'')) ''secret''"
    by (rule Contains_trans_mid [OF assms(3)])
  then have c: "Contains ?e ''secret''" by (simp only: Quote_valid [OF assms(2)] append_assoc)
  have "Service_Create E n (clientIP r) w = (Fail (ErrText ?e), w)"
    using assms(2,4,5) by (simp add: Service_Create_def)
  then have "createDatabase E r w = create_error E (ErrText ?e) w"
    using assms(1,2) by (simp only: createDatabase_def valid_name_TrimSpace [OF assms(2)] Let_def option.simps on_call.simps)
  also have "\<dots> = (Ret (writeError 500 CodeSecretWriteError ''secret file write failed''), w)"
    unfolding create_error_def errText.simps using c by (simp only: if_True)
  finally show ?thesis by (simp add: create_error_def map_or_internal_def HasPrefix_def)
qed

definition secret_project :: "DatabaseProject" where
  "secret_project = zeroProject\<lparr>Name := ''secret'', Status := StatusError\<rparr>"

theorem secret_code_misleads_witness:
  "\<exists>t. createDatabase reference_env (create_request\<lparr>BodyValue := Some (JObj [(''name'', JStr ''secret'')])\<rparr>)
      (fresh_world\<lparr>w_sql := t\<rparr>)
    = (Ret (writeError 500 CodeSecretWriteError ''secret file write failed''), fresh_world\<lparr>w_sql := t\<rparr>)"
proof -
  let ?t = "snd (CreateProject table_engine zeroTime secret_project empty_tables)"
  have v: "valid_name ''secret''" by (simp add: valid_name_iff name_char_def char_class_defs)
  have d: "decode_struct ''name'' (BodyValue (create_request\<lparr>BodyValue := Some (JObj [(''name'', JStr ''secret'')])\<rparr>))
      = Some ''secret''"
    by (simp add: decode_struct_exact)
  have "\<exists>p. project_map ?t ''secret'' = Some p \<and> Status p = StatusError"
    by (simp add: store_op_state table_engine_def table_exec_def empty_tables_def secret_project_def
        zeroProject_def project_map_def select_project_def scanProject_def)
  then obtain p where p: "project_map ?t ''secret'' = Some p" "Status p \<noteq> StatusReady"
    by (auto simp: StatusError_def StatusReady_def)
  have "GetProject (e_sql reference_env) ''secret'' (w_sql (fresh_world\<lparr>w_sql := ?t\<rparr>)) = Ret p"
    using ref_get [OF p(1)] by simp
  from secret_code_misleads [OF d v _ this p(2)] show ?thesis
    by (intro exI [of _ ?t]) (simp add: HasPrefix_def)
qed

end
