(* ===== verification/GoFlags.thy ===== *)
theory GoFlags
  imports Utf8
begin

text \<open>
  What the commands use of packages \<open>strconv\<close> and \<open>flag\<close>: \<open>ParseBool\<close>, \<open>ParseInt\<close> of a 64-bit
  integer in base 0, and \<open>FlagSet.Parse\<close> over flags that take a string, an integer or a
  boolean. A parse error is None: the commands only return when they meet one.
\<close>

section \<open>Booleans and integers\<close>

definition ParseBool :: "string \<Rightarrow> bool option" where
  "ParseBool s =
     (if s \<in> {''1'', ''t'', ''T'', ''true'', ''TRUE'', ''True''} then Some True
      else if s \<in> {''0'', ''f'', ''F'', ''false'', ''FALSE'', ''False''} then Some False
      else None)"

definition digit_value :: "char \<Rightarrow> nat option" where
  "digit_value c =
     (if is_digit c then Some (code c - 48)
      else if is_lower (lower_char c) then Some (code (lower_char c) - 97 + 10)
      else None)"

fun int_digits :: "nat \<Rightarrow> nat \<Rightarrow> string \<Rightarrow> nat option" where
  "int_digits base n [] = Some n"
| "int_digits base n (c # s) =
     (if c = CHR ''_'' then int_digits base n s
      else case digit_value c of
        None \<Rightarrow> None
      | Some d \<Rightarrow> if d \<ge> base then None else int_digits base (n * base + d) s)"

definition base_letter :: "char \<Rightarrow> nat option" where
  "base_letter c =
     (if lower_char c = CHR ''b'' then Some 2
      else if lower_char c = CHR ''o'' then Some 8
      else if lower_char c = CHR ''x'' then Some 16
      else None)"

definition int_base :: "string \<Rightarrow> nat \<times> string" where
  "int_base s =
     (case s of
        CHR ''0'' # r \<Rightarrow>
          (case (if length r < 2 then None else base_letter (hd r)) of
             Some b \<Rightarrow> (b, tl r)
           | None \<Rightarrow> (8, r))
      | _ \<Rightarrow> (10, s))"

text \<open>\<open>underscoreOK\<close>: underscores stand between digits only, a base prefix counting as one.\<close>

fun underscores :: "bool \<Rightarrow> char \<Rightarrow> string \<Rightarrow> bool" where
  "underscores hex saw [] = (saw \<noteq> CHR ''_'')"
| "underscores hex saw (c # s) =
     (if is_digit c \<or> (hex \<and> in_range (CHR ''a'') (CHR ''f'') (lower_char c)) then underscores hex (CHR ''0'') s
      else if c = CHR ''_'' then saw = CHR ''0'' \<and> underscores hex (CHR ''_'') s
      else saw \<noteq> CHR ''_'' \<and> underscores hex (CHR ''!'') s)"

definition underscoreOK :: "string \<Rightarrow> bool" where
  "underscoreOK s =
     (case s of
        CHR ''0'' # c # r \<Rightarrow>
          (case base_letter c of
             Some b \<Rightarrow> underscores (b = 16) (CHR ''0'') r
           | None \<Rightarrow> underscores False (CHR ''^'') s)
      | _ \<Rightarrow> underscores False (CHR ''^'') s)"

definition ParseUint :: "string \<Rightarrow> nat option" where
  "ParseUint s =
     (if s = [] then None
      else case int_digits (fst (int_base s)) 0 (snd (int_base s)) of
        None \<Rightarrow> None
      | Some n \<Rightarrow>
          (if n \<ge> 2 ^ 64 then None
           else if CHR ''_'' \<in> set s \<and> \<not> underscoreOK s then None
           else Some n))"

definition ParseInt :: "string \<Rightarrow> int option" where
  "ParseInt s =
     (case s of
        [] \<Rightarrow> None
      | c # r \<Rightarrow>
          (case ParseUint (if c = CHR ''+'' \<or> c = CHR ''-'' then r else s) of
             None \<Rightarrow> None
           | Some n \<Rightarrow>
               (if c = CHR ''-'' then (if n > 2 ^ 63 then None else Some (- int n))
                else if n \<ge> 2 ^ 63 then None
                else Some (int n))))"

text \<open>A value that parses is a 64-bit integer.\<close>

lemma ParseInt_range: "ParseInt s = Some i \<Longrightarrow> - (2 ^ 63) \<le> i \<and> i < 2 ^ 63"
  by (auto simp: ParseInt_def split: list.splits option.splits if_splits)

section \<open>Flags\<close>

datatype flag_kind = FString | FInt | FBool

datatype flag_value = VString string | VInt int | VBool bool

fun set_value :: "flag_kind \<Rightarrow> string \<Rightarrow> flag_value option" where
  "set_value FString s = Some (VString s)"
| "set_value FInt s = map_option VInt (ParseInt s)"
| "set_value FBool s = map_option VBool (ParseBool s)"

type_synonym flag_values = "(string \<times> flag_value) list"

definition add_flag :: "string \<Rightarrow> flag_value option \<Rightarrow> flag_values \<Rightarrow> flag_values option" where
  "add_flag n v vals = map_option (\<lambda>x. (n, x) # vals) v"

text \<open>The name and the value of an argument \<open>-name\<close>, \<open>--name\<close> or \<open>--name=value\<close>.\<close>

definition flag_arg :: "string \<Rightarrow> (string \<times> string option) option" where
  "flag_arg s =
     (let body = (if HasPrefix s ''--'' then drop 2 s else drop 1 s) in
      if body = [] \<or> hd body = CHR ''-'' \<or> hd body = CHR ''='' then None
      else case Cut body (CHR ''='') of
        None \<Rightarrow> Some (body, None)
      | Some (n, v) \<Rightarrow> Some (n, Some v))"

fun parse_flags ::
    "(string \<times> flag_kind) list \<Rightarrow> flag_values \<Rightarrow> string list \<Rightarrow> (flag_values \<times> string list) option" where
  "parse_flags formal vals [] = Some (vals, [])"
| "parse_flags formal vals (s # args) =
     (if length s < 2 \<or> hd s \<noteq> CHR ''-'' then Some (vals, s # args)
      else if s = ''--'' then Some (vals, args)
      else case flag_arg s of
        None \<Rightarrow> None
      | Some (n, given) \<Rightarrow>
          (case map_of formal n of
             None \<Rightarrow> None
           | Some FBool \<Rightarrow>
               (case add_flag n (set_value FBool (case given of Some v \<Rightarrow> v | None \<Rightarrow> ''true'')) vals of
                  None \<Rightarrow> None
                | Some vals \<Rightarrow> parse_flags formal vals args)
           | Some k \<Rightarrow>
               (case given of
                  Some v \<Rightarrow>
                    (case add_flag n (set_value k v) vals of
                       None \<Rightarrow> None
                     | Some vals \<Rightarrow> parse_flags formal vals args)
                | None \<Rightarrow>
                    (case args of
                       [] \<Rightarrow> None
                     | v # rest \<Rightarrow>
                         (case add_flag n (set_value k v) vals of
                            None \<Rightarrow> None
                          | Some vals \<Rightarrow> parse_flags formal vals rest)))))"

declare parse_flags.simps(2) [simp del]

definition string_flag :: "flag_values \<Rightarrow> string \<Rightarrow> string \<Rightarrow> string" where
  "string_flag vals n dflt = (case map_of vals n of Some (VString s) \<Rightarrow> s | _ \<Rightarrow> dflt)"

definition int_flag :: "flag_values \<Rightarrow> string \<Rightarrow> int \<Rightarrow> int" where
  "int_flag vals n dflt = (case map_of vals n of Some (VInt i) \<Rightarrow> i | _ \<Rightarrow> dflt)"

definition bool_flag :: "flag_values \<Rightarrow> string \<Rightarrow> bool \<Rightarrow> bool" where
  "bool_flag vals n dflt = (case map_of vals n of Some (VBool b) \<Rightarrow> b | _ \<Rightarrow> dflt)"

text \<open>Both ways of giving a string to a flag.\<close>

definition flag_name :: "string \<Rightarrow> bool" where
  "flag_name n \<longleftrightarrow> n \<noteq> [] \<and> CHR ''='' \<notin> set n \<and> hd n \<noteq> CHR ''-''"

lemma Cut_absent: "c \<notin> set s \<Longrightarrow> Cut s c = None"
  by (induction s) auto

lemma flag_arg_name: "flag_name n \<Longrightarrow> flag_arg (''--'' @ n) = Some (n, None)"
  by (auto simp: flag_arg_def flag_name_def HasPrefix_def Cut_absent Let_def dest: hd_in_set)

lemma flag_arg_eq:
  assumes "flag_name n"
  shows "flag_arg (''--'' @ n @ CHR ''='' # v) = Some (n, Some v)"
proof -
  have "Cut (n @ CHR ''='' # v) (CHR ''='') = Some (n, v)"
    using assms by (simp add: Cut_Some flag_name_def)
  moreover have "hd (n @ CHR ''='' # v) \<noteq> CHR ''=''" "hd (n @ CHR ''='' # v) \<noteq> CHR ''-''"
    using assms by (auto simp: flag_name_def hd_append dest: hd_in_set)
  ultimately show ?thesis by (simp add: flag_arg_def HasPrefix_def Let_def)
qed

lemma parse_string_flag:
  assumes "flag_name n" and "map_of formal n = Some FString"
  shows "parse_flags formal vals ((''--'' @ n) # v # args) = parse_flags formal ((n, VString v) # vals) args"
    and "parse_flags formal vals ((''--'' @ n @ CHR ''='' # v) # args) = parse_flags formal ((n, VString v) # vals) args"
  using assms by (simp_all add: parse_flags.simps(2) flag_arg_name flag_arg_eq [simplified] flag_arg_name [simplified]
      add_flag_def flag_name_def)

end
