(* ===== verification/Config.thy ===== *)
theory Config
  imports GoFlags Paths
begin

text \<open>
  \<open>internal/config/config.go\<close>: the configuration records, their defaults, the environment
  overrides, the expansion of relative paths and the final check. The files, the environment
  and \<open>gopkg.in/yaml.v3\<close> are arguments of \<open>Load\<close>.
\<close>

section \<open>Configuration\<close>

record ServerConfig =
  srvAddr :: string
  srvShutdownTimeout :: int

record MySQLConfig =
  myAdminDSN :: string
  myAdminConfigPath :: string
  myAllowDrop :: bool

record AuditConfig =
  auToFile :: bool
  auFile :: string

record Config =
  cfgServer :: ServerConfig
  cfgStoragePath :: string
  cfgMySQL :: MySQLConfig
  cfgSecretsDir :: string
  cfgAudit :: AuditConfig
  cfgLoggingLevel :: string

definition Default :: Config where
  "Default =
     \<lparr>cfgServer = \<lparr>srvAddr = ''127.0.0.1:8787'', srvShutdownTimeout = 10\<rparr>,
      cfgStoragePath = ''/var/lib/db-isolation/db-isolation.db'',
      cfgMySQL = \<lparr>myAdminDSN = [], myAdminConfigPath = ''/root/.my.cnf'', myAllowDrop = False\<rparr>,
      cfgSecretsDir = ''/etc/db-isolation/apps'',
      cfgAudit = \<lparr>auToFile = True, auFile = ''/var/log/db-isolation/audit.log''\<rparr>,
      cfgLoggingLevel = ''info''\<rparr>"

text \<open>\<open>os.ReadFile\<close>: the bytes, that the file is not there, or another error.\<close>

datatype read_result = Bytes string | NotExist | ReadError string

section \<open>Overrides and checks\<close>

text \<open>\<open>if v := os.Getenv(key); v != "" { ... }\<close>\<close>

definition with_env :: "(string \<Rightarrow> string) \<Rightarrow> string \<Rightarrow> (string \<Rightarrow> Config \<Rightarrow> Config) \<Rightarrow> Config \<Rightarrow> Config" where
  "with_env getenv key upd c = (if getenv key = [] then c else upd (getenv key) c)"

definition env_texts :: "(string \<Rightarrow> string) \<Rightarrow> Config \<Rightarrow> Config" where
  "env_texts getenv c =
     (let c = with_env getenv ''DB_ISOLATION_ADDR''
            (\<lambda>v c. c\<lparr>cfgServer := (cfgServer c)\<lparr>srvAddr := v\<rparr>\<rparr>) c;
          c = with_env getenv ''DB_ISOLATION_STORAGE'' (\<lambda>v c. c\<lparr>cfgStoragePath := v\<rparr>) c;
          c = with_env getenv ''DB_ISOLATION_SECRETS_DIR'' (\<lambda>v c. c\<lparr>cfgSecretsDir := v\<rparr>) c;
          c = with_env getenv ''DB_ISOLATION_LOG_LEVEL'' (\<lambda>v c. c\<lparr>cfgLoggingLevel := v\<rparr>) c
      in with_env getenv ''DB_ISOLATION_MYSQL_CNF''
           (\<lambda>v c. c\<lparr>cfgMySQL := (cfgMySQL c)\<lparr>myAdminConfigPath := v\<rparr>\<rparr>) c)"

definition env_dsn :: "(string \<Rightarrow> string) \<Rightarrow> Config \<Rightarrow> Config" where
  "env_dsn getenv =
     with_env getenv ''MYSQL_ADMIN_DSN'' (\<lambda>v c. c\<lparr>cfgMySQL := (cfgMySQL c)\<lparr>myAdminDSN := v\<rparr>\<rparr>)"

definition applyEnv :: "(string \<Rightarrow> string) \<Rightarrow> Config \<Rightarrow> goerr option \<times> Config" where
  "applyEnv getenv c =
     (let c = env_texts getenv c; v = getenv ''DB_ISOLATION_ALLOW_DROP'' in
      if v = [] then (None, env_dsn getenv c)
      else case ParseBool v of
        None \<Rightarrow> (Some (ErrText (''DB_ISOLATION_ALLOW_DROP: strconv.ParseBool: parsing '' @ Quote v
                   @ '': invalid syntax'')), c)
      | Some b \<Rightarrow> (None, env_dsn getenv (c\<lparr>cfgMySQL := (cfgMySQL c)\<lparr>myAllowDrop := b\<rparr>\<rparr>)))"

definition expand :: "string \<Rightarrow> string \<Rightarrow> string" where
  "expand base p = (if IsAbs p then p else JoinPath [base, p])"

definition expandPaths :: "Config \<Rightarrow> Config" where
  "expandPaths c =
     c\<lparr>cfgStoragePath := expand ''/var/lib/db-isolation'' (cfgStoragePath c),
       cfgSecretsDir := expand ''/etc/db-isolation/apps'' (cfgSecretsDir c),
       cfgAudit := (cfgAudit c)\<lparr>auFile := expand ''/var/log/db-isolation'' (auFile (cfgAudit c))\<rparr>\<rparr>"

definition log_levels :: "string set" where
  "log_levels = {''debug'', ''info'', ''warn'', ''error''}"

definition validate :: "Config \<Rightarrow> goerr option \<times> Config" where
  "validate c =
     (if srvAddr (cfgServer c) = [] then (Some (ErrText ''server.addr is required''), c)
      else if cfgStoragePath c = [] then (Some (ErrText ''storage.path is required''), c)
      else if cfgSecretsDir c = [] then (Some (ErrText ''secrets.dir is required''), c)
      else let level = ToLower (cfgLoggingLevel c) in
        if level \<in> log_levels then (None, c\<lparr>cfgLoggingLevel := level\<rparr>)
        else (Some (ErrText ''logging.level must be one of debug/info/warn/error''), c))"

text \<open>
  \<open>return cfg, cfg.validate()\<close>: Go does not say whether \<open>cfg\<close> is copied before or after the
  call that may change its level, so that is an argument.
\<close>

definition finish_load :: "bool \<Rightarrow> Config \<Rightarrow> goerr option \<times> Config" where
  "finish_load copied_after c = (fst (validate c), if copied_after then snd (validate c) else c)"

definition Load ::
    "bool \<Rightarrow> (string \<Rightarrow> string) \<Rightarrow> (string \<Rightarrow> read_result) \<Rightarrow> (string \<Rightarrow> Config \<Rightarrow> goerr option \<times> Config)
      \<Rightarrow> string \<Rightarrow> goerr option \<times> Config" where
  "Load copied_after getenv read_file unmarshal path =
     (let rest = (\<lambda>c. case applyEnv getenv c of
                       (Some e, c) \<Rightarrow> (Some e, c)
                     | (None, c) \<Rightarrow> finish_load copied_after (expandPaths c))
      in if path = [] then rest Default
         else case read_file path of
           ReadError e \<Rightarrow> (Some (ErrText (''read config '' @ Quote path @ '': '' @ e)), Default)
         | NotExist \<Rightarrow> rest Default
         | Bytes data \<Rightarrow>
             (case unmarshal data Default of
                (Some e, c) \<Rightarrow> (Some (ErrText (''parse config '' @ Quote path @ '': '' @ errText e)), c)
              | (None, c) \<Rightarrow> rest c))"

section \<open>What a loaded configuration satisfies\<close>

lemma IsAbs_Clean: "IsAbs p \<Longrightarrow> IsAbs (Clean p)"
  by (simp add: Clean_def Let_def IsAbs_def HasPrefix_def)

lemma IsAbs_ne: "IsAbs p \<Longrightarrow> p \<noteq> []"
  by (auto simp: IsAbs_def HasPrefix_def)

lemma IsAbs_expand: "IsAbs base \<Longrightarrow> IsAbs (expand base p)"
  by (auto simp: expand_def JoinPath_def Let_def IsAbs_ne IsAbs_append intro!: IsAbs_Clean)

lemma IsAbs_slash [simp]: "IsAbs (CHR ''/'' # s)"
  by (simp add: IsAbs_def HasPrefix_def)

lemma expandPaths_abs:
  "IsAbs (cfgStoragePath (expandPaths c))" "IsAbs (cfgSecretsDir (expandPaths c))"
  "IsAbs (auFile (cfgAudit (expandPaths c)))"
  by (simp_all add: expandPaths_def IsAbs_expand)

lemma expandPaths_same [simp]:
  "cfgServer (expandPaths c) = cfgServer c" "cfgMySQL (expandPaths c) = cfgMySQL c"
  "cfgLoggingLevel (expandPaths c) = cfgLoggingLevel c"
  by (simp_all add: expandPaths_def)

lemma with_env_keeps: "(\<And>v c. f (upd v c) = f c) \<Longrightarrow> f (with_env getenv k upd c) = f c"
  by (simp add: with_env_def)

lemma with_env_sets: "(\<And>v c. f (upd v c) = v) \<Longrightarrow> f (with_env getenv k upd c) = (if getenv k = [] then f c else getenv k)"
  by (simp add: with_env_def)

lemma env_texts_fields:
  "srvAddr (cfgServer (env_texts getenv c))
     = (if getenv ''DB_ISOLATION_ADDR'' = [] then srvAddr (cfgServer c) else getenv ''DB_ISOLATION_ADDR'')"
  "myAdminDSN (cfgMySQL (env_texts getenv c)) = myAdminDSN (cfgMySQL c)"
  unfolding env_texts_def Let_def
  by (simp_all add: with_env_keeps [where f = "\<lambda>c. srvAddr (cfgServer c)"]
      with_env_sets [where f = "\<lambda>c. srvAddr (cfgServer c)"]
      with_env_keeps [where f = "\<lambda>c. myAdminDSN (cfgMySQL c)"])

lemma env_dsn_fields:
  "srvAddr (cfgServer (env_dsn getenv c)) = srvAddr (cfgServer c)"
  "myAdminDSN (cfgMySQL (env_dsn getenv c))
     = (if getenv ''MYSQL_ADMIN_DSN'' = [] then myAdminDSN (cfgMySQL c) else getenv ''MYSQL_ADMIN_DSN'')"
  by (simp_all add: env_dsn_def with_env_def)

lemma applyEnv_None:
  assumes "applyEnv getenv c = (None, c')"
  shows "myAdminDSN (cfgMySQL c') = (if getenv ''MYSQL_ADMIN_DSN'' = [] then myAdminDSN (cfgMySQL c)
           else getenv ''MYSQL_ADMIN_DSN'')"
    and "srvAddr (cfgServer c') = (if getenv ''DB_ISOLATION_ADDR'' = [] then srvAddr (cfgServer c)
           else getenv ''DB_ISOLATION_ADDR'')"
proof -
  define E where "E = env_texts getenv c"
  define v where "v = getenv ''DB_ISOLATION_ALLOW_DROP''"
  note d = applyEnv_def [of getenv c, folded E_def, folded v_def, unfolded Let_def]
  from assms have "c' = env_dsn getenv E
      \<or> (\<exists>b. c' = env_dsn getenv (E\<lparr>cfgMySQL := (cfgMySQL E)\<lparr>myAllowDrop := b\<rparr>\<rparr>))"
    unfolding d by (cases "v = []"; cases "ParseBool v") auto
  moreover have "myAdminDSN (cfgMySQL E) = myAdminDSN (cfgMySQL c)"
    and "srvAddr (cfgServer E)
      = (if getenv ''DB_ISOLATION_ADDR'' = [] then srvAddr (cfgServer c) else getenv ''DB_ISOLATION_ADDR'')"
    unfolding E_def by (rule env_texts_fields)+
  ultimately show "myAdminDSN (cfgMySQL c') = (if getenv ''MYSQL_ADMIN_DSN'' = [] then myAdminDSN (cfgMySQL c)
           else getenv ''MYSQL_ADMIN_DSN'')"
    and "srvAddr (cfgServer c') = (if getenv ''DB_ISOLATION_ADDR'' = [] then srvAddr (cfgServer c)
           else getenv ''DB_ISOLATION_ADDR'')"
    by (auto simp: env_dsn_fields)
qed

lemma validate_None:
  "fst (validate c) = None \<longleftrightarrow>
     srvAddr (cfgServer c) \<noteq> [] \<and> cfgStoragePath c \<noteq> [] \<and> cfgSecretsDir c \<noteq> [] \<and> ToLower (cfgLoggingLevel c) \<in> log_levels"
  by (simp add: validate_def Let_def)

lemma log_levels_lower: "l \<in> log_levels \<Longrightarrow> ToLower l = l"
  unfolding log_levels_def by (rule ToLower_id) (auto simp: char_class_defs)

lemma finish_load_None:
  assumes "finish_load b (expandPaths c) = (None, c')"
  shows "srvAddr (cfgServer c') = srvAddr (cfgServer c) \<and> srvAddr (cfgServer c') \<noteq> []
    \<and> cfgMySQL c' = cfgMySQL c \<and> ToLower (cfgLoggingLevel c') \<in> log_levels
    \<and> IsAbs (cfgStoragePath c') \<and> IsAbs (cfgSecretsDir c') \<and> IsAbs (auFile (cfgAudit c'))"
proof -
  have n: "fst (validate (expandPaths c)) = None"
    and c': "c' = (if b then snd (validate (expandPaths c)) else expandPaths c)"
    using assms by (simp_all add: finish_load_def split: if_splits)
  then have "c' = expandPaths c \<or> c' = (expandPaths c)\<lparr>cfgLoggingLevel := ToLower (cfgLoggingLevel c)\<rparr>"
    by (auto simp: validate_def Let_def split: if_splits)
  moreover have "ToLower (cfgLoggingLevel c) \<in> log_levels" "srvAddr (cfgServer c) \<noteq> []"
    using n by (auto simp: validate_None)
  ultimately show ?thesis by (auto simp: expandPaths_abs log_levels_lower)
qed

lemma Load_None:
  assumes "Load b getenv read_file unmarshal path = (None, c)"
  shows "\<exists>c0 c1. (c0 = Default \<or> (\<exists>data. unmarshal data Default = (None, c0)))
    \<and> applyEnv getenv c0 = (None, c1) \<and> finish_load b (expandPaths c1) = (None, c)"
  using assms by (auto simp: Load_def Let_def split: if_splits read_result.splits option.splits prod.splits)

text \<open>C31: a configuration that loads has an address to listen on, absolute paths and a known log
  level; its MySQL administrator credentials are the ones of the environment, whatever the
  YAML file says, and an address in the environment wins over the file.\<close>

theorem load_checked:
  assumes "Load b getenv read_file unmarshal path = (None, c)"
    and "\<And>data c0. myAdminDSN (cfgMySQL (snd (unmarshal data c0))) = myAdminDSN (cfgMySQL c0)"
  shows "srvAddr (cfgServer c) \<noteq> [] \<and> ToLower (cfgLoggingLevel c) \<in> log_levels
    \<and> IsAbs (cfgStoragePath c) \<and> IsAbs (cfgSecretsDir c) \<and> IsAbs (auFile (cfgAudit c))
    \<and> myAdminDSN (cfgMySQL c) = getenv ''MYSQL_ADMIN_DSN''
    \<and> (getenv ''DB_ISOLATION_ADDR'' \<noteq> [] \<longrightarrow> srvAddr (cfgServer c) = getenv ''DB_ISOLATION_ADDR'')"
proof -
  obtain c0 c1 where c0: "c0 = Default \<or> (\<exists>data. unmarshal data Default = (None, c0))"
    and c1: "applyEnv getenv c0 = (None, c1)" and f: "finish_load b (expandPaths c1) = (None, c)"
    using Load_None [OF assms(1)] by blast
  have "myAdminDSN (cfgMySQL Default) = []" by (simp add: Default_def)
  then have "myAdminDSN (cfgMySQL c0) = []" using c0 assms(2) [of _ Default] by (metis snd_conv)
  then show ?thesis
    using finish_load_None [OF f] applyEnv_None [OF c1] by auto
qed

definition demo_env :: "string \<Rightarrow> string" where
  "demo_env k = (if k = ''MYSQL_ADMIN_DSN'' then ''root@/'' else if k = ''DB_ISOLATION_ADDR'' then '':80'' else [])"

lemma demo_env_simps:
  "demo_env ''MYSQL_ADMIN_DSN'' = ''root@/''" "demo_env ''DB_ISOLATION_ADDR'' = '':80''"
  "demo_env ''DB_ISOLATION_STORAGE'' = []" "demo_env ''DB_ISOLATION_SECRETS_DIR'' = []"
  "demo_env ''DB_ISOLATION_LOG_LEVEL'' = []" "demo_env ''DB_ISOLATION_MYSQL_CNF'' = []"
  "demo_env ''DB_ISOLATION_ALLOW_DROP'' = []"
  by (simp_all add: demo_env_def)

text \<open>A YAML reader that finds only a log level.\<close>

definition level_yaml :: "string \<Rightarrow> Config \<Rightarrow> goerr option \<times> Config" where
  "level_yaml data c = (None, c\<lparr>cfgLoggingLevel := data\<rparr>)"

definition demo_config :: Config where
  "demo_config = snd (Load True demo_env (\<lambda>_. Bytes ''Debug'') level_yaml ''/c'')"

lemma demo_loads: "Load True demo_env (\<lambda>_. Bytes ''Debug'') level_yaml ''/c'' = (None, demo_config)"
proof -
  have "lower_char (CHR ''D'') = CHR ''d''" by code_simp
  then have l: "ToLower ''Debug'' = ''debug''" by (simp add: ToLower_ASCII char_class_defs)
  have "fst (Load True demo_env (\<lambda>_. Bytes ''Debug'') level_yaml ''/c'') = None"
    by (simp add: Load_def level_yaml_def Default_def applyEnv_def env_texts_def env_dsn_def with_env_def
        demo_env_simps finish_load_def validate_def expandPaths_def expand_def l log_levels_def)
  then show ?thesis by (simp add: demo_config_def prod_eq_iff)
qed

theorem load_checked_witness:
  "IsAbs (cfgStoragePath demo_config) \<and> srvAddr (cfgServer demo_config) = '':80''
    \<and> myAdminDSN (cfgMySQL demo_config) = ''root@/''"
  using load_checked [OF demo_loads] by (simp add: level_yaml_def demo_env_simps)

text \<open>The checks for an empty storage path and an empty secrets directory never fire,
  because the paths are made absolute first: an empty storage path is loaded as the
  directory itself, an empty audit file likewise.\<close>

theorem empty_paths_pass:
  "fst (Load b getenv read_file unmarshal path) \<noteq> Some (ErrText ''storage.path is required'')
   \<and> fst (Load b getenv read_file unmarshal path) \<noteq> Some (ErrText ''secrets.dir is required'')
   \<and> cfgStoragePath (expandPaths (c\<lparr>cfgStoragePath := []\<rparr>)) = ''/var/lib/db-isolation''
   \<and> auFile (cfgAudit (expandPaths (c\<lparr>cfgAudit := (cfgAudit c)\<lparr>auFile := []\<rparr>\<rparr>))) = ''/var/log/db-isolation''"
proof -
  have ne: "cfgStoragePath (expandPaths c1) \<noteq> []" "cfgSecretsDir (expandPaths c1) \<noteq> []" for c1
    using expandPaths_abs [of c1] by (simp_all add: IsAbs_ne)
  have v: "fst (validate (expandPaths c1)) \<noteq> Some (ErrText ''storage.path is required'')
    \<and> fst (validate (expandPaths c1)) \<noteq> Some (ErrText ''secrets.dir is required'')" for c1
    by (simp add: validate_def Let_def ne)
  have e: "fst (applyEnv getenv c1) \<noteq> Some (ErrText ''storage.path is required'')
    \<and> fst (applyEnv getenv c1) \<noteq> Some (ErrText ''secrets.dir is required'')" for c1
    by (simp add: applyEnv_def Let_def split: option.splits)
  have r: "fst (case applyEnv getenv c1 of (Some e, c) \<Rightarrow> (Some e, c)
      | (None, c) \<Rightarrow> finish_load b (expandPaths c)) \<notin>
      {Some (ErrText ''storage.path is required''), Some (ErrText ''secrets.dir is required'')}" for c1
    using e [of c1] v by (cases "applyEnv getenv c1"; cases "fst (applyEnv getenv c1)")
      (simp_all add: finish_load_def)
  have l: "fst (Load b getenv read_file unmarshal path) \<notin>
      {Some (ErrText ''storage.path is required''), Some (ErrText ''secrets.dir is required'')}"
    using r by (auto simp: Load_def Let_def split: read_result.splits option.splits prod.splits)
  have "JoinPath [''/var/lib/db-isolation'', []] = ''/var/lib/db-isolation''"
    "JoinPath [''/var/log/db-isolation'', []] = ''/var/log/db-isolation''"
    by (simp_all add: JoinPath_def Clean_def Let_def)
  moreover have "\<not> IsAbs []" by (simp add: IsAbs_def HasPrefix_def)
  ultimately show ?thesis using l by (simp add: expandPaths_def expand_def)
qed

end
