(* ===== verification/Mycnf.thy ===== *)
theory Mycnf
  imports Utf8
begin

text \<open>
  \<open>internal/config/mycnf.go\<close>: the reader of the administrator's \<open>my.cnf\<close> and the DSN made from
  it. The file is an argument: the error of opening it, or its bytes and the error that ended
  the reading, if one did.
\<close>

section \<open>Lines\<close>

text \<open>\<open>bufio.Scanner\<close> with its default split: lines without their end, a final line without a
  newline included; a line that does not fit into the buffer of 64 KiB ends the scan.\<close>

definition newline :: char where "newline = CHR 0x0A"

definition MaxScanTokenSize :: nat where "MaxScanTokenSize = 65536"

definition file_lines :: "string \<Rightarrow> string list" where
  "file_lines data = (let ls = Split newline data in if last ls = [] then butlast ls else ls)"

definition dropCR :: "string \<Rightarrow> string" where
  "dropCR l = (if l \<noteq> [] \<and> last l = CHR 0x0D then butlast l else l)"

definition fits :: "string \<Rightarrow> bool" where
  "fits l \<longleftrightarrow> length l < MaxScanTokenSize"

definition scan_lines :: "string \<Rightarrow> string list" where
  "scan_lines data = map dropCR (takeWhile fits (file_lines data))"

definition scan_error :: "string \<Rightarrow> string option \<Rightarrow> string option" where
  "scan_error data read_err =
     (if list_all fits (file_lines data) then read_err else Some ''bufio.Scanner: token too long'')"

section \<open>The settings\<close>

record Mycnf =
  cnfUser :: string
  cnfPassword :: string
  cnfHost :: string
  cnfPort :: string
  cnfSocket :: string

definition zeroMycnf :: Mycnf where
  "zeroMycnf = \<lparr>cnfUser = [], cnfPassword = [], cnfHost = [], cnfPort = [], cnfSocket = []\<rparr>"

definition DSN :: "Mycnf \<Rightarrow> string" where
  "DSN m =
     (let userInfo =
        (if cnfUser m \<noteq> [] then
           cnfUser m @ (if cnfPassword m \<noteq> [] then '':'' @ cnfPassword m else []) @ ''@''
         else [])
      in if cnfSocket m \<noteq> [] then
           userInfo @ ''unix('' @ cnfSocket m @ '')/?parseTime=true&multiStatements=true''
         else
           (let host = (if cnfHost m = [] then ''127.0.0.1'' else cnfHost m);
                port = (if cnfPort m = [] then ''3306'' else cnfPort m)
            in userInfo @ ''tcp('' @ host @ '':'' @ port @ '')/?parseTime=true&multiStatements=true''))"

definition set_field :: "string \<Rightarrow> string \<Rightarrow> Mycnf \<Rightarrow> Mycnf" where
  "set_field key val m =
     (if key = ''user'' then m\<lparr>cnfUser := val\<rparr>
      else if key = ''password'' then m\<lparr>cnfPassword := val\<rparr>
      else if key = ''host'' then m\<lparr>cnfHost := val\<rparr>
      else if key = ''port'' then m\<lparr>cnfPort := val\<rparr>
      else if key = ''socket'' then m\<lparr>cnfSocket := val\<rparr>
      else m)"

text \<open>\<open>strings.EqualFold(line, "[client]")\<close>: only ASCII letters fold to the letters of this text.\<close>

definition is_client :: "string \<Rightarrow> bool" where
  "is_client line \<longleftrightarrow> map lower_char line = ''[client]''"

fun cnf_step :: "bool \<times> Mycnf \<Rightarrow> string \<Rightarrow> bool \<times> Mycnf" where
  "cnf_step (inClient, out) text =
     (let line = TrimSpace text in
      if line = [] \<or> HasPrefix line ''#'' then (inClient, out)
      else if HasPrefix line ''['' \<and> HasSuffix line '']'' then (is_client line, out)
      else if \<not> inClient then (inClient, out)
      else case Cut line (CHR ''='') of
        None \<Rightarrow> (inClient, out)
      | Some (key, val) \<Rightarrow> (inClient, set_field (TrimSpace (ToLower key)) (TrimSpace val) out))"

definition LoadMycnf :: "(string \<Rightarrow> (string, string \<times> string option) sum) \<Rightarrow> string \<Rightarrow> Mycnf outcome" where
  "LoadMycnf open_file path =
     (case open_file path of
        Inl e \<Rightarrow> Fail (ErrText (''open my.cnf: '' @ e))
      | Inr (data, read_err) \<Rightarrow>
          (let out = snd (foldl cnf_step (False, zeroMycnf) (scan_lines data)) in
           case scan_error data read_err of
             Some e \<Rightarrow> Fail (ErrText (''scan my.cnf: '' @ e))
           | None \<Rightarrow> Ret out))"

section \<open>What the reader takes from a file\<close>

text \<open>The reference: each line is read on its own, the sections are cut, and the last
  assignment to a key wins.\<close>

datatype cnf_line = Ignored | Section bool | Setting string string

definition read_line :: "string \<Rightarrow> cnf_line" where
  "read_line text =
     (let line = TrimSpace text in
      if line = [] \<or> HasPrefix line ''#'' then Ignored
      else if HasPrefix line ''['' \<and> HasSuffix line '']'' then Section (is_client line)
      else case Cut line (CHR ''='') of
        None \<Rightarrow> Ignored
      | Some (k, v) \<Rightarrow> Setting (TrimSpace (ToLower k)) (TrimSpace v))"

fun client_settings :: "bool \<Rightarrow> cnf_line list \<Rightarrow> (string \<times> string) list" where
  "client_settings b [] = []"
| "client_settings b (Section c # ls) = client_settings c ls"
| "client_settings b (Setting k v # ls) = (if b then [(k, v)] else []) @ client_settings b ls"
| "client_settings b (Ignored # ls) = client_settings b ls"

definition last_value :: "(string \<times> string) list \<Rightarrow> string \<Rightarrow> string" where
  "last_value kvs k = (case map_of (rev kvs) k of Some v \<Rightarrow> v | None \<Rightarrow> [])"

definition settings_record :: "(string \<times> string) list \<Rightarrow> Mycnf" where
  "settings_record kvs =
     \<lparr>cnfUser = last_value kvs ''user'', cnfPassword = last_value kvs ''password'',
      cnfHost = last_value kvs ''host'', cnfPort = last_value kvs ''port'',
      cnfSocket = last_value kvs ''socket''\<rparr>"

lemma cnf_step_read:
  "cnf_step (b, out) text =
     (case read_line text of
        Ignored \<Rightarrow> (b, out)
      | Section c \<Rightarrow> (c, out)
      | Setting k v \<Rightarrow> (b, if b then set_field k v out else out))"
  by (simp add: read_line_def Let_def split: option.splits prod.splits)

lemma foldl_cnf_step:
  "snd (foldl cnf_step (b, out) ls)
     = foldl (\<lambda>m (k, v). set_field k v m) out (client_settings b (map read_line ls))"
proof (induction ls arbitrary: b out)
  case (Cons l ls)
  then show ?case by (cases "read_line l") (simp_all only: foldl_Cons cnf_step_read list.map cnf_line.case
      client_settings.simps if_True if_False append.simps split: if_splits, simp_all)
qed simp

lemma last_value_snoc: "last_value (kvs @ [(k, v)]) j = (if j = k then v else last_value kvs j)"
  by (simp add: last_value_def)

lemma settings_record_snoc: "settings_record (kvs @ [(k, v)]) = set_field k v (settings_record kvs)"
  by (auto simp: settings_record_def set_field_def last_value_snoc)

lemma foldl_set_field: "foldl (\<lambda>m (k, v). set_field k v m) zeroMycnf kvs = settings_record kvs"
proof (induction kvs rule: rev_induct)
  case Nil
  then show ?case by (simp add: zeroMycnf_def settings_record_def last_value_def)
next
  case (snoc kv kvs)
  then show ?case by (cases kv) (simp add: settings_record_snoc)
qed

text \<open>What the reader returns is, for each key, the last value assigned to it in a client
  section of the file; lines of other sections, comments and lines without an equals sign
  never matter, and a line of 64 KiB or a reading error is an error of the whole call.\<close>

theorem mycnf_last_assignment_wins:
  "LoadMycnf open_file path =
     (case open_file path of
        Inl e \<Rightarrow> Fail (ErrText (''open my.cnf: '' @ e))
      | Inr (data, err) \<Rightarrow>
          (case scan_error data err of
             Some e \<Rightarrow> Fail (ErrText (''scan my.cnf: '' @ e))
           | None \<Rightarrow> Ret (settings_record (client_settings False (map read_line (scan_lines data))))))"
  by (simp add: LoadMycnf_def foldl_cnf_step foldl_set_field Let_def split: sum.splits prod.splits)

section \<open>Writing and reading back\<close>

definition cnf_text :: "Mycnf \<Rightarrow> string" where
  "cnf_text m =
     concat (map (\<lambda>l. l @ [newline])
       [''[client]'', ''user='' @ cnfUser m, ''password='' @ cnfPassword m, ''host='' @ cnfHost m,
        ''port='' @ cnfPort m, ''socket='' @ cnfSocket m])"

text \<open>A value that can stand on a line of its own: no newline, no white space at its ends.\<close>

definition cnf_value :: "string \<Rightarrow> bool" where
  "cnf_value v \<longleftrightarrow> newline \<notin> set v \<and> TrimSpace v = v \<and> length v < 65000"

lemma spaces_not_plain: "p \<in> set (map rev space_seqs) \<Longrightarrow> c \<in> set p \<Longrightarrow> \<not> plain_char c"
  by (auto simp: space_seqs_def plain_char_def)

lemma trimmed_end:
  assumes "TrimSpace v = v" and "p \<in> set (map rev space_seqs)" and "p \<noteq> []"
  shows "\<not> HasPrefix (rev v) p"
proof -
  have "rev v = strip_seqs (map rev space_seqs) (rev (strip_seqs space_seqs v))"
    using arg_cong [OF assms(1), of rev] by (simp add: TrimSpace_def)
  then show ?thesis using strip_seqs_done [OF assms(2,3)] by metis
qed

lemma TrimSpace_append:
  assumes "a \<noteq> []" and "plain_char (hd a)" and "plain_char (last a)" and "TrimSpace v = v"
  shows "TrimSpace (a @ v) = a @ v"
proof -
  obtain c r where a: "a = c # r" using assms(1) by (cases a) auto
  obtain d r' where ra: "rev a = d # r'" "d = last a" using assms(1) by (cases a rule: rev_cases) auto
  have "\<not> HasPrefix (rev v @ rev a) p" if p: "p \<in> set (map rev space_seqs)" "p \<noteq> []" for p
  proof
    assume "HasPrefix (rev v @ rev a) p"
    then obtain x where x: "rev v @ rev a = p @ x" by (auto simp: HasPrefix_iff)
    then have "(\<exists>u. rev v = p @ u) \<or> (\<exists>u. p = rev v @ u \<and> rev a = u @ x)"
      by (auto simp: append_eq_append_conv2)
    then consider u where "rev v = p @ u" | u where "p = rev v @ u" "u \<noteq> []" "rev a = u @ x"
      by (metis append_Nil2)
    then show False
    proof cases
      case 1
      then show False using trimmed_end [OF assms(4) p] by simp
    next
      case 2
      then have "last a \<in> set p" using ra by (cases u) auto
      with spaces_not_plain [OF p(1)] assms(3) show False by blast
    qed
  qed
  then have "strip_seqs (map rev space_seqs) (rev (a @ v)) = rev (a @ v)"
    by (intro strip_seqs_stop) auto
  moreover have "strip_seqs space_seqs (a @ v) = a @ v"
    using assms(2) by (simp add: a strip_spaces_plain)
  ultimately show ?thesis by (simp add: TrimSpace_def)
qed

lemma trimmed_no_CR: "TrimSpace v = v \<Longrightarrow> v \<noteq> [] \<Longrightarrow> last v \<noteq> CHR 0x0D"
proof
  assume v: "TrimSpace v = v" "v \<noteq> []" "last v = CHR 0x0D"
  then have "HasPrefix (rev v) [CHR 0x0D]" by (cases v rule: rev_cases) (auto simp: HasPrefix_def)
  moreover have "[CHR 0x0D] \<in> set (map rev space_seqs)" by (simp add: space_seqs_def)
  ultimately show False using trimmed_end [OF v(1)] by blast
qed

lemma dropCR_trimmed: "TrimSpace l = l \<Longrightarrow> dropCR l = l"
  using trimmed_no_CR by (auto simp: dropCR_def)

lemma Split_lines:
  "list_all (\<lambda>l. newline \<notin> set l) ls \<Longrightarrow> Split newline (concat (map (\<lambda>l. l @ [newline]) ls)) = ls @ [[]]"
  by (induction ls) (simp_all add: Split_append)

lemma file_lines_lines:
  "list_all (\<lambda>l. newline \<notin> set l) ls \<Longrightarrow> file_lines (concat (map (\<lambda>l. l @ [newline]) ls)) = ls"
  by (simp add: file_lines_def Split_lines)

lemma scan_lines_lines:
  assumes "list_all (\<lambda>l. newline \<notin> set l \<and> fits l \<and> TrimSpace l = l) ls"
  shows "scan_lines (concat (map (\<lambda>l. l @ [newline]) ls)) = ls"
    and "scan_error (concat (map (\<lambda>l. l @ [newline]) ls)) None = None"
proof -
  have f: "file_lines (concat (map (\<lambda>l. l @ [newline]) ls)) = ls"
    by (rule file_lines_lines) (use assms in \<open>simp add: list_all_iff\<close>)
  have "map dropCR ls = ls" by (rule map_idI) (use assms in \<open>simp add: list_all_iff dropCR_trimmed\<close>)
  moreover have "takeWhile fits ls = ls" using assms by (simp add: takeWhile_eq_all_conv list_all_iff)
  ultimately show "scan_lines (concat (map (\<lambda>l. l @ [newline]) ls)) = ls" by (simp only: scan_lines_def f)
  show "scan_error (concat (map (\<lambda>l. l @ [newline]) ls)) None = None"
    using assms by (simp add: scan_error_def f list_all_iff)
qed

text \<open>A line \<open>key=value\<close> of a lower-case key.\<close>

definition cnf_key :: "string \<Rightarrow> bool" where
  "cnf_key k \<longleftrightarrow> k \<noteq> [] \<and> list_all is_lower k"

lemma cnf_key_line:
  assumes "cnf_key k" and "cnf_value v"
  shows "TrimSpace (k @ CHR ''='' # v) = k @ CHR ''='' # v"
    and "read_line (k @ CHR ''='' # v) = Setting k v"
    and "newline \<notin> set (k @ CHR ''='' # v)"
proof -
  have k: "c \<in> set k \<Longrightarrow> plain_char c \<and> c \<noteq> CHR ''='' \<and> c \<noteq> newline \<and> code c < 0x80 \<and> \<not> is_upper c" for c
    using assms(1) unfolding cnf_key_def list_all_iff
    by (auto simp: char_class_defs plain_char_def newline_def)
  then have all: "list_all (\<lambda>c. plain_char c \<and> c \<noteq> CHR ''='' \<and> c \<noteq> newline \<and> code c < 0x80 \<and> \<not> is_upper c) k"
    by (simp add: list_all_iff)
  obtain c r where kc: "k = c # r" using assms(1) by (cases k) (auto simp: cnf_key_def)
  have c: "is_lower c" using assms(1) by (simp add: cnf_key_def kc)
  then have h: "c \<noteq> CHR ''#''" "c \<noteq> CHR ''[''" by (auto simp: char_class_defs)
  have "plain_char (CHR ''='')" by (simp add: plain_char_def)
  with all show t: "TrimSpace (k @ CHR ''='' # v) = k @ CHR ''='' # v"
    using TrimSpace_append [of "k @ ''=''" v] assms(2) by (simp add: kc cnf_value_def)
  have "TrimSpace (ToLower k) = k"
    using all by (subst ToLower_id) (simp_all add: list_all_iff TrimSpace_all_plain)
  moreover have "Cut (k @ CHR ''='' # v) (CHR ''='') = Some (k, v)" using k by (auto simp: Cut_Some)
  moreover have "\<not> HasPrefix (k @ CHR ''='' # v) ''#''" "\<not> HasPrefix (k @ CHR ''='' # v) ''[''"
    using h by (simp_all add: HasPrefix_def kc)
  ultimately show "read_line (k @ CHR ''='' # v) = Setting k v"
    using assms(2) by (simp add: read_line_def t cnf_value_def)
  show "newline \<notin> set (k @ CHR ''='' # v)"
    using k assms(2) by (auto simp: cnf_value_def newline_def)
qed

lemma cnf_keys: "cnf_key ''user''" "cnf_key ''password''" "cnf_key ''host''" "cnf_key ''port''" "cnf_key ''socket''"
  by (simp_all add: cnf_key_def char_class_defs)

lemma client_header:
  "TrimSpace ''[client]'' = ''[client]''" "read_line ''[client]'' = Section True"
  "newline \<notin> set ''[client]''" "fits ''[client]''"
proof -
  show t: "TrimSpace ''[client]'' = ''[client]''" by (rule TrimSpace_plain) (simp add: plain_char_def)
  have "HasPrefix ''[client]'' ''[''" "HasSuffix ''[client]'' '']''" "\<not> HasPrefix ''[client]'' ''#''"
    by (simp_all add: HasPrefix_def HasSuffix_def)
  moreover have "is_client ''[client]''" by (simp add: is_client_def char_class_defs)
  ultimately show "read_line ''[client]'' = Section True" by (simp add: read_line_def t)
qed (simp_all add: newline_def fits_def MaxScanTokenSize_def)

lemma LoadMycnf_text:
  assumes "list_all cnf_value [cnfUser m, cnfPassword m, cnfHost m, cnfPort m, cnfSocket m]"
    and "open_file path = Inr (cnf_text m, None)"
  shows "LoadMycnf open_file path = Ret m"
proof -
  let ?ls = "[''[client]'', ''user'' @ CHR ''='' # cnfUser m, ''password'' @ CHR ''='' # cnfPassword m,
    ''host'' @ CHR ''='' # cnfHost m, ''port'' @ CHR ''='' # cnfPort m, ''socket'' @ CHR ''='' # cnfSocket m]"
  have v: "cnf_value (cnfUser m)" "cnf_value (cnfPassword m)" "cnf_value (cnfHost m)" "cnf_value (cnfPort m)"
    "cnf_value (cnfSocket m)" using assms(1) by simp_all
  have t: "cnf_text m = concat (map (\<lambda>l. l @ [newline]) ?ls)" by (simp add: cnf_text_def)
  have f: "fits (k @ CHR ''='' # v)" if "length k \<le> 8" "cnf_value v" for k v
    using that by (simp add: fits_def MaxScanTokenSize_def cnf_value_def)
  note lines = cnf_key_line [OF cnf_keys(1) v(1)] cnf_key_line [OF cnf_keys(2) v(2)]
    cnf_key_line [OF cnf_keys(3) v(3)] cnf_key_line [OF cnf_keys(4) v(4)] cnf_key_line [OF cnf_keys(5) v(5)]
  have "fits (''user'' @ CHR ''='' # cnfUser m)" "fits (''password'' @ CHR ''='' # cnfPassword m)"
    "fits (''host'' @ CHR ''='' # cnfHost m)" "fits (''port'' @ CHR ''='' # cnfPort m)"
    "fits (''socket'' @ CHR ''='' # cnfSocket m)" by (rule f, simp, rule v)+
  then have ok: "list_all (\<lambda>l. newline \<notin> set l \<and> fits l \<and> TrimSpace l = l) ?ls"
    by (simp only: list.pred_inject lines client_header simp_thms)
  have "map read_line ?ls = [Section True, Setting ''user'' (cnfUser m), Setting ''password'' (cnfPassword m),
      Setting ''host'' (cnfHost m), Setting ''port'' (cnfPort m), Setting ''socket'' (cnfSocket m)]"
    by (simp only: list.map client_header lines)
  then have "snd (foldl cnf_step (False, zeroMycnf) (scan_lines (cnf_text m))) = m"
    by (simp only: t scan_lines_lines [OF ok] foldl_cnf_step foldl_set_field)
       (simp add: settings_record_def last_value_def)
  moreover have "scan_error (cnf_text m) None = None" by (simp only: t scan_lines_lines [OF ok])
  ultimately show ?thesis using assms(2) by (simp add: LoadMycnf_def)
qed

text \<open>C38: a \<open>my.cnf\<close> that assigns the five settings in a client section is read back exactly,
  whatever equals signs, hashes, brackets or quotes the values hold: the password that
  reaches the DSN is the text after the first equals sign, quotes included.\<close>

theorem mycnf_roundtrip:
  assumes "list_all cnf_value [cnfUser m, cnfPassword m, cnfHost m, cnfPort m, cnfSocket m]"
    and "open_file path = Inr (cnf_text m, None)"
  shows "LoadMycnf open_file path = Ret m"
  using assms by (rule LoadMycnf_text)

definition demo_cnf :: Mycnf where
  "demo_cnf = \<lparr>cnfUser = ''root'', cnfPassword = ''a=b#c]'', cnfHost = ''db'', cnfPort = ''3307'', cnfSocket = []\<rparr>"

theorem mycnf_roundtrip_witness:
  "LoadMycnf (\<lambda>_. Inr (cnf_text demo_cnf, None)) ''/root/.my.cnf'' = Ret demo_cnf
   \<and> DSN demo_cnf = ''root:a=b#c]@tcp(db:3307)/?parseTime=true&multiStatements=true''"
proof -
  have "list_all cnf_value [cnfUser demo_cnf, cnfPassword demo_cnf, cnfHost demo_cnf, cnfPort demo_cnf, cnfSocket demo_cnf]"
    by (simp add: demo_cnf_def cnf_value_def newline_def TrimSpace_plain plain_char_def)
  from mycnf_roundtrip [OF this, of "\<lambda>_. Inr (cnf_text demo_cnf, None)" "''/root/.my.cnf''"] show ?thesis by (simp add: demo_cnf_def DSN_def)
qed

end
