(* ===== verification/ServerMain.thy ===== *)
theory ServerMain
  imports Auth Config Mycnf
begin

text \<open>
  \<open>cmd/server/main.go\<close>: the commands of the server binary. What \<open>config.Load\<close>, \<open>store.Open\<close>
  and the other constructors answer is an argument of the commands; the token and audit
  commands act on the state of the metadata database. A command answers its exit code, or
  panics, and what it prints on standard output; the texts on standard error are not kept.
\<close>

section \<open>Arguments\<close>

datatype command = RunServer "string list" | RunToken "string list" | RunAudit "string list" | Usage nat

text \<open>\<open>os.Args\<close> includes the name of the program.\<close>

definition server_command :: "string list \<Rightarrow> command" where
  "server_command osArgs =
     (case osArgs of
        _ # c # args \<Rightarrow>
          (if c = ''server'' then RunServer args
           else if c = ''token'' then RunToken args
           else if c = ''audit'' then RunAudit args
           else if c \<in> {''-h'', ''--help'', ''help''} then Usage 0
           else Usage 2)
      | _ \<Rightarrow> Usage 2)"

definition default_config :: string where
  "default_config = ''/etc/db-isolation/config.yaml''"

text \<open>The loop of \<open>loadConfigAndStore\<close>: the first \<open>--config\<close> with a value, wherever it stands.\<close>

fun config_path :: "string list \<Rightarrow> string" where
  "config_path [] = default_config"
| "config_path (a # args) =
     (if a = ''--config'' \<and> args \<noteq> [] then hd args
      else if HasPrefix a ''--config='' then drop 9 a
      else config_path args)"

fun strip_loop :: "bool \<Rightarrow> string list \<Rightarrow> string list" where
  "strip_loop skip [] = []"
| "strip_loop skip (a # args) =
     (if skip then strip_loop False args
      else if a = ''--config'' then strip_loop True args
      else if HasPrefix a ''--config='' then strip_loop False args
      else a # strip_loop False args)"

definition stripConfig :: "string list \<Rightarrow> string list" where
  "stripConfig args = strip_loop False args"

section \<open>Printing\<close>

definition formatOptTime :: "gotime option \<Rightarrow> string" where
  "formatOptTime t = (case t of None \<Rightarrow> ''-'' | Some t \<Rightarrow> formatRFC3339 t)"

definition token_line :: "Token \<Rightarrow> string" where
  "token_line t =
     Join [pad 4 (Itoa_int (tokID t)), pad 20 (tokName t), pad 22 (formatRFC3339 (tokCreatedAt t)),
       pad 22 (formatOptTime (LastUsedAt t)), pad 22 (formatOptTime (RevokedAt t))] '' ''"

definition token_header :: string where
  "token_header = Join [pad 4 ''ID'', pad 20 ''NAME'', pad 22 ''CREATED'', pad 22 ''LAST USED'', pad 22 ''REVOKED''] '' ''"

definition audit_line :: "AuditLog \<Rightarrow> string" where
  "audit_line e =
     formatRFC3339 (audCreatedAt e) @ '' '' @ pad 22 (Action e) @ '' resource='' @ pad 8 (Resource e)
       @ '' name='' @ pad 16 (ResourceName e) @ '' ok='' @ pad 5 (if Success e then ''true'' else ''false'')
       @ '' remote='' @ RemoteIP e @ '' msg='' @ Quote (Message e)"

section \<open>The token and audit commands\<close>

type_synonym 'q command_result = "nat outcome \<times> string list \<times> 'q"

definition created_lines :: "string \<Rightarrow> string list" where
  "created_lines raw =
     [''Token created. This token will only be shown once.'', [], raw, [],
      ''Save it now. Store as DB_ISOLATION_TOKEN.'']"

definition token_create ::
    "'q sqlite \<Rightarrow> gotime \<Rightarrow> entropy \<Rightarrow> nat \<Rightarrow> string list \<Rightarrow> 'q \<Rightarrow> 'q command_result" where
  "token_create Q t ent k args q =
     (case parse_flags [(''name'', FString)] [] args of
        None \<Rightarrow> (Ret 2, [], q)
      | Some (vals, _) \<Rightarrow>
          (let name = string_flag vals ''name'' [] in
           if TrimSpace name = [] then (Ret 2, [], q)
           else case fst (RandomToken ent k) of
             Fail _ \<Rightarrow> (Ret 1, [], q)
           | Panic p \<Rightarrow> (Panic p, [], q)
           | Ret raw \<Rightarrow>
               (case CreateToken Q t name (HashToken raw) q of
                  (Fail _, q) \<Rightarrow> (Ret 1, [], q)
                | (Panic p, q) \<Rightarrow> (Panic p, [], q)
                | (Ret _, q) \<Rightarrow> (Ret 0, created_lines raw, q))))"

definition token_list :: "'q sqlite \<Rightarrow> 'q \<Rightarrow> 'q command_result" where
  "token_list Q q =
     (case ListTokens Q q of
        Fail _ \<Rightarrow> (Ret 1, [], q)
      | Panic p \<Rightarrow> (Panic p, [], q)
      | Ret ts \<Rightarrow> (Ret 0, token_header # map token_line ts, q))"

definition token_revoke :: "'q sqlite \<Rightarrow> gotime \<Rightarrow> string list \<Rightarrow> 'q \<Rightarrow> 'q command_result" where
  "token_revoke Q t args q =
     (case parse_flags [(''id'', FInt)] [] args of
        None \<Rightarrow> (Ret 2, [], q)
      | Some (vals, _) \<Rightarrow>
          (let i = int_flag vals ''id'' 0 in
           if i \<le> 0 then (Ret 2, [], q)
           else case RevokeToken Q t i q of
             (Fail _, q) \<Rightarrow> (Ret 1, [], q)
           | (Panic p, q) \<Rightarrow> (Panic p, [], q)
           | (Ret _, q) \<Rightarrow> (Ret 0, [], q)))"

definition loadConfigAndStore ::
    "(string \<Rightarrow> goerr option \<times> Config) \<Rightarrow> (string \<Rightarrow> goerr option) \<Rightarrow> string list \<Rightarrow> bool" where
  "loadConfigAndStore load open_store args =
     (case load (config_path args) of
        (Some _, _) \<Rightarrow> False
      | (None, cfg) \<Rightarrow> open_store (cfgStoragePath cfg) = None)"

definition runToken ::
    "(string \<Rightarrow> goerr option \<times> Config) \<Rightarrow> (string \<Rightarrow> goerr option) \<Rightarrow> 'q sqlite \<Rightarrow> gotime \<Rightarrow> entropy \<Rightarrow> nat
      \<Rightarrow> string list \<Rightarrow> 'q \<Rightarrow> 'q command_result" where
  "runToken load open_store Q t ent k args q =
     (if args = [] then (Ret 2, [], q)
      else if \<not> loadConfigAndStore load open_store args then (Ret 1, [], q)
      else case stripConfig args of
        [] \<Rightarrow> (Panic ''runtime error: index out of range [0] with length 0'', [], q)
      | c # rest \<Rightarrow>
          (if c = ''create'' then token_create Q t ent k rest q
           else if c = ''list'' then token_list Q q
           else if c = ''revoke'' then token_revoke Q t rest q
           else (Ret 2, [], q)))"

definition runAudit ::
    "(string \<Rightarrow> goerr option \<times> Config) \<Rightarrow> (string \<Rightarrow> goerr option) \<Rightarrow> 'q sqlite
      \<Rightarrow> string list \<Rightarrow> 'q \<Rightarrow> 'q command_result" where
  "runAudit load open_store Q args q =
     (if args = [] \<or> hd args \<noteq> ''list'' then (Ret 2, [], q)
      else case stripConfig args of
        [] \<Rightarrow> (Panic ''runtime error: slice bounds out of range [1:0]'', [], q)
      | _ # rest \<Rightarrow>
          (case parse_flags [(''limit'', FInt)] [] rest of
             None \<Rightarrow> (Ret 2, [], q)
           | Some (vals, _) \<Rightarrow>
               (if \<not> loadConfigAndStore load open_store args then (Ret 1, [], q)
                else case ListAudit Q (int_flag vals ''limit'' 50) q of
                  Fail _ \<Rightarrow> (Ret 1, [], q)
                | Panic p \<Rightarrow> (Panic p, [], q)
                | Ret es \<Rightarrow> (Ret 0, map audit_line es, q))))"

section \<open>The server command\<close>

definition resolveAdminDSN ::
    "(string \<Rightarrow> (string, string \<times> string option) sum) \<Rightarrow> MySQLConfig \<Rightarrow> string outcome" where
  "resolveAdminDSN open_file cfg =
     (if myAdminDSN cfg \<noteq> [] then Ret (myAdminDSN cfg)
      else if myAdminConfigPath cfg = []
        then Fail (ErrText ''no admin DSN: set MYSQL_ADMIN_DSN or my_admin_config_path'')
      else case LoadMycnf open_file (myAdminConfigPath cfg) of
        Fail e \<Rightarrow> Fail e
      | Panic p \<Rightarrow> Panic p
      | Ret mc \<Rightarrow>
          (if cnfUser mc = [] then Fail (ErrText (''no user in '' @ myAdminConfigPath cfg))
           else Ret (DSN mc)))"

datatype level = LevelDebug | LevelInfo | LevelWarn | LevelError

definition newLogger :: "string \<Rightarrow> level" where
  "newLogger l =
     (let l = ToLower l in
      if l = ''debug'' then LevelDebug else if l = ''warn'' then LevelWarn
      else if l = ''error'' then LevelError else LevelInfo)"

text \<open>The levels are ordered by their severities in \<open>log/slog\<close>. A logger writes the records of
  its own level and above.\<close>

fun severity :: "level \<Rightarrow> int" where
  "severity LevelDebug = -4" | "severity LevelInfo = 0" | "severity LevelWarn = 4" | "severity LevelError = 8"

lemma severity_inj: "severity a = severity b \<longleftrightarrow> a = b"
  by (cases a; cases b) simp_all

instantiation level :: linorder
begin

definition less_eq_level :: "level \<Rightarrow> level \<Rightarrow> bool" where
  "a \<le> b \<longleftrightarrow> severity a \<le> severity b"

definition less_level :: "level \<Rightarrow> level \<Rightarrow> bool" where
  "a < b \<longleftrightarrow> severity a < severity b"

instance
  by standard (auto simp: less_eq_level_def less_level_def severity_inj)

end

lemma written_records:
  "newLogger l \<le> LevelError" "newLogger l \<le> LevelInfo \<longleftrightarrow> ToLower l \<noteq> ''warn'' \<and> ToLower l \<noteq> ''error''"
  by (auto simp: newLogger_def less_eq_level_def Let_def)

fun redactDSN :: "string \<Rightarrow> string" where
  "redactDSN [] = []"
| "redactDSN (c # rest) =
     (case (if c = CHR '':'' \<and> rest \<noteq> [] then IndexByte rest (CHR ''@'') else None) of
        Some j \<Rightarrow> c # ''***'' @ drop j rest
      | None \<Rightarrow> c # redactDSN rest)"

text \<open>What ends the wait of the server: a signal, with the error of the shutdown, or the end of
  \<open>ListenAndServe\<close>, with its error unless that only says that the server was closed.\<close>

datatype served = Signalled "goerr option" | Ended "goerr option"

text \<open>\<open>su_store\<close> is \<open>store.Open\<close>: whether it has opened a SQLite handle, and its error. It can fail
  with the handle open, when the ping or the migration fails.\<close>

record startup =
  su_load :: "string \<Rightarrow> goerr option \<times> Config"
  su_store :: "string \<Rightarrow> bool \<times> goerr option"
  su_audit :: "AuditConfig \<Rightarrow> goerr option"
  su_cnf :: "string \<Rightarrow> (string, string \<times> string option) sum"
  su_mysql :: "string \<Rightarrow> goerr option"
  su_secrets :: "string \<Rightarrow> goerr option"
  su_serve :: "string \<Rightarrow> served"

datatype held = HStore | HAudit | HMySQL

datatype event = Opened held | Closed held | Served string | Logged string string

text \<open>A resource and its deferred \<open>Close\<close> around the rest of the function.\<close>

definition holding :: "held \<Rightarrow> nat \<times> event list \<Rightarrow> nat \<times> event list" where
  "holding r c = (fst c, Opened r # snd c @ [Closed r])"

definition or_fail :: "string \<Rightarrow> goerr option \<Rightarrow> nat \<times> event list \<Rightarrow> nat \<times> event list" where
  "or_fail what err c =
     (case err of Some e \<Rightarrow> (1, [Logged what (errText e)]) | None \<Rightarrow> c)"

definition serve :: "startup \<Rightarrow> string \<Rightarrow> nat \<times> event list" where
  "serve S addr =
     (case su_serve S addr of
        Signalled None \<Rightarrow> (0, [Served addr])
      | Signalled (Some e) \<Rightarrow> (1, [Served addr, Logged ''shutdown'' (errText e)])
      | Ended None \<Rightarrow> (0, [Served addr])
      | Ended (Some e) \<Rightarrow> (1, [Served addr, Logged ''listen'' (errText e)]))"

definition connect :: "startup \<Rightarrow> Config \<Rightarrow> string \<Rightarrow> nat \<times> event list" where
  "connect S cfg addr =
     (case resolveAdminDSN (su_cnf S) (cfgMySQL cfg) of
        Fail e \<Rightarrow> (1, [Logged ''resolve admin DSN'' (errText e)])
      | Panic p \<Rightarrow> (2, [])
      | Ret dsn \<Rightarrow>
          (case su_mysql S dsn of
             Some e \<Rightarrow> (1, [Logged ''connect MySQL'' (redactDSN (errText e))])
           | None \<Rightarrow>
               holding HMySQL (or_fail ''init secrets'' (su_secrets S (cfgSecretsDir cfg)) (serve S addr))))"

definition runServer :: "startup \<Rightarrow> string list \<Rightarrow> nat \<times> event list" where
  "runServer S args =
     (case parse_flags [(''config'', FString), (''addr'', FString)] [] args of
        None \<Rightarrow> (2, [])
      | Some (vals, _) \<Rightarrow>
          (case su_load S (string_flag vals ''config'' default_config) of
             (Some _, _) \<Rightarrow> (1, [])
           | (None, cfg) \<Rightarrow>
               (let given = string_flag vals ''addr'' [];
                    addr = (if given \<noteq> [] then given else srvAddr (cfgServer cfg))
                in case su_store S (cfgStoragePath cfg) of
                     (opened, Some e) \<Rightarrow> (1, (if opened then [Opened HStore] else []) @ [Logged ''open store'' (errText e)])
                   | (_, None) \<Rightarrow>
                       holding HStore (or_fail ''init audit'' (su_audit S (cfgAudit cfg))
                         (holding HAudit (connect S cfg addr))))))"

section \<open>What the commands guarantee\<close>

text \<open>A run is in order when resources are closed in the reverse order of their opening, none is
  opened twice or left open, and requests are served only while all three are held.\<close>

fun in_order :: "held list \<Rightarrow> event list \<Rightarrow> bool" where
  "in_order st [] \<longleftrightarrow> st = []"
| "in_order st (Opened r # es) \<longleftrightarrow> r \<notin> set st \<and> in_order (r # st) es"
| "in_order st (Closed r # es) \<longleftrightarrow> st \<noteq> [] \<and> hd st = r \<and> in_order (tl st) es"
| "in_order st (Served a # es) \<longleftrightarrow> set st = {HStore, HAudit, HMySQL} \<and> in_order st es"
| "in_order st (Logged x y # es) \<longleftrightarrow> in_order st es"

definition keeps :: "held list \<Rightarrow> nat \<times> event list \<Rightarrow> bool" where
  "keeps st c \<longleftrightarrow> (\<forall>rest. in_order st (snd c @ rest) \<longleftrightarrow> in_order st rest)
     \<and> (fst c = 0 \<longrightarrow> (\<exists>a. Served a \<in> set (snd c)))"

lemma keeps_logged: "k \<noteq> 0 \<Longrightarrow> keeps st (k, [Logged x y])" "k \<noteq> 0 \<Longrightarrow> keeps st (k, [])"
  by (simp_all add: keeps_def)

lemma keeps_or_fail: "keeps st c \<Longrightarrow> keeps st (or_fail what e c)"
  by (cases e) (simp_all add: or_fail_def keeps_logged)

lemma keeps_holding: "r \<notin> set st \<Longrightarrow> keeps (r # st) c \<Longrightarrow> keeps st (holding r c)"
  by (auto simp: keeps_def holding_def)

lemma keeps_serve: "set st = {HStore, HAudit, HMySQL} \<Longrightarrow> keeps st (serve S a)"
  by (auto simp: keeps_def serve_def split: served.splits option.splits)

lemma keeps_connect: "keeps [HAudit, HStore] (connect S cfg a)"
proof -
  have "keeps [HAudit, HStore] (holding HMySQL (or_fail w e (serve S a)))" for w e
    by (intro keeps_holding keeps_or_fail keeps_serve) auto
  then show ?thesis
    unfolding connect_def by (simp split: outcome.split option.split add: keeps_logged)
qed

text \<open>The store cannot be opened, but its handle is: the one failure that leaves something open.\<close>

definition leaks_store :: "startup \<Rightarrow> string list \<Rightarrow> bool" where
  "leaks_store S args \<longleftrightarrow>
     (case parse_flags [(''config'', FString), (''addr'', FString)] [] args of
        None \<Rightarrow> False
      | Some (vals, _) \<Rightarrow>
          (case su_load S (string_flag vals ''config'' default_config) of
             (Some _, _) \<Rightarrow> False
           | (None, cfg) \<Rightarrow> fst (su_store S (cfgStoragePath cfg)) \<and> snd (su_store S (cfgStoragePath cfg)) \<noteq> None))"

lemma keeps_runServer: "\<not> leaks_store S args \<Longrightarrow> keeps [] (runServer S args)"
proof -
  have "keeps [] (holding HStore (or_fail w' e' (holding HAudit (connect S cfg a))))" for w' e' cfg a
    by (intro keeps_or_fail keeps_holding keeps_connect) auto
  note held = this
  assume ok: "\<not> leaks_store S args"
  show ?thesis
  proof (cases "parse_flags [(''config'', FString), (''addr'', FString)] [] args")
    case (Some x)
    obtain vals rest where x: "x = (vals, rest)" by fastforce
    obtain e cfg where l: "su_load S (string_flag vals ''config'' default_config) = (e, cfg)" by fastforce
    obtain opened err where o': "su_store S (cfgStoragePath cfg) = (opened, err)" by fastforce
    with ok Some x l have "e = None \<Longrightarrow> err = None \<or> \<not> opened" by (auto simp: leaks_store_def)
    with Some x l o' held show ?thesis
      by (cases e; cases err) (simp_all add: runServer_def Let_def keeps_logged)
  qed (simp add: runServer_def keeps_logged)
qed

lemma leaking_run:
  "leaks_store S args \<Longrightarrow> \<exists>e. runServer S args = (1, [Opened HStore, Logged ''open store'' e])"
  unfolding runServer_def leaks_store_def Let_def by (auto split: option.splits prod.splits)

text \<open>C32: the server command closes everything it has opened, in reverse order and once, and accepts
  requests only while the store, the audit log and the MySQL connection are all open, on every
  path but one: when the SQLite handle is opened and the store then fails to be pinged or
  migrated, the command logs that and ends with code 1, the handle still open. It answers the
  exit code 0 only after it has served.\<close>

theorem server_releases_everything:
  "(in_order [] (snd (runServer S args)) \<longleftrightarrow> \<not> leaks_store S args)
   \<and> (leaks_store S args \<longrightarrow> (\<exists>e. runServer S args = (1, [Opened HStore, Logged ''open store'' e])))
   \<and> (fst (runServer S args) = 0 \<longrightarrow> (\<exists>a. Served a \<in> set (snd (runServer S args))))"
proof (cases "leaks_store S args")
  case True
  from leaking_run [OF True] True show ?thesis by auto
next
  case False
  note k = keeps_runServer [OF False]
  from k have "in_order [] (snd (runServer S args) @ []) \<longleftrightarrow> in_order [] []"
    unfolding keeps_def by blast
  with False k show ?thesis by (simp add: keeps_def)
qed

definition demo_startup :: startup where
  "demo_startup = \<lparr>su_load = (\<lambda>_. (None, Default)), su_store = (\<lambda>_. (True, None)), su_audit = (\<lambda>_. None),
     su_cnf = (\<lambda>_. Inr (cnf_text demo_cnf, None)), su_mysql = (\<lambda>_. None), su_secrets = (\<lambda>_. None),
     su_serve = (\<lambda>_. Signalled None)\<rparr>"

lemma demo_startup_simps:
  "su_load demo_startup p = (None, Default)" "su_store demo_startup p = (True, None)" "su_audit demo_startup a = None"
  "su_mysql demo_startup d = None" "su_secrets demo_startup p = None" "su_serve demo_startup x = Signalled None"
  by (simp_all add: demo_startup_def)

lemma demo_run:
  "runServer demo_startup []
     = (0, [Opened HStore, Opened HAudit, Opened HMySQL, Served ''127.0.0.1:8787'', Closed HMySQL,
            Closed HAudit, Closed HStore])"
proof -
  have "list_all cnf_value [cnfUser demo_cnf, cnfPassword demo_cnf, cnfHost demo_cnf, cnfPort demo_cnf, cnfSocket demo_cnf]"
    by (simp add: demo_cnf_def cnf_value_def newline_def TrimSpace_plain plain_char_def)
  then have "LoadMycnf (su_cnf demo_startup) ''/root/.my.cnf'' = Ret demo_cnf"
    by (rule LoadMycnf_text) (simp add: demo_startup_def)
  then have r: "resolveAdminDSN (su_cnf demo_startup) (cfgMySQL Default) = Ret (DSN demo_cnf)"
    by (simp add: resolveAdminDSN_def Default_def demo_cnf_def)
  have "srvAddr (cfgServer Default) = ''127.0.0.1:8787''" by (simp add: Default_def)
  then show ?thesis
    by (simp add: runServer_def connect_def r or_fail_def holding_def serve_def string_flag_def demo_startup_simps)
qed

theorem server_releases_everything_witness:
  "\<exists>a. Served a \<in> set (snd (runServer demo_startup []))"
  using server_releases_everything [of demo_startup "[]"] by (simp add: demo_run)

section \<open>Redaction\<close>

lemma redact_skip: "CHR '':'' \<notin> set pre \<Longrightarrow> redactDSN (pre @ s) = pre @ redactDSN s"
  by (induction pre) auto

lemma redact_found:
  "CHR ''@'' \<notin> set p \<Longrightarrow> redactDSN (CHR '':'' # p @ CHR ''@'' # s) = '':***@'' @ s"
  by (simp add: IndexByte_append)

text \<open>In a message with \<open>user:password@rest\<close> the redaction leaves exactly \<open>user:***@rest\<close> if
  the password has no at sign; of a password that has one, everything behind the first at
  sign is printed.\<close>

theorem redaction_iff_no_at:
  assumes "CHR '':'' \<notin> set pre"
  shows "(redactDSN (pre @ '':'' @ pw @ ''@'' @ rest) = pre @ '':***@'' @ rest \<longleftrightarrow> CHR ''@'' \<notin> set pw)
   \<and> (\<forall>p s. pw = p @ ''@'' @ s \<and> CHR ''@'' \<notin> set p \<longrightarrow>
        redactDSN (pre @ '':'' @ pw @ ''@'' @ rest) = pre @ '':***@'' @ s @ ''@'' @ rest)"
proof -
  have leak: "redactDSN (pre @ '':'' @ pw @ ''@'' @ rest) = pre @ '':***@'' @ s @ ''@'' @ rest"
    if "pw = p @ ''@'' @ s" "CHR ''@'' \<notin> set p" for p s
    using redact_skip [OF assms] redact_found [OF that(2), of "s @ CHR ''@'' # rest"] that(1) by simp
  have "redactDSN (pre @ '':'' @ pw @ ''@'' @ rest) = pre @ '':***@'' @ rest" if "CHR ''@'' \<notin> set pw"
    using redact_skip [OF assms] redact_found [OF that, of rest] by simp
  moreover have "redactDSN (pre @ '':'' @ pw @ ''@'' @ rest) \<noteq> pre @ '':***@'' @ rest"
    if at: "CHR ''@'' \<in> set pw"
  proof -
    obtain p s where "pw = p @ CHR ''@'' # s" "CHR ''@'' \<notin> set p" using split_list_first [OF at] by blast
    then have "length (redactDSN (pre @ '':'' @ pw @ ''@'' @ rest)) > length (pre @ '':***@'' @ rest)"
      using leak [of p s] by simp
    then show ?thesis by (metis less_irrefl)
  qed
  ultimately show ?thesis using leak by blast
qed

theorem redaction_iff_no_at_witness:
  "redactDSN ''root:pa@ss@tcp(db)/'' = ''root:***@ss@tcp(db)/''
   \<and> redactDSN ''root:pass@tcp(db)/'' = ''root:***@tcp(db)/''"
  using redaction_iff_no_at [of "''root''" "''pa@ss''" "''tcp(db)/''"]
    redaction_iff_no_at [of "''root''" "''pass''" "''tcp(db)/''"] by simp

section \<open>Tokens from creation to use\<close>

lemma b64_plain: "c \<in> set b64_alphabet \<Longrightarrow> plain_char c"
  by (auto simp: b64_alphabet_def plain_char_def)

lemma RandomToken_bearer:
  assumes "fst (RandomToken ent k) = Ret raw"
  shows "bearer_token (''Bearer '' @ raw) = Some raw"
proof -
  obtain buf where raw: "raw = TokenPrefix @ EncodeToString buf"
    using assms by (auto simp: RandomToken_def split: sum.splits)
  have "list_all plain_char (EncodeToString buf)"
    using encode_alphabet [of buf] b64_plain by (auto simp: list_all_iff)
  then have all: "list_all plain_char raw" by (simp add: raw TokenPrefix_def plain_char_def)
  have ne: "raw \<noteq> []" by (simp add: raw TokenPrefix_def)
  then have "last raw \<in> set raw" by simp
  then have "plain_char (last raw)" using all by (simp add: list_all_iff)
  then have "TrimSpace (''Bearer '' @ raw) = ''Bearer '' @ raw"
    using ne by (intro TrimSpace_plain) (simp add: plain_char_def)
  moreover have "TrimSpace raw = raw" using all by (rule TrimSpace_all_plain)
  moreover have "HasPrefix raw TokenPrefix" by (simp add: raw)
  ultimately show ?thesis using ne by (simp only: bearer_token_def CutPrefix_append option.case) simp
qed

lemma token_create_zero:
  assumes "token_create Q t ent k args q = (Ret 0, out, q1)"
  obtains vals rest raw tok where "parse_flags [(''name'', FString)] [] args = Some (vals, rest)"
    "fst (RandomToken ent k) = Ret raw" "out = created_lines raw"
    "CreateToken Q t (string_flag vals ''name'' []) (HashToken raw) q = (Ret tok, q1)"
  using assms by (auto simp: token_create_def Let_def split: option.splits prod.splits if_splits outcome.splits)

lemma runToken_create:
  assumes "runToken load open_store Q t ent k args q = (Ret 0, out, q1)" and "stripConfig args = ''create'' # rest"
  shows "token_create Q t ent k rest q = (Ret 0, out, q1)"
  using assms by (simp add: runToken_def split: if_splits)

definition new_token_row :: "tables \<Rightarrow> gotime \<Rightarrow> string \<Rightarrow> string \<Rightarrow> token_row" where
  "new_token_row tb t name raw =
     \<lparr>t_id = tokens_seq tb + 1, t_name = name, t_hash = HashToken raw, t_created = formatNano t,
      t_last_used = None, t_revoked = None\<rparr>"

context sqlite_engine
begin

lemma CreateToken_effect:
  assumes "CreateToken Q t name (HashToken raw) q = (Ret tok, q1)"
  shows "view q1 = (view q)\<lparr>tokens := tokens (view q) @ [new_token_row (view q) t name raw],
      tokens_seq := tokens_seq (view q) + 1\<rparr>"
    and "HashToken raw \<notin> t_hash ` set (tokens (view q))"
proof -
  from assms have "sq_exec Q (InsertToken name (HashToken raw) (formatNano t)) q = (None, q1)"
    by (auto simp: CreateToken_def split: prod.splits option.splits)
  from exec_ok [OF this] show "view q1 = (view q)\<lparr>tokens := tokens (view q) @ [new_token_row (view q) t name raw],
      tokens_seq := tokens_seq (view q) + 1\<rparr>"
    and "HashToken raw \<notin> t_hash ` set (tokens (view q))"
    by (simp_all add: new_token_row_def)
qed

lemma new_token_valid:
  assumes "CreateToken Q t name (HashToken raw) q = (Ret tok, q1)"
  shows "valid_token (HashToken raw) (tokens_seq (view q) + 1) name (view q1)"
proof -
  note e = CreateToken_effect [OF assms]
  from e(2) have "filter (\<lambda>x. t_hash x = HashToken raw) (tokens (view q)) = []" by (auto simp: filter_empty_conv image_iff)
  then show ?thesis by (simp add: valid_token_def e(1) new_token_row_def)
qed

lemma Lookup_valid_token:
  assumes "valid_token (HashToken raw) i name (view q)" and "bearer_token h = Some raw"
  shows "(\<exists>tok. fst (Lookup Q t h q) = Ret tok \<and> tokName tok = name \<and> tokID tok = i)
    \<or> (\<exists>e. sq_token Q (HashToken raw) q = Inl e)"
proof (cases "sq_token Q (HashToken raw) q")
  case (Inr s)
  from assms(1) obtain r where f: "filter (\<lambda>x. t_hash x = HashToken raw) (tokens (view q)) = [r]"
    and r: "t_id r = i" "t_name r = name" "t_revoked r = None"
    by (auto simp: valid_token_def)
  have "r \<in> set (filter (\<lambda>x. t_hash x = HashToken raw) (tokens (view q)))" unfolding f by simp
  then have h: "t_hash r = HashToken raw" by simp
  have "find P xs = Some x" if "filter P xs = [x]" for P x and xs :: "token_row list"
    using that by (induction xs) (auto split: if_splits)
  with f have "select_token (HashToken raw) (view q) = Some r" by (simp add: select_token_def)
  with token_ok [OF Inr] Inr have "GetTokenByHash Q (HashToken raw) q = Ret (scanToken r)"
    by (simp add: GetTokenByHash_def)
  then show ?thesis using assms(2) r h by (simp add: Lookup_bearer scanToken_def)
qed simp

end

text \<open>C19: a token command that succeeds prints a token that was not known before. All it stores is
  one row with the digest of the token, under the given name; projects and audit records are as
  they were. After any sequence of store operations, failing ones included, that does not
  revoke that row, the printed text is accepted as a bearer token for that name, unless the
  query for it fails.\<close>

theorem created_token_is_admitted:
  assumes "sqlite_engine Q view" and "runToken load open_store Q t ent k args q = (Ret 0, out, q1)"
    and "stripConfig args = ''create'' # rest"
  shows "\<exists>raw name vals r. out = created_lines raw
    \<and> parse_flags [(''name'', FString)] [] rest = Some (vals, r) \<and> name = string_flag vals ''name'' []
    \<and> HashToken raw \<notin> t_hash ` set (tokens (view q))
    \<and> view q1 = (view q)\<lparr>tokens := tokens (view q) @ [new_token_row (view q) t name raw],
        tokens_seq := tokens_seq (view q) + 1\<rparr>
    \<and> (\<forall>q2 t'. (spares_token Q (tokens_seq (view q) + 1))\<^sup>*\<^sup>* q1 q2 \<longrightarrow>
        (\<exists>tok. fst (Lookup Q t' (''Bearer '' @ raw) q2) = Ret tok \<and> tokName tok = name)
        \<or> (\<exists>e. sq_token Q (HashToken raw) q2 = Inl e))"
proof -
  from runToken_create [OF assms(2,3)] obtain vals r raw tok where
    p: "parse_flags [(''name'', FString)] [] rest = Some (vals, r)"
    and raw: "fst (RandomToken ent k) = Ret raw" and out: "out = created_lines raw"
    and c: "CreateToken Q t (string_flag vals ''name'' []) (HashToken raw) q = (Ret tok, q1)"
    by (rule token_create_zero)
  note e = sqlite_engine.CreateToken_effect [OF assms(1) c]
  have "(\<exists>tok. fst (Lookup Q t' (''Bearer '' @ raw) q2) = Ret tok \<and> tokName tok = string_flag vals ''name'' [])
      \<or> (\<exists>e. sq_token Q (HashToken raw) q2 = Inl e)"
    if "(spares_token Q (tokens_seq (view q) + 1))\<^sup>*\<^sup>* q1 q2" for q2 t'
    using sqlite_engine.Lookup_valid_token [OF assms(1) sqlite_engine.spared_token_valid [OF assms(1) that
      sqlite_engine.new_token_valid [OF assms(1) c]] RandomToken_bearer [OF raw]] by blast
  with p out e show ?thesis by blast
qed

lemma demo_create:
  "runToken (\<lambda>_. (None, Default)) (\<lambda>_. None) table_engine zeroTime zero_entropy 0
     [''create'', ''--name=ci'', ''--config'', ''/c''] empty_tables
   = (Ret 0, created_lines ''dbi_AAAAAAAAAAAAAAAAAAAAAAAAAAAAAAAA'',
      snd (CreateToken table_engine zeroTime ''ci'' (HashToken ''dbi_AAAAAAAAAAAAAAAAAAAAAAAAAAAAAAAA'') empty_tables))"
proof -
  have s: "stripConfig [''create'', ''--name=ci'', ''--config'', ''/c''] = [''create'', ''--name=ci'']"
    by (simp add: stripConfig_def HasPrefix_def)
  have p: "parse_flags [(''name'', FString)] [] [''--name=ci''] = Some ([(''name'', VString ''ci'')], [])"
    using parse_string_flag(2) [of "''name''" "[(''name'', FString)]" "[]" "''ci''" "[]"] by (simp add: flag_name_def)
  have t: "TrimSpace ''ci'' = ''ci''" by (rule TrimSpace_plain) (simp add: plain_char_def)
  let ?raw = "''dbi_AAAAAAAAAAAAAAAAAAAAAAAAAAAAAAAA''"
  have "\<exists>tok q1. CreateToken table_engine zeroTime ''ci'' h empty_tables = (Ret tok, q1)" for h
    by (simp add: CreateToken_def GetTokenByHash_def table_engine_def table_exec_def empty_tables_def select_token_def)
  then obtain tok q1 where c: "CreateToken table_engine zeroTime ''ci'' (HashToken ?raw) empty_tables = (Ret tok, q1)"
    by blast
  have r: "fst (RandomToken zero_entropy 0) = Ret ?raw" by (simp only: zero_token fst_conv)
  show ?thesis
    by (simp add: runToken_def loadConfigAndStore_def s token_create_def p t string_flag_def r c)
qed

theorem created_token_is_admitted_witness:
  "\<exists>q1 tok. fst (Lookup table_engine zeroTime ''Bearer dbi_AAAAAAAAAAAAAAAAAAAAAAAAAAAAAAAA'' q1) = Ret tok
    \<and> tokName tok = ''ci'' \<and> runToken (\<lambda>_. (None, Default)) (\<lambda>_. None) table_engine zeroTime zero_entropy 0
     [''create'', ''--name=ci'', ''--config'', ''/c''] empty_tables
   = (Ret 0, created_lines ''dbi_AAAAAAAAAAAAAAAAAAAAAAAAAAAAAAAA'', q1)"
proof -
  have s: "stripConfig [''create'', ''--name=ci'', ''--config'', ''/c''] = ''create'' # [''--name=ci'']"
    by (simp add: stripConfig_def HasPrefix_def)
  have p: "parse_flags [(''name'', FString)] [] [''--name=ci''] = Some ([(''name'', VString ''ci'')], [])"
    using parse_string_flag(2) [of "''name''" "[(''name'', FString)]" "[]" "''ci''" "[]"] by (simp add: flag_name_def)
  from created_token_is_admitted [OF reference_sql.sqlite_engine_axioms demo_create s] obtain raw where
    r: "created_lines ''dbi_AAAAAAAAAAAAAAAAAAAAAAAAAAAAAAAA'' = created_lines raw"
    and l: "\<exists>tok. fst (Lookup table_engine zeroTime (''Bearer '' @ raw) (snd (CreateToken table_engine zeroTime ''ci''
      (HashToken ''dbi_AAAAAAAAAAAAAAAAAAAAAAAAAAAAAAAA'') empty_tables))) = Ret tok
        \<and> tokName tok = string_flag [(''name'', VString ''ci'')] ''name'' []"
    unfolding p by (fastforce simp: table_engine_def)
  from r have raw: "raw = ''dbi_AAAAAAAAAAAAAAAAAAAAAAAAAAAAAAAA''" by (simp only: created_lines_def list.inject)
  have "string_flag [(''name'', VString ''ci'')] ''name'' [] = ''ci''" by (simp add: string_flag_def)
  with l [unfolded raw] demo_create show ?thesis by (auto simp only: append_Cons append_Nil)
qed

section \<open>Panics\<close>

lemma CreateToken_no_panic: "fst (CreateToken Q t n h q) \<noteq> Panic m"
  by (simp add: CreateToken_def GetTokenByHash_no_panic split: prod.splits option.splits)

lemma token_commands_no_panic:
  "fst (token_create Q t ent k args q) \<noteq> Panic m" "fst (token_list Q q) \<noteq> Panic m"
  "fst (token_revoke Q t args q) \<noteq> Panic m"
proof -
  have "fst (RandomToken ent k) \<noteq> Panic x" for x by (simp add: RandomToken_def split: sum.splits)
  moreover have "CreateToken Q t n h q \<noteq> (Panic x, q1)" for n h x q1
    using CreateToken_no_panic [of Q t n h q x] by auto
  ultimately show "fst (token_create Q t ent k args q) \<noteq> Panic m"
    by (auto simp: token_create_def Let_def split: option.splits prod.splits outcome.splits)
  show "fst (token_list Q q) \<noteq> Panic m"
    by (simp add: token_list_def ListTokens_def split: sum.splits)
  show "fst (token_revoke Q t args q) \<noteq> Panic m"
    by (auto simp: token_revoke_def RevokeToken_def Let_def split: option.splits prod.splits)
qed

lemma stripConfig_list: "args \<noteq> [] \<Longrightarrow> hd args = ''list'' \<Longrightarrow> stripConfig args \<noteq> []"
  by (cases args) (auto simp: stripConfig_def HasPrefix_def)

text \<open>C39: the token command panics exactly when the configuration and the store open and its
  arguments hold nothing but configuration options, as in \<open>token --config PATH\<close>: the
  subcommand is then read from an empty slice. The audit command never panics.\<close>

theorem token_command_panics_iff:
  "((\<exists>m. fst (runToken load open_store Q t ent k args q) = Panic m)
      \<longleftrightarrow> args \<noteq> [] \<and> loadConfigAndStore load open_store args \<and> stripConfig args = [])
   \<and> stripConfig [''--config'', path] = []
   \<and> (\<forall>m. fst (runAudit load open_store Q args q) \<noteq> Panic m)"
proof (intro conjI allI)
  show "(\<exists>m. fst (runToken load open_store Q t ent k args q) = Panic m)
      \<longleftrightarrow> args \<noteq> [] \<and> loadConfigAndStore load open_store args \<and> stripConfig args = []"
    by (auto simp: runToken_def token_commands_no_panic split: list.splits)
  show "stripConfig [''--config'', path] = []" by (simp add: stripConfig_def)
  show "fst (runAudit load open_store Q args q) \<noteq> Panic m" for m
    using stripConfig_list [of args]
    by (auto simp: runAudit_def ListAudit_def Let_def split: list.splits option.splits prod.splits sum.splits)
qed

end
