(* ===== verification/Locks.thy ===== *)
theory Locks
  imports Names
begin

text \<open>
  Concurrent requests. \<open>Service.lock\<close> and \<open>Store.LockCreate\<close> are the same routine on two tables:
  under a guard it finds or makes the mutex of the name, releases the guard, and locks the
  mutex. A state holds the tables, the owners of the mutexes and, for each request, what it
  still has to do; a step lets one request do its next instruction. The bodies of the
  operations are any number of actions on the shared store, MySQL server and disk.
\<close>

section \<open>Requests\<close>

datatype table = Creating | Inflight

datatype instr =
    LockGuard table
  | Find table
  | UnlockGuard table
  | LockMutex table
  | Act
  | Unlock table

datatype opr = OpCreate | OpRotate | OpDelete

definition acquire :: "table \<Rightarrow> instr list" where
  "acquire b = [LockGuard b, Find b, UnlockGuard b, LockMutex b]"

text \<open>An operation with \<open>n\<close> actions; the deferred unlocks run last in, first out.\<close>

fun program :: "opr \<Rightarrow> nat \<Rightarrow> instr list" where
  "program OpCreate n =
     acquire Creating @ acquire Inflight @ replicate n Act @ [Unlock Inflight, Unlock Creating]"
| "program OpRotate n = acquire Inflight @ replicate n Act @ [Unlock Inflight]"
| "program OpDelete n = acquire Inflight @ replicate n Act @ [Unlock Inflight]"

record request_state =
  on_name :: string
  mutex :: "table \<Rightarrow> nat"
  todo :: "instr list"

record sys =
  guard :: "table \<Rightarrow> nat option"
  entries :: "table \<times> string \<Rightarrow> nat option"
  next_addr :: nat
  owner :: "nat \<Rightarrow> nat option"
  reqs :: "request_state list"
  acts :: "nat list"

definition start :: "(opr \<times> string \<times> nat) list \<Rightarrow> sys" where
  "start rs = \<lparr>guard = (\<lambda>_. None), entries = (\<lambda>_. None), next_addr = 0, owner = (\<lambda>_. None),
     reqs = map (\<lambda>(opn, name, n). \<lparr>on_name = name, mutex = (\<lambda>_. 0), todo = program opn n\<rparr>) rs, acts = []\<rparr>"

text \<open>The effect of an instruction of request \<open>t\<close> on everything but its own list, or None when it has
  to wait.\<close>

fun perform :: "nat \<Rightarrow> request_state \<Rightarrow> instr \<Rightarrow> sys \<Rightarrow> (request_state \<times> sys) option" where
  "perform t r (LockGuard b) s =
     (if guard s b = None then Some (r, s\<lparr>guard := (guard s)(b := Some t)\<rparr>) else None)"
| "perform t r (Find b) s =
     (case entries s (b, on_name r) of
        Some a \<Rightarrow> Some (r\<lparr>mutex := (mutex r)(b := a)\<rparr>, s)
      | None \<Rightarrow> Some (r\<lparr>mutex := (mutex r)(b := next_addr s)\<rparr>,
          s\<lparr>entries := (entries s)((b, on_name r) := Some (next_addr s)), next_addr := Suc (next_addr s)\<rparr>))"
| "perform t r (UnlockGuard b) s = Some (r, s\<lparr>guard := (guard s)(b := None)\<rparr>)"
| "perform t r (LockMutex b) s =
     (if owner s (mutex r b) = None then Some (r, s\<lparr>owner := (owner s)(mutex r b := Some t)\<rparr>) else None)"
| "perform t r Act s = Some (r, s\<lparr>acts := acts s @ [t]\<rparr>)"
| "perform t r (Unlock b) s = Some (r, s\<lparr>owner := (owner s)(mutex r b := None)\<rparr>)"

definition run_next :: "nat \<Rightarrow> sys \<Rightarrow> sys option" where
  "run_next t s =
     (if t < length (reqs s) then
        (case todo (reqs s ! t) of
           [] \<Rightarrow> None
         | i # rest \<Rightarrow>
             map_option (\<lambda>(r, s'). s'\<lparr>reqs := (reqs s')[t := r\<lparr>todo := rest\<rparr>]\<rparr>) (perform t (reqs s ! t) i s))
      else None)"

inductive step :: "sys \<Rightarrow> sys \<Rightarrow> bool" where
  step: "run_next t s = Some s' \<Longrightarrow> step s s'"

inductive_simps step_iff: "step s s'"

section \<open>Where a request stands\<close>

text \<open>How far a request is with a table.\<close>

datatype stage = Before | Guarded | Found | Waiting | Holding | Released

definition stage :: "table \<Rightarrow> instr list \<Rightarrow> stage" where
  "stage b is =
     (if LockGuard b \<in> set is then Before
      else if Find b \<in> set is then Guarded
      else if UnlockGuard b \<in> set is then Found
      else if LockMutex b \<in> set is then Waiting
      else if Unlock b \<in> set is then Holding
      else Released)"

text \<open>What can be left of a program: some actions and the unlocking, an acquisition before that,
  or, in a creation, the acquisition of the other table before both.\<close>

definition finale :: "bool \<Rightarrow> nat \<Rightarrow> instr list" where
  "finale c n = replicate n Act @ Unlock Inflight # (if c then [Unlock Creating] else [])"

inductive valid :: "instr list \<Rightarrow> bool" where
  "valid []"
| "valid [Unlock Creating]"
| "valid (finale c n)"
| "valid (LockMutex Inflight # finale c n)"
| "valid (UnlockGuard Inflight # LockMutex Inflight # finale c n)"
| "valid (Find Inflight # UnlockGuard Inflight # LockMutex Inflight # finale c n)"
| "valid (acquire Inflight @ finale c n)"
| "valid (LockMutex Creating # acquire Inflight @ finale True n)"
| "valid (UnlockGuard Creating # LockMutex Creating # acquire Inflight @ finale True n)"
| "valid (Find Creating # UnlockGuard Creating # LockMutex Creating # acquire Inflight @ finale True n)"
| "valid (acquire Creating @ acquire Inflight @ finale True n)"

lemma program_valid: "valid (program opn n)"
  using valid.intros(11) [of n] valid.intros(7) [of False n] by (cases opn) (simp_all add: finale_def)

lemma finale_Cons:
  "finale c n = i # is \<Longrightarrow>
     (\<exists>m. i = Act \<and> is = finale c m) \<or> (i = Unlock Inflight \<and> is = (if c then [Unlock Creating] else []))"
  by (cases n) (auto simp: finale_def)

lemma valid_tl:
  assumes "valid (i # is)"
  shows "valid is"
  using assms
proof cases
  case (3 c n)
  from finale_Cons [OF 3 [symmetric]] show ?thesis using valid.intros by auto
qed (auto simp: acquire_def [of Creating] acquire_def [of Inflight] intro: valid.intros [unfolded acquire_def append_Cons append_Nil])

text \<open>The stage of a request, seen from its next instruction, and how it moves on.\<close>

lemma set_finale: "set (finale c n) = (if n = 0 then {} else {Act}) \<union> {Unlock Inflight} \<union> (if c then {Unlock Creating} else {})"
  by (auto simp: finale_def)

definition moves :: "instr \<Rightarrow> instr list \<Rightarrow> bool" where
  "moves i is \<longleftrightarrow>
     (case i of
        LockGuard b \<Rightarrow> stage b (i # is) = Before \<and> stage b is = Guarded
      | Find b \<Rightarrow> stage b (i # is) = Guarded \<and> stage b is = Found
      | UnlockGuard b \<Rightarrow> stage b (i # is) = Found \<and> stage b is = Waiting
      | LockMutex b \<Rightarrow> stage b (i # is) = Waiting \<and> stage b is = Holding
      | Unlock b \<Rightarrow> stage b (i # is) = Holding \<and> stage b is = Released
      | Act \<Rightarrow> stage Inflight (i # is) = Holding \<and> stage Inflight is = Holding)"

lemma valid_moves:
  assumes "valid (i # is)"
  shows "moves i is"
  using assms
proof cases
  case (3 c n)
  from finale_Cons [OF 3 [symmetric]] show ?thesis
    by (auto simp: moves_def stage_def set_finale)
qed (simp_all add: moves_def stage_def set_finale acquire_def)

lemma stage_other:
  "i \<notin> {LockGuard b, Find b, UnlockGuard b, LockMutex b, Unlock b} \<Longrightarrow> stage b (i # is) = stage b is"
  by (auto simp: stage_def)

section \<open>The invariant\<close>

text \<open>The guard of a table is held by the request between locking and unlocking it; a request
  knows the mutex that the table has for its name; every mutex is the mutex of one table and
  one name; and it is owned by the request that has locked it and not yet released it. The
  arguments are the fields of the state, and the stage, name and mutexes of each request.\<close>

definition lock_inv ::
    "(table \<Rightarrow> nat option) \<Rightarrow> (table \<times> string \<Rightarrow> nat option) \<Rightarrow> nat \<Rightarrow> (nat \<Rightarrow> nat option)
      \<Rightarrow> (nat \<Rightarrow> table \<Rightarrow> stage) \<Rightarrow> (nat \<Rightarrow> string) \<Rightarrow> (nat \<Rightarrow> table \<Rightarrow> nat) \<Rightarrow> bool" where
  "lock_inv G E N W A nm ad \<longleftrightarrow>
     (\<forall>b t. G b = Some t \<longleftrightarrow> A t b \<in> {Guarded, Found})
   \<and> (\<forall>b t. A t b \<in> {Found, Waiting, Holding} \<longrightarrow> E (b, nm t) = Some (ad t b))
   \<and> (\<forall>k a. E k = Some a \<longrightarrow> a < N)
   \<and> (\<forall>k k' a. E k = Some a \<and> E k' = Some a \<longrightarrow> k = k')
   \<and> (\<forall>a t. W a = Some t \<longleftrightarrow> (\<exists>b. A t b = Holding \<and> ad t b = a))"

definition set_at :: "(nat \<Rightarrow> table \<Rightarrow> 'a) \<Rightarrow> nat \<Rightarrow> table \<Rightarrow> 'a \<Rightarrow> nat \<Rightarrow> table \<Rightarrow> 'a" where
  "set_at A t b x u c = (if u = t \<and> c = b then x else A u c)"

lemma lock_invD:
  assumes "lock_inv G E N W A nm ad"
  shows "G b = Some t \<longleftrightarrow> A t b = Guarded \<or> A t b = Found"
    and "A t b \<in> {Found, Waiting, Holding} \<Longrightarrow> E (b, nm t) = Some (ad t b)"
    and "E k = Some a \<Longrightarrow> a < N"
    and "E k = Some a \<Longrightarrow> E k' = Some a \<Longrightarrow> k = k'"
    and "W a = Some t \<longleftrightarrow> (\<exists>b. A t b = Holding \<and> ad t b = a)"
  using assms unfolding lock_inv_def by blast+

text \<open>No two holdings share a mutex.\<close>

lemma holding_unique:
  assumes "lock_inv G E N W A nm ad" and "A t b = Holding" and "A u c = Holding" and "ad t b = ad u c"
  shows "t = u \<and> b = c"
proof -
  note i = lock_invD [OF assms(1)]
  have "W (ad t b) = Some t" "W (ad t b) = Some u" using i(5) assms(2-4) by metis+
  then have "t = u" by simp
  moreover have "E (b, nm t) = Some (ad t b)" "E (c, nm u) = Some (ad u c)" using i(2) assms(2,3) by auto
  ultimately show ?thesis using i(4) assms(4) by (metis prod.inject)
qed

lemma lock_invI:
  assumes "\<And>b t. G b = Some t \<longleftrightarrow> A t b = Guarded \<or> A t b = Found"
    and "\<And>b t. A t b \<in> {Found, Waiting, Holding} \<Longrightarrow> E (b, nm t) = Some (ad t b)"
    and "\<And>k a. E k = Some a \<Longrightarrow> a < N"
    and "\<And>k k' a. E k = Some a \<Longrightarrow> E k' = Some a \<Longrightarrow> k = k'"
    and "\<And>t b. A t b = Holding \<Longrightarrow> W (ad t b) = Some t"
    and "\<And>a t. W a = Some t \<Longrightarrow> \<exists>b. A t b = Holding \<and> ad t b = a"
  shows "lock_inv G E N W A nm ad"
  unfolding lock_inv_def using assms by (intro conjI allI impI iffI) blast+

lemma holding_owns:
  "lock_inv G E N W A nm ad \<Longrightarrow> A t b = Holding \<Longrightarrow> W (ad t b) = Some t"
  by (auto simp: lock_inv_def)

lemma owned_kept:
  assumes "lock_inv G E N W A nm ad" and "A t b \<noteq> Holding" and "W x = Some u"
  shows "\<exists>c. set_at A t b y u c = Holding \<and> ad u c = x \<and> (u, c) \<noteq> (t, b)"
proof -
  from assms(1,3) obtain c where c: "A u c = Holding" "ad u c = x" using lock_invD(5) by blast
  then have n: "\<not> (u = t \<and> c = b)" using assms(2) by auto
  then have "set_at A t b y u c = A u c" unfolding set_at_def by (rule if_not_P)
  with c n show ?thesis by (intro exI [of _ c]) simp
qed

lemma inv_lock_guard:
  assumes i: "lock_inv G E N W A nm ad" and g: "G b = None" and a: "A t b = Before"
  shows "lock_inv (G(b := Some t)) E N W (set_at A t b Guarded) nm ad"
proof (rule lock_invI)
  have no: "A u b \<noteq> Guarded \<and> A u b \<noteq> Found" for u using lock_invD(1) [OF i, of b u] g by auto
  show "(G(b := Some t)) c = Some u \<longleftrightarrow> set_at A t b Guarded u c = Guarded \<or> set_at A t b Guarded u c = Found" for c u
    using lock_invD(1) [OF i] no by (auto simp: set_at_def)
  show "W x = Some u \<Longrightarrow> \<exists>c. set_at A t b Guarded u c = Holding \<and> ad u c = x" for x u
    using owned_kept [OF i, of t b] a by fastforce
qed (use lock_invD(2-4) [OF i] holding_owns [OF i] in \<open>auto simp: set_at_def split: if_splits\<close>)

lemma inv_unlock_guard:
  assumes i: "lock_inv G E N W A nm ad" and a: "A t b = Found"
  shows "lock_inv (G(b := None)) E N W (set_at A t b Waiting) nm ad"
proof (rule lock_invI)
  have g: "G b = Some t" using lock_invD(1) [OF i] a by blast
  then have no: "u \<noteq> t \<Longrightarrow> A u b \<noteq> Guarded \<and> A u b \<noteq> Found" for u using lock_invD(1) [OF i, of b u] by auto
  show "(G(b := None)) c = Some u \<longleftrightarrow> set_at A t b Waiting u c = Guarded \<or> set_at A t b Waiting u c = Found" for c u
    using lock_invD(1) [OF i] no by (auto simp: set_at_def)
  show "W x = Some u \<Longrightarrow> \<exists>c. set_at A t b Waiting u c = Holding \<and> ad u c = x" for x u
    using owned_kept [OF i, of t b] a by fastforce
  have "E (b, nm t) = Some (ad t b)" using lock_invD(2) [OF i] a by simp
  then show "set_at A t b Waiting u c \<in> {Found, Waiting, Holding} \<Longrightarrow> E (c, nm u) = Some (ad u c)" for c u
    using lock_invD(2) [OF i] by (auto simp: set_at_def split: if_splits)
qed (use lock_invD(3,4) [OF i] holding_owns [OF i] in \<open>auto simp: set_at_def split: if_splits\<close>)

lemma inv_find:
  assumes i: "lock_inv G E N W A nm ad" and a: "A t b = Guarded"
    and e: "\<And>k x. E k = Some x \<Longrightarrow> E' k = Some x" "E' (b, nm t) = Some y"
    and n: "\<And>k x. E' k = Some x \<Longrightarrow> x < N'" "\<And>k k' x. E' k = Some x \<Longrightarrow> E' k' = Some x \<Longrightarrow> k = k'"
  shows "lock_inv G E' N' W (set_at A t b Found) nm (set_at ad t b y)"
proof (rule lock_invI)
  show "G c = Some u \<longleftrightarrow> set_at A t b Found u c = Guarded \<or> set_at A t b Found u c = Found" for c u
    using lock_invD(1) [OF i] a by (auto simp: set_at_def)
  show "set_at A t b Found u c \<in> {Found, Waiting, Holding} \<Longrightarrow> E' (c, nm u) = Some (set_at ad t b y u c)" for c u
    using lock_invD(2) [OF i] e by (auto simp: set_at_def split: if_splits)
  show "set_at A t b Found u c = Holding \<Longrightarrow> W (set_at ad t b y u c) = Some u" for u c
    using holding_owns [OF i] by (auto simp: set_at_def split: if_splits)
  show "W x = Some u \<Longrightarrow> \<exists>c. set_at A t b Found u c = Holding \<and> set_at ad t b y u c = x" for x u
    using owned_kept [OF i, of t b x u Found] a by (auto simp: set_at_def)
qed (use n in blast)+

lemma inv_found:
  assumes "lock_inv G E N W A nm ad" and "A t b = Guarded" and "E (b, nm t) = Some y"
  shows "lock_inv G E N W (set_at A t b Found) nm (set_at ad t b y)"
  by (rule inv_find [OF assms(1,2)]) (use assms(3) lock_invD(3,4) [OF assms(1)] in auto)

lemma inv_new:
  assumes "lock_inv G E N W A nm ad" and "A t b = Guarded" and "E (b, nm t) = None"
  shows "lock_inv G (E((b, nm t) := Some N)) (Suc N) W (set_at A t b Found) nm (set_at ad t b N)"
proof (rule inv_find [OF assms(1,2)])
  note n = lock_invD(3,4) [OF assms(1)]
  show "(E((b, nm t) := Some N)) k = Some x \<Longrightarrow> x < Suc N" for k x
    using n(1) [of k x] by (auto split: if_splits)
  show "(E((b, nm t) := Some N)) k = Some x \<Longrightarrow> (E((b, nm t) := Some N)) k' = Some x \<Longrightarrow> k = k'" for k k' x
    using n(1) [of k x] n(1) [of k' x] n(2) [of k x k'] by (auto split: if_splits)
qed (use assms(3) in auto)

lemma inv_lock_mutex:
  assumes i: "lock_inv G E N W A nm ad" and w: "W (ad t b) = None" and a: "A t b = Waiting"
  shows "lock_inv G E N (W(ad t b := Some t)) (set_at A t b Holding) nm ad"
proof (rule lock_invI)
  show "G c = Some u \<longleftrightarrow> set_at A t b Holding u c = Guarded \<or> set_at A t b Holding u c = Found" for c u
    using lock_invD(1) [OF i] a by (auto simp: set_at_def)
  show "set_at A t b Holding u c \<in> {Found, Waiting, Holding} \<Longrightarrow> E (c, nm u) = Some (ad u c)" for c u
    using lock_invD(2) [OF i] a by (auto simp: set_at_def split: if_splits)
  show "set_at A t b Holding u c = Holding \<Longrightarrow> (W(ad t b := Some t)) (ad u c) = Some u" for u c
    using holding_owns [OF i, of u c] w by (cases "u = t \<and> c = b") (auto simp: set_at_def)
  show "\<exists>c. set_at A t b Holding u c = Holding \<and> ad u c = x" if "(W(ad t b := Some t)) x = Some u" for x u
  proof (cases "x = ad t b")
    case True
    with that show ?thesis by (intro exI [of _ b]) (simp add: set_at_def)
  next
    case False
    with that have "W x = Some u" by simp
    moreover have "A t b \<noteq> Holding" using a by simp
    ultimately show ?thesis using owned_kept [OF i, of t b x u Holding] by blast
  qed
qed (use lock_invD(3,4) [OF i] in blast)+

lemma inv_unlock:
  assumes i: "lock_inv G E N W A nm ad" and a: "A t b = Holding"
  shows "lock_inv G E N (W(ad t b := None)) (set_at A t b Released) nm ad"
proof (rule lock_invI)
  show "G c = Some u \<longleftrightarrow> set_at A t b Released u c = Guarded \<or> set_at A t b Released u c = Found" for c u
    using lock_invD(1) [OF i] a by (auto simp: set_at_def)
  show "set_at A t b Released u c \<in> {Found, Waiting, Holding} \<Longrightarrow> E (c, nm u) = Some (ad u c)" for c u
    using lock_invD(2) [OF i] by (auto simp: set_at_def split: if_splits)
  show "set_at A t b Released u c = Holding \<Longrightarrow> (W(ad t b := None)) (ad u c) = Some u" for u c
    using holding_owns [OF i, of u c] holding_unique [OF i a, of u c] by (cases "u = t \<and> c = b") (auto simp: set_at_def)
  show "(W(ad t b := None)) x = Some u \<Longrightarrow> \<exists>c. set_at A t b Released u c = Holding \<and> ad u c = x" for x u
    using lock_invD(5) [OF i, of x u] by (auto simp: set_at_def split: if_splits)
qed (use lock_invD(3,4) [OF i] in blast)+

definition at :: "sys \<Rightarrow> nat \<Rightarrow> table \<Rightarrow> stage" where
  "at s t b = (if t < length (reqs s) then stage b (todo (reqs s ! t)) else Released)"

definition name_of :: "sys \<Rightarrow> nat \<Rightarrow> string" where
  "name_of s t = on_name (reqs s ! t)"

definition addr_of :: "sys \<Rightarrow> nat \<Rightarrow> table \<Rightarrow> nat" where
  "addr_of s t b = mutex (reqs s ! t) b"

definition locked_ok :: "sys \<Rightarrow> bool" where
  "locked_ok s \<longleftrightarrow> list_all (\<lambda>r. valid (todo r)) (reqs s)
     \<and> lock_inv (guard s) (entries s) (next_addr s) (owner s) (at s) (name_of s) (addr_of s)"

lemma locked_ok_start: "locked_ok (start rs)"
proof -
  have p: "stage b (program opn n) \<in> {Before, Released}" for b opn n
    by (cases opn; cases b) (auto simp: stage_def acquire_def)
  have a: "at (start rs) t b \<in> {Before, Released}" for t b
  proof (cases "t < length rs")
    case True
    then show ?thesis using p by (auto simp: at_def start_def split: prod.splits)
  qed (simp add: at_def start_def)
  have "lock_inv (guard (start rs)) (entries (start rs)) (next_addr (start rs)) (owner (start rs)) (at (start rs))
      (name_of (start rs)) (addr_of (start rs))"
  proof (rule lock_invI)
    show "guard (start rs) b = Some t \<longleftrightarrow> at (start rs) t b = Guarded \<or> at (start rs) t b = Found" for b t
      using a [of t b] by (auto simp: start_def)
    show "at (start rs) t b \<in> {Found, Waiting, Holding} \<Longrightarrow>
        entries (start rs) (b, name_of (start rs) t) = Some (addr_of (start rs) t b)" for t b
      using a [of t b] by auto
    show "at (start rs) t b = Holding \<Longrightarrow> owner (start rs) (addr_of (start rs) t b) = Some t" for t b
      using a [of t b] by auto
  qed (simp_all add: start_def)
  then show ?thesis
    by (auto simp: locked_ok_def start_def program_valid list_all_iff)
qed

lemma run_next_split:
  assumes "run_next t s = Some s'"
  obtains i rest r s1 where "t < length (reqs s)" "todo (reqs s ! t) = i # rest"
    "perform t (reqs s ! t) i s = Some (r, s1)" "s' = s1\<lparr>reqs := (reqs s1)[t := r\<lparr>todo := rest\<rparr>]\<rparr>"
  using assms by (auto simp: run_next_def split: if_splits list.splits)

lemma perform_keeps:
  "perform t r i s = Some (r', s1) \<Longrightarrow> reqs s1 = reqs s \<and> on_name r' = on_name r"
  by (cases i) (auto split: if_splits option.splits)

text \<open>The stages, names and mutexes after a step.\<close>

lemma after_step:
  assumes "locked_ok s" and "run_next t s = Some s'"
  obtains i rest r s1 where "perform t (reqs s ! t) i s = Some (r, s1)"
    "guard s' = guard s1" "entries s' = entries s1" "next_addr s' = next_addr s1" "owner s' = owner s1"
    "acts s' = acts s1" "name_of s' = name_of s" "length (reqs s') = length (reqs s)"
    "todo (reqs s ! t) = i # rest" "valid (i # rest)" "t < length (reqs s)"
    "\<And>u. at s' u = (if u = t then (\<lambda>b. stage b rest) else at s u)"
    "\<And>u. addr_of s' u = (if u = t then mutex r else addr_of s u)"
    "\<And>u. todo (reqs s' ! u) = (if u = t then rest else todo (reqs s ! u))"
    "list_all (\<lambda>r. valid (todo r)) (reqs s')"
proof -
  from assms(2) obtain i rest r s1 where t: "t < length (reqs s)" and i: "todo (reqs s ! t) = i # rest"
    and p: "perform t (reqs s ! t) i s = Some (r, s1)" and s': "s' = s1\<lparr>reqs := (reqs s1)[t := r\<lparr>todo := rest\<rparr>]\<rparr>"
    by (rule run_next_split)
  have k: "reqs s1 = reqs s" "on_name r = on_name (reqs s ! t)" using perform_keeps [OF p] by simp_all
  have v: "list_all (\<lambda>r. valid (todo r)) (reqs s)" using assms(1) by (simp add: locked_ok_def)
  then have vi: "valid (i # rest)" using t i by (metis list_all_length)
  have "list_all (\<lambda>r. valid (todo r)) (reqs s')"
    using v valid_tl [OF vi] t by (simp add: s' k list_all_length nth_list_update)
  then show thesis
    by (intro that [OF p]) (auto simp: s' k i vi t at_def addr_of_def name_of_def nth_list_update fun_eq_iff)
qed

fun table_of :: "instr \<Rightarrow> table option" where
  "table_of (LockGuard b) = Some b"
| "table_of (Find b) = Some b"
| "table_of (UnlockGuard b) = Some b"
| "table_of (LockMutex b) = Some b"
| "table_of Act = None"
| "table_of (Unlock b) = Some b"

lemma stage_elsewhere: "table_of i \<noteq> Some b \<Longrightarrow> stage b (i # is) = stage b is"
  by (rule stage_other) auto

lemma set_at_id: "set_at A t b (A t b) = A"
  by (auto simp: set_at_def fun_eq_iff)

lemma locked_ok_step:
  assumes ok: "locked_ok s" and run: "run_next t s = Some s'"
  shows "locked_ok s'"
proof -
  obtain i rest r s1 where p: "perform t (reqs s ! t) i s = Some (r, s1)"
    and f: "guard s' = guard s1" "entries s' = entries s1" "next_addr s' = next_addr s1" "owner s' = owner s1"
      "acts s' = acts s1" "name_of s' = name_of s" "length (reqs s') = length (reqs s)"
    and i: "todo (reqs s ! t) = i # rest" "valid (i # rest)" "t < length (reqs s)"
    and at: "\<And>u. at s' u = (if u = t then (\<lambda>b. stage b rest) else at s u)"
    and ad: "\<And>u. addr_of s' u = (if u = t then mutex r else addr_of s u)"
    and td: "\<And>u. todo (reqs s' ! u) = (if u = t then rest else todo (reqs s ! u))"
    and v: "list_all (\<lambda>r. valid (todo r)) (reqs s')"
    by (rule after_step [OF assms], rule that)
  have inv: "lock_inv (guard s) (entries s) (next_addr s) (owner s) (at s) (name_of s) (addr_of s)"
    using ok by (simp add: locked_ok_def)
  note m = valid_moves [OF i(2), unfolded moves_def]
  have now: "at s t b = stage b (i # rest)" for b using i(1,3) by (simp add: at_def)
  have at': "at s' = set_at (at s) t b (stage b rest)" if "table_of i = Some b" for b
    using that stage_elsewhere [of i _ rest] by (auto simp: at set_at_def fun_eq_iff now)
  have ad': "addr_of s' = addr_of s" if "mutex r = mutex (reqs s ! t)"
    using that by (auto simp: ad addr_of_def fun_eq_iff)
  have ad'': "addr_of s' = set_at (addr_of s) t b a" if "mutex r = (mutex (reqs s ! t))(b := a)" for b a
    using that by (auto simp: ad addr_of_def set_at_def fun_eq_iff)
  have nm: "name_of s t = on_name (reqs s ! t)" "addr_of s t = mutex (reqs s ! t)"
    by (simp_all add: name_of_def addr_of_def fun_eq_iff)
  have "lock_inv (guard s') (entries s') (next_addr s') (owner s') (at s') (name_of s') (addr_of s')"
  proof (cases i)
    case (LockGuard b)
    with p m now show ?thesis
      using inv_lock_guard [OF inv, of b t] at' [of b] ad' by (auto simp: f split: if_splits)
  next
    case (Find b)
    with p m now show ?thesis
      using inv_found [OF inv, of t b] inv_new [OF inv, of t b] at' [of b] ad'' by (auto simp: f nm split: option.splits)
  next
    case (UnlockGuard b)
    then have st: "at s t b = Found" "stage b rest = Waiting" using m now by simp_all
    from UnlockGuard p have r: "r = reqs s ! t" "s1 = s\<lparr>guard := (guard s)(b := None)\<rparr>" by auto
    have "at s' = set_at (at s) t b Waiting" using at' [of b] st(2) by (simp add: UnlockGuard)
    with inv_unlock_guard [OF inv st(1)] ad' r show ?thesis by (simp add: f)
  next
    case (LockMutex b)
    then have st: "at s t b = Waiting" "stage b rest = Holding" using m now by simp_all
    from LockMutex p have r: "r = reqs s ! t" "owner s (addr_of s t b) = None"
      "s1 = s\<lparr>owner := (owner s)(addr_of s t b := Some t)\<rparr>" by (auto simp: nm split: if_splits)
    have "at s' = set_at (at s) t b Holding" using at' [of b] st(2) by (simp add: LockMutex)
    with inv_lock_mutex [OF inv r(2) st(1)] ad' r(1,3) show ?thesis by (simp add: f)
  next
    case Act
    then have "at s' = at s" using stage_elsewhere [of i _ rest] by (auto simp: at fun_eq_iff now)
    with p Act inv ad' show ?thesis by (auto simp: f)
  next
    case (Unlock b)
    then have st: "at s t b = Holding" "stage b rest = Released" using m now by simp_all
    from Unlock p have r: "r = reqs s ! t" "s1 = s\<lparr>owner := (owner s)(addr_of s t b := None)\<rparr>"
      by (auto simp: nm)
    have "at s' = set_at (at s) t b Released" using at' [of b] st(2) by (simp add: Unlock)
    with inv_unlock [OF inv st(1)] ad' r show ?thesis by (simp add: f)
  qed
  with v show ?thesis by (simp add: locked_ok_def)
qed

lemma reachable_locked_ok: "step\<^sup>*\<^sup>* (start rs) s \<Longrightarrow> locked_ok s"
  by (induction rule: rtranclp_induct) (auto simp: locked_ok_start step_iff intro: locked_ok_step)

section \<open>Mutual exclusion\<close>

lemma holding_exclusive:
  assumes "locked_ok s" and "at s t b = Holding" and "at s u b = Holding" and "name_of s t = name_of s u"
  shows "t = u"
proof -
  have inv: "lock_inv (guard s) (entries s) (next_addr s) (owner s) (at s) (name_of s) (addr_of s)"
    using assms(1) by (simp add: locked_ok_def)
  have "entries s (b, name_of s t) = Some (addr_of s t b)" "entries s (b, name_of s u) = Some (addr_of s u b)"
    using lock_invD(2) [OF inv] assms(2,3) by auto
  then have "addr_of s t b = addr_of s u b" using assms(4) by simp
  with holding_unique [OF inv assms(2,3)] show ?thesis by simp
qed

section \<open>Serialisation\<close>

lemma remdups_adj_snoc:
  "remdups_adj (xs @ [x]) = (if xs \<noteq> [] \<and> last xs = x then remdups_adj xs else remdups_adj xs @ [x])"
  by (induction xs rule: remdups_adj.induct) auto

text \<open>The actions on the project \<open>n\<close>, by the requests that made them.\<close>

definition acts_on :: "sys \<Rightarrow> string \<Rightarrow> nat list" where
  "acts_on s n = filter (\<lambda>u. name_of s u = n) (acts s)"

text \<open>Each request's actions on a project are in one piece, and the last of them are those of the
  request that may act now.\<close>

definition serial :: "sys \<Rightarrow> bool" where
  "serial s \<longleftrightarrow>
     (\<forall>t \<in> set (acts s). at s t Inflight \<in> {Holding, Released})
   \<and> (\<forall>n. distinct (remdups_adj (acts_on s n)))
   \<and> (\<forall>t \<in> set (acts s). at s t Inflight = Holding \<longrightarrow> last (acts_on s (name_of s t)) = t)"

lemma serial_start: "serial (start rs)"
  by (simp add: serial_def start_def acts_on_def)

lemma acts_on_set: "t \<in> set (acts_on s n) \<longleftrightarrow> t \<in> set (acts s) \<and> name_of s t = n"
  by (auto simp: acts_on_def)

lemma serial_step:
  assumes ok: "locked_ok s" and ser: "serial s" and run: "run_next t s = Some s'"
  shows "serial s'"
proof -
  obtain i rest r s1 where p: "perform t (reqs s ! t) i s = Some (r, s1)"
    and f: "guard s' = guard s1" "entries s' = entries s1" "next_addr s' = next_addr s1" "owner s' = owner s1"
      "acts s' = acts s1" "name_of s' = name_of s" "length (reqs s') = length (reqs s)"
    and i: "todo (reqs s ! t) = i # rest" "valid (i # rest)" "t < length (reqs s)"
    and at: "\<And>u. at s' u = (if u = t then (\<lambda>b. stage b rest) else at s u)"
    and ad: "\<And>u. addr_of s' u = (if u = t then mutex r else addr_of s u)"
    and td: "\<And>u. todo (reqs s' ! u) = (if u = t then rest else todo (reqs s ! u))"
    and v: "list_all (\<lambda>r. valid (todo r)) (reqs s')"
    by (rule after_step [OF ok run], rule that)
  note m = valid_moves [OF i(2), unfolded moves_def]
  have now: "at s t b = stage b (i # rest)" for b using i(1,3) by (simp add: at_def)
  show ?thesis
  proof (cases "i = Act")
    case True
    then have h: "at s t Inflight = Holding" and at': "at s' u Inflight = at s u Inflight" for u
      using m now at by auto
    from True p f(5) have acts: "acts s' = acts s @ [t]" by auto
    have ao: "acts_on s' n = acts_on s n @ (if name_of s t = n then [t] else [])" for n
      by (simp add: acts_on_def acts f(6))
    have mine: "last (acts_on s (name_of s t)) = t" if "t \<in> set (acts s)"
      using ser h that by (simp add: serial_def)
    have d: "distinct (remdups_adj (acts_on s n))" for n using ser by (simp add: serial_def)
    have "distinct (remdups_adj (acts_on s' n))" for n
      using d [of n] mine acts_on_set [of t s n] by (auto simp: ao remdups_adj_snoc)
    moreover have "last (acts_on s' (name_of s' u)) = u"
      if "u \<in> set (acts s')" "at s' u Inflight = Holding" for u
    proof (cases "name_of s u = name_of s t")
      case True
      with that h at' have "u = t" using holding_exclusive [OF ok] by metis
      then show ?thesis by (simp add: ao f(6))
    next
      case False
      with that at' have "u \<in> set (acts s)" "at s u Inflight = Holding" by (auto simp: acts)
      with ser have "last (acts_on s (name_of s u)) = u" by (simp add: serial_def)
      with False show ?thesis by (simp add: ao f(6))
    qed
    ultimately show ?thesis using ser h by (auto simp: serial_def acts at')
  next
    case False
    then have acts: "acts s' = acts s" using p f(5) by (cases i) (auto split: if_splits option.splits)
    then have ao: "acts_on s' = acts_on s" by (simp add: acts_on_def f(6) fun_eq_iff)
    have "at s' u Inflight = at s u Inflight \<or> at s' u Inflight = Released" if "u \<in> set (acts s)" for u
    proof (cases "u = t \<and> table_of i = Some Inflight")
      case True
      with ser that have "stage Inflight (i # rest) \<in> {Holding, Released}" by (auto simp: serial_def now)
      with True m show ?thesis by (cases i) (auto simp: at)
    next
      case False
      then show ?thesis using stage_elsewhere [of i Inflight rest] now [of Inflight] by (auto simp: at)
    qed
    then show ?thesis using ser by (fastforce simp: serial_def acts ao f(6))
  qed
qed

lemma reachable_serial: "step\<^sup>*\<^sup>* (start rs) s \<Longrightarrow> serial s"
proof (induction rule: rtranclp_induct)
  case (step y z)
  from step(2) [unfolded step_iff] step(1,3) show ?case by (blast intro: serial_step reachable_locked_ok)
qed (rule serial_start)

text \<open>C22: however the requests are scheduled, the actions of two operations on the same project
  never interleave: on every project, each request's actions are in one piece.\<close>

theorem operations_are_serialized:
  assumes "step\<^sup>*\<^sup>* (start rs) s"
  shows "distinct (remdups_adj (filter (\<lambda>t. on_name (reqs s ! t) = n) (acts s)))"
  using reachable_serial [OF assms] by (simp add: serial_def acts_on_def name_of_def)

fun run_schedule :: "nat list \<Rightarrow> sys \<Rightarrow> sys option" where
  "run_schedule [] s = Some s"
| "run_schedule (t # ts) s = (case run_next t s of None \<Rightarrow> None | Some s' \<Rightarrow> run_schedule ts s')"

lemma run_schedule_steps: "run_schedule ts s = Some s' \<Longrightarrow> step\<^sup>*\<^sup>* s s'"
proof (induction ts arbitrary: s)
  case (Cons t ts)
  then show ?case
    by (auto split: option.splits intro: converse_rtranclp_into_rtranclp step.intros)
qed simp

text \<open>Two rotations of one project and one of another: the second one of the project has to wait
  for its mutex until the first is done, the other project goes on meanwhile.\<close>

definition demo_requests :: "(opr \<times> string \<times> nat) list" where
  "demo_requests = [(OpRotate, ''a'', 2), (OpRotate, ''a'', 1), (OpRotate, ''b'', 1)]"

definition demo_schedule :: "nat list" where
  "demo_schedule = [0, 0, 0, 1, 0, 1, 1, 0, 2, 2, 2, 2, 2, 0, 0, 1, 1]"

lemma demo_schedule_runs:
  "\<exists>s. run_schedule demo_schedule (start demo_requests) = Some s \<and> acts s = [0, 2, 0, 1]
    \<and> map on_name (reqs s) = [''a'', ''a'', ''b'']"
  by (simp add: demo_schedule_def demo_requests_def start_def run_next_def acquire_def numeral_eq_Suc)

theorem operations_are_serialized_witness:
  "\<exists>s. step\<^sup>*\<^sup>* (start demo_requests) s \<and> acts s = [0, 2, 0, 1]
    \<and> distinct (remdups_adj (filter (\<lambda>t. on_name (reqs s ! t) = ''a'') (acts s)))"
proof -
  obtain s where r: "run_schedule demo_schedule (start demo_requests) = Some s" "acts s = [0, 2, 0, 1]"
    using demo_schedule_runs by blast
  have st: "step\<^sup>*\<^sup>* (start demo_requests) s" by (rule run_schedule_steps [OF r(1)])
  from operations_are_serialized [OF st, of "''a''"] st r(2) show ?thesis by blast
qed

section \<open>Progress\<close>

definition head_ok :: "table \<Rightarrow> instr \<Rightarrow> instr list \<Rightarrow> bool" where
  "head_ok b i is \<longleftrightarrow>
     (case stage b (i # is) of
        Guarded \<Rightarrow> i = Find b
      | Found \<Rightarrow> i = UnlockGuard b
      | Holding \<Rightarrow> (if b = Inflight then i \<in> {Act, Unlock Inflight} else i \<noteq> LockMutex Creating)
      | _ \<Rightarrow> True)"

lemma valid_head_ok:
  assumes "valid (i # is)"
  shows "head_ok Creating i is" and "head_ok Inflight i is"
proof -
  have "head_ok Creating i is \<and> head_ok Inflight i is"
    using assms
  proof cases
    case (3 c n)
    from finale_Cons [OF 3 [symmetric]] consider m where "i = Act" "is = finale c m"
      | "i = Unlock Inflight" "is = (if c then [Unlock Creating] else [])" by blast
    then show ?thesis
      by cases (cases c; simp add: head_ok_def stage_def set_finale)+
  qed (simp_all add: head_ok_def stage_def set_finale acquire_def)
  then show "head_ok Creating i is" "head_ok Inflight i is" by simp_all
qed

lemma valid_head:
  assumes "valid (i # is)"
  shows "stage b (i # is) = Guarded \<Longrightarrow> i = Find b" and "stage b (i # is) = Found \<Longrightarrow> i = UnlockGuard b"
    and "stage Inflight (i # is) = Holding \<Longrightarrow> i = Act \<or> i = Unlock Inflight"
    and "stage Creating (i # is) = Holding \<Longrightarrow> i \<noteq> LockMutex Creating"
proof -
  have h: "head_ok b i is" using valid_head_ok [OF assms] by (cases b) simp_all
  then show "stage b (i # is) = Guarded \<Longrightarrow> i = Find b" "stage b (i # is) = Found \<Longrightarrow> i = UnlockGuard b"
    unfolding head_ok_def by simp_all
  show "stage Inflight (i # is) = Holding \<Longrightarrow> i = Act \<or> i = Unlock Inflight"
    "stage Creating (i # is) = Holding \<Longrightarrow> i \<noteq> LockMutex Creating"
    using valid_head_ok [OF assms] unfolding head_ok_def by simp_all
qed

lemma stage_Nil [simp]: "stage b [] = Released"
  by (simp add: stage_def)

lemma blocked_instr:
  "perform t r i s = None \<Longrightarrow> (\<exists>b. i = LockGuard b \<and> guard s b \<noteq> None) \<or> (\<exists>b. i = LockMutex b \<and> owner s (mutex r b) \<noteq> None)"
  by (cases i) (auto split: if_splits option.splits)

lemma stuck_done:
  assumes ok: "locked_ok s" and stuck: "\<nexists>s'. step s s'"
  shows "\<forall>r \<in> set (reqs s). todo r = []"
proof -
  have inv: "lock_inv (guard s) (entries s) (next_addr s) (owner s) (at s) (name_of s) (addr_of s)"
    using ok by (simp add: locked_ok_def)
  have none: "perform t (reqs s ! t) i s = None" if "t < length (reqs s)" "todo (reqs s ! t) = i # rest" for t i rest
  proof (rule ccontr)
    assume "perform t (reqs s ! t) i s \<noteq> None"
    with that have "\<exists>s'. run_next t s = Some s'" by (auto simp: run_next_def)
    with stuck show False by (auto intro: step.intros)
  qed
  have head: "\<exists>i rest. t < length (reqs s) \<and> todo (reqs s ! t) = i # rest \<and> valid (i # rest) \<and> at s t b = stage b (i # rest)"
    if "at s t b \<noteq> Released" for t b
  proof -
    from that have t: "t < length (reqs s)" by (auto simp: at_def split: if_splits)
    with that obtain i rest where i: "todo (reqs s ! t) = i # rest"
      by (cases "todo (reqs s ! t)") (auto simp: at_def)
    moreover have "valid (i # rest)" using ok t i by (metis list_all_length locked_ok_def)
    ultimately show ?thesis using t by (simp add: at_def)
  qed
  have guards: "guard s b = None" for b
  proof (rule ccontr)
    assume "guard s b \<noteq> None"
    then obtain t where "at s t b = Guarded \<or> at s t b = Found" using lock_invD(1) [OF inv] by blast
    then obtain i rest where "t < length (reqs s)" "todo (reqs s ! t) = i # rest" "i = Find b \<or> i = UnlockGuard b"
      using head [of t b] valid_head(1,2) by fastforce
    with none [of t i rest] show False by (auto split: option.splits)
  qed
  have inflight: "at s t Inflight \<noteq> Holding" for t
  proof
    assume h: "at s t Inflight = Holding"
    then obtain i rest where "t < length (reqs s)" "todo (reqs s ! t) = i # rest" "i = Act \<or> i = Unlock Inflight"
      using head [of t Inflight] valid_head(3) by fastforce
    with none [of t i rest] show False by auto
  qed
  have waits: "\<exists>b u. i = LockMutex b \<and> at s u b = Holding"
    if "t < length (reqs s)" "todo (reqs s ! t) = i # rest" for t i rest
  proof -
    from blocked_instr [OF none [OF that]] guards obtain b u
      where b: "i = LockMutex b" "owner s (addr_of s t b) = Some u" by (auto simp: addr_of_def)
    then obtain c where c: "at s u c = Holding" "addr_of s u c = addr_of s t b" using lock_invD(5) [OF inv] by blast
    have "valid (i # rest)" using ok that by (metis list_all_length locked_ok_def)
    from valid_moves [OF this] b have "at s t b = Waiting" using that by (simp add: moves_def at_def)
    then have "entries s (b, name_of s t) = Some (addr_of s t b)" "entries s (c, name_of s u) = Some (addr_of s t b)"
      using lock_invD(2) [OF inv] c by auto
    then have "b = c" using lock_invD(4) [OF inv] by (metis prod.inject)
    with b c show ?thesis by blast
  qed
  show ?thesis
  proof (rule ccontr)
    assume "\<not> ?thesis"
    then obtain t i rest where "t < length (reqs s)" "todo (reqs s ! t) = i # rest"
      by (metis in_set_conv_nth neq_Nil_conv)
    from waits [OF this] inflight obtain u where u: "at s u Creating = Holding"
      by (metis table.exhaust)
    then obtain j rest' where j: "u < length (reqs s)" "todo (reqs s ! u) = j # rest'" "valid (j # rest')"
      "stage Creating (j # rest') = Holding" using head [of u Creating] by fastforce
    from waits [OF j(1,2)] inflight valid_head(4) [OF j(3,4)] show False by (metis table.exhaust)
  qed
qed

definition pending :: "sys \<Rightarrow> nat" where
  "pending s = sum_list (map (\<lambda>r. length (todo r)) (reqs s))"

lemma pending_step:
  assumes "run_next t s = Some s'"
  shows "pending s = Suc (pending s')"
proof -
  from assms obtain i rest r s1 where t: "t < length (reqs s)" "todo (reqs s ! t) = i # rest"
    "perform t (reqs s ! t) i s = Some (r, s1)" "s' = s1\<lparr>reqs := (reqs s1)[t := r\<lparr>todo := rest\<rparr>]\<rparr>"
    by (rule run_next_split)
  have k: "reqs s1 = reqs s" using perform_keeps [OF t(3)] by simp
  have s: "reqs s = take t (reqs s) @ reqs s ! t # drop (Suc t) (reqs s)" using t(1) by (rule id_take_nth_drop)
  have s': "reqs s' = take t (reqs s) @ r\<lparr>todo := rest\<rparr> # drop (Suc t) (reqs s)"
    using t(1) by (simp add: t(4) k upd_conv_take_nth_drop)
  have "pending s = sum_list (map (\<lambda>r. length (todo r)) (take t (reqs s) @ reqs s ! t # drop (Suc t) (reqs s)))"
    unfolding pending_def using s by simp
  then show ?thesis by (simp add: pending_def s' t(2))
qed

lemma pending_steps: "(step ^^ k) s s' \<Longrightarrow> pending s = k + pending s'"
proof (induction k arbitrary: s')
  case (Suc k)
  then obtain y where "(step ^^ k) s y" "step y s'" by auto
  from this(2) [unfolded step_iff] pending_step Suc.IH [OF this(1)] show ?case by fastforce
qed simp

lemma pending_0: "pending s = 0 \<longleftrightarrow> (\<forall>r \<in> set (reqs s). todo r = [])"
  by (auto simp: pending_def)

text \<open>C23: no schedule gets stuck and none goes on for ever: after \<open>k\<close> steps of any schedule exactly
  the other instructions are left, there is always a request that can go on while one is
  left, and the schedule ends, with every request completed, after as many steps as the
  programs have instructions.\<close>

theorem every_schedule_completes:
  assumes "(step ^^ k) (start rs) s"
  shows "k + sum_list (map (\<lambda>r. length (todo r)) (reqs s))
      = sum_list (map (\<lambda>(opn, name, n). length (program opn n)) rs)
    \<and> ((\<nexists>s'. step s s') \<longleftrightarrow> (\<forall>r \<in> set (reqs s). todo r = []))"
proof -
  have "pending (start rs) = sum_list (map (\<lambda>(opn, name, n). length (program opn n)) rs)"
    by (simp add: pending_def start_def comp_def case_prod_unfold)
  then have "k + pending s = sum_list (map (\<lambda>(opn, name, n). length (program opn n)) rs)"
    using pending_steps [OF assms] by simp
  moreover have "locked_ok s" using assms by (intro reachable_locked_ok) (rule relpowp_imp_rtranclp)
  then have "(\<nexists>s'. step s s') \<Longrightarrow> (\<forall>r \<in> set (reqs s). todo r = [])" by (rule stuck_done)
  moreover have "\<nexists>s'. step s s'" if "\<forall>r \<in> set (reqs s). todo r = []"
    using that pending_step by (metis pending_0 step_iff nat.distinct(1))
  ultimately show ?thesis unfolding pending_def by blast
qed

lemma run_schedule_relpow: "run_schedule ts s = Some s' \<Longrightarrow> (step ^^ length ts) s s'"
proof (induction ts arbitrary: s)
  case (Cons t ts)
  then show ?case
    by (auto split: option.splits simp del: relpowp.simps intro: relpowp_Suc_I2 step.intros)
qed simp

theorem every_schedule_completes_witness:
  "\<exists>s. (step ^^ 17) (start demo_requests) s \<and> sum_list (map (\<lambda>r. length (todo r)) (reqs s)) = 2
    \<and> (\<exists>s'. step s s')"
proof -
  obtain s where r: "run_schedule demo_schedule (start demo_requests) = Some s"
    using demo_schedule_runs by blast
  have "(step ^^ length demo_schedule) (start demo_requests) s" by (rule run_schedule_relpow [OF r])
  moreover have "length demo_schedule = 17" by (simp add: demo_schedule_def)
  ultimately have st: "(step ^^ 17) (start demo_requests) s" by (simp only:)
  have t: "sum_list (map (\<lambda>(opn, name, n). length (program opn n)) demo_requests) = 19"
    by (simp add: demo_requests_def acquire_def)
  from every_schedule_completes [OF st] t have two: "sum_list (map (\<lambda>r. length (todo r)) (reqs s)) = 2" by simp
  then have "\<not> (\<forall>r \<in> set (reqs s). todo r = [])" using pending_0 [of s] by (simp add: pending_def)
  with every_schedule_completes [OF st] two st show ?thesis by blast
qed

text \<open>The locks are kept by project name, but the MySQL database and account go by the folded
  name: operations on two projects that share their database and account do interleave.\<close>

theorem shared_database_not_locked:
  "ProjectIdentifiers ''a-b'' = ProjectIdentifiers ''a_b''
   \<and> (\<exists>s. step\<^sup>*\<^sup>* (start [(OpRotate, ''a-b'', 2), (OpCreate, ''a_b'', 1)]) s \<and> acts s = [0, 1, 0])"
proof
  show "ProjectIdentifiers ''a-b'' = ProjectIdentifiers ''a_b''"
    by (simp add: ProjectIdentifiers_def ReplaceByte_def)
  have "\<exists>s. run_schedule [0, 0, 0, 0, 0, 1, 1, 1, 1, 1, 1, 1, 1, 1, 0]
      (start [(OpRotate, ''a-b'', 2), (OpCreate, ''a_b'', 1)]) = Some s \<and> acts s = [0, 1, 0]"
    by (simp add: start_def run_next_def acquire_def numeral_eq_Suc)
  then show "\<exists>s. step\<^sup>*\<^sup>* (start [(OpRotate, ''a-b'', 2), (OpCreate, ''a_b'', 1)]) s \<and> acts s = [0, 1, 0]"
    using run_schedule_steps by blast
qed

end
