(* ===== verification/Transport.thy ===== *)
theory Transport
  imports Api
begin

text \<open>
  Between the clients and the server: the bytes of a response (\<open>writeJSON\<close>, \<open>writeError\<close>), the
  requests the clients hand to \<open>net/http\<close>, and the contract of the delivery: a request for a
  plain path reaches \<open>Routes\<close>, and the bytes it answers come back.
\<close>

section \<open>The bytes of a response\<close>

text \<open>\<open>json.Encoder.Encode\<close> ends a value with a line feed.\<close>

definition Encode :: "json \<Rightarrow> string" where
  "Encode v = Marshal v @ [CHR 0x0A]"

definition view_json :: "ProjectView \<Rightarrow> json" where
  "view_json v =
     JObj ([(''name'', JStr (vwName v)), (''database'', JStr (vwDatabase v)), (''user'', JStr (vwUser v)),
            (''secret_path'', JStr (vwSecretPath v)), (''status'', JStr (vwStatus v))]
       @ (if vwLastError v = [] then [] else [(''last_error'', JStr (vwLastError v))])
       @ [(''created_at'', JStr (vwCreatedAt v)), (''updated_at'', JStr (vwUpdatedAt v))])"

definition error_json :: "string \<Rightarrow> string \<Rightarrow> json" where
  "error_json ec msg = JObj [(''error'', JObj [(''code'', JStr ec), (''message'', JStr msg)])]"

text \<open>\<open>http.Error\<close>, which the mux uses, ends its text with a line feed too.\<close>

fun payload_bytes :: "payload \<Rightarrow> string" where
  "payload_bytes PHealth = Encode (JObj [(''status'', JStr ''ok'')])"
| "payload_bytes (PItems vs) = Encode (JObj [(''items'', JArr (map view_json vs))])"
| "payload_bytes (PProject v) = Encode (view_json v)"
| "payload_bytes (PError ec msg) = Encode (error_json ec msg)"
| "payload_bytes (PText t) = t @ [CHR 0x0A]"
| "payload_bytes PEmpty = []"

section \<open>Requests\<close>

record http_req =
  rqMethod :: string
  rqURL :: string
  rqHeaders :: "string \<rightharpoonup> string"
  rqBody :: "string option"

text \<open>What \<open>Client.Do\<close> and \<open>ReadAll\<close> yield: an error, or the status code, the status line's text
  and the bytes of the body.\<close>

datatype http_result = Unsent string | Answered nat string string

text \<open>
  The network as a client sees it, over a state \<open>'w\<close> of everything behind it: the error of
  \<open>http.NewRequest\<close> for a URL that does not parse, the exchange itself, and the text of the
  error that \<open>encoding/json\<close> reports for an input it rejects.
\<close>

record 'w net =
  refuses_url :: "string \<Rightarrow> string option"
  send :: "http_req \<Rightarrow> 'w \<Rightarrow> http_result \<times> 'w"
  json_error :: "string \<Rightarrow> string"

text \<open>The envelope of an error response, as both clients decode it: what cannot be decoded is
  left empty.\<close>

fun error_fields :: "(string \<times> json) list \<Rightarrow> (string \<rightharpoonup> string) \<Rightarrow> (string \<rightharpoonup> string)" where
  "error_fields [] m = m"
| "error_fields ((k, x) # kvs) m =
     error_fields kvs (if fold_name k = fold_name ''error'' then fst (decode_strings [''code'', ''message''] x m) else m)"

definition decode_error :: "string \<Rightarrow> string \<times> string" where
  "decode_error raw =
     (case Unmarshal raw of
        Some (JObj kvs) \<Rightarrow>
          (field (error_fields kvs Map.empty) ''code'', field (error_fields kvs Map.empty) ''message'')
      | _ \<Rightarrow> ([], []))"

text \<open>Every envelope the server writes is read back by the clients.\<close>

lemma ascii_literal [simp]: "ascii []" "ascii (c # s) \<longleftrightarrow> code c < 0x80 \<and> ascii s" "ascii (s @ t) \<longleftrightarrow> ascii s \<and> ascii t"
  by (simp_all add: ascii_def)

lemma Unmarshal_Encode:
  "plain_json v \<Longrightarrow> depth v \<le> max_depth \<Longrightarrow> Unmarshal (Encode v) = Some v"
  unfolding Encode_def by (rule Unmarshal_Marshal)

lemma decode_error_envelope:
  assumes "ascii ec" and "ascii msg"
  shows "decode_error (payload_bytes (PError ec msg)) = (ec, msg)"
proof -
  have u: "Unmarshal (Encode (error_json ec msg)) = Some (error_json ec msg)"
    using assms by (intro Unmarshal_Encode) (simp_all add: error_json_def max_depth_def)
  show ?thesis
    by (simp add: decode_error_def u) (simp add: error_json_def decode_strings_def fold_name_eq field_def)
qed

section \<open>Delivery\<close>

text \<open>The paths the law speaks of: segments of the characters of project names.\<close>

definition path_of :: "string list \<Rightarrow> string" where
  "path_of segs = concat (map (\<lambda>s. CHR ''/'' # s) segs)"

definition plain_segments :: "string list \<Rightarrow> bool" where
  "plain_segments segs \<longleftrightarrow> segs \<noteq> [] \<and> (\<forall>s \<in> set segs. s \<noteq> [] \<and> list_all name_char s)"

definition server_request :: "string \<Rightarrow> http_req \<Rightarrow> string list \<Rightarrow> request" where
  "server_request ip rq segs =
     \<lparr>Method = rqMethod rq, Segments = segs, Authorization = field (rqHeaders rq) ''Authorization'',
      RemoteAddr = ip, ContentLength = (case rqBody rq of None \<Rightarrow> 0 | Some b \<Rightarrow> int (length b)),
      BodyValue = (case rqBody rq of None \<Rightarrow> None | Some b \<Rightarrow> map_option fst (DecodeValue b))\<rparr>"

text \<open>
  A network that connects a client at \<open>ip\<close> to the server at \<open>base\<close>. A request whose header is
  visible ASCII text is handled by \<open>Routes\<close>, once, and the client receives its answer; when the
  handler of a POST or DELETE panics, \<open>net/http\<close> closes the connection, and the client gets an
  error.
\<close>

definition visible :: "string \<Rightarrow> bool" where
  "visible s \<longleftrightarrow> list_all (\<lambda>c. 33 \<le> code c \<and> code c \<le> 126) s"

locale delivery =
  fixes E :: "('q, 'm) env"
    and base :: string
    and ip :: string
    and N :: "('q, 'm) world net"
  assumes base_url: "base \<noteq> [] \<and> last base \<noteq> CHR ''/''"
    and accepts: "plain_segments segs \<Longrightarrow> refuses_url N (base @ path_of segs) = None"
    and delivers: "plain_segments segs \<Longrightarrow> rqURL rq = base @ path_of segs \<Longrightarrow> rqMethod rq \<in> {''GET'', ''POST'', ''DELETE''}
      \<Longrightarrow> rqHeaders rq ''Authorization'' = Some (''Bearer '' @ tok) \<Longrightarrow> visible tok
      \<Longrightarrow> Routes E (server_request ip rq segs) w = (Ret resp, w')
      \<Longrightarrow> \<exists>st. send N rq w = (Answered (respStatus resp) st (payload_bytes (respBody resp)), w')"
    and breaks: "plain_segments segs \<Longrightarrow> rqURL rq = base @ path_of segs \<Longrightarrow> rqMethod rq \<in> {''POST'', ''DELETE''}
      \<Longrightarrow> rqHeaders rq ''Authorization'' = Some (''Bearer '' @ tok) \<Longrightarrow> visible tok
      \<Longrightarrow> \<not> is_ret (fst (Routes E (server_request ip rq segs) w))
      \<Longrightarrow> \<exists>e. send N rq w = (Unsent e, snd (Routes E (server_request ip rq segs) w))"
begin

lemma TrimRight_base: "TrimRight base ''/'' = base"
  using base_url by (cases base rule: rev_cases) (auto simp: TrimRight_def)

text \<open>An answer to a POST or DELETE is an answer of \<open>Routes\<close>.\<close>

lemma answered:
  assumes "send N rq w = (Answered ac st raw, w')"
    and "plain_segments segs" and "rqURL rq = base @ path_of segs" and "rqMethod rq \<in> {''POST'', ''DELETE''}"
    and "rqHeaders rq ''Authorization'' = Some (''Bearer '' @ tok)" and "visible tok"
  obtains resp where "Routes E (server_request ip rq segs) w = (Ret resp, w')" "respStatus resp = ac"
    "raw = payload_bytes (respBody resp)"
proof (cases "fst (Routes E (server_request ip rq segs) w)")
  case (Ret resp)
  then obtain w1 where r: "Routes E (server_request ip rq segs) w = (Ret resp, w1)" by (metis prod.collapse)
  have "rqMethod rq \<in> {''GET'', ''POST'', ''DELETE''}" using assms(4) by auto
  from delivers [OF assms(2,3) this assms(5,6) r] assms(1) have "w1 = w'" "respStatus resp = ac" "raw = payload_bytes (respBody resp)"
    by auto
  with r show thesis by (intro that) simp_all
qed (use breaks [OF assms(2-6), of w] assms(1) in auto)

end

text \<open>The loopback network: it cuts the path of the URL into its segments and calls the server.\<close>

definition loopback :: "('q, 'm) env \<Rightarrow> string \<Rightarrow> string \<Rightarrow> ('q, 'm) world net" where
  "loopback E base ip =
     \<lparr>refuses_url = (\<lambda>url. if \<exists>c \<in> set url. code c < 0x20 \<or> code c = 0x7F
        then Some ''net/url: invalid control character in URL'' else None),
      send = (\<lambda>rq w.
        (case CutPrefix (rqURL rq) base of
           None \<Rightarrow> (Unsent ''no route to host'', w)
         | Some path \<Rightarrow>
             (case Routes E (server_request ip rq (tl (Split (CHR ''/'') path))) w of
                (Ret resp, w') \<Rightarrow> (Answered (respStatus resp) (Itoa (respStatus resp)) (payload_bytes (respBody resp)), w')
              | (_, w') \<Rightarrow> (Unsent ''EOF'', w')))),
      json_error = (\<lambda>s. ''invalid JSON'')\<rparr>"

lemma name_char_range: "name_char c \<Longrightarrow> 45 \<le> code c \<and> code c \<le> 122 \<and> c \<noteq> CHR ''/''"
  by (auto simp: name_char_def char_class_defs)

lemma Split_path_of:
  "\<forall>s \<in> set segs. CHR ''/'' \<notin> set s \<Longrightarrow> segs \<noteq> [] \<Longrightarrow> Split (CHR ''/'') (path_of segs) = [] # segs"
proof (induction segs rule: rev_induct)
  case (snoc s segs)
  have "path_of (segs @ [s]) = path_of segs @ CHR ''/'' # s" by (simp add: path_of_def)
  moreover have "Split (CHR ''/'') (path_of segs @ CHR ''/'' # s) = Split (CHR ''/'') (path_of segs) @ [s]"
    using snoc.prems(1) by (intro Split_snoc) simp
  ultimately show ?case using snoc by (cases "segs = []") (auto simp: path_of_def)
qed simp

lemma plain_segments_split: "plain_segments segs \<Longrightarrow> tl (Split (CHR ''/'') (path_of segs)) = segs"
proof -
  assume "plain_segments segs"
  then have "\<forall>s \<in> set segs. CHR ''/'' \<notin> set s" "segs \<noteq> []"
    using name_char_range by (auto simp: plain_segments_def list_all_iff)
  then show ?thesis by (simp add: Split_path_of)
qed

lemma loopback_send:
  assumes "plain_segments segs" and "rqURL rq = base @ path_of segs"
    and "Routes E (server_request ip rq segs) w = (Ret resp, w')"
  shows "send (loopback E base ip) rq w = (Answered (respStatus resp) (Itoa (respStatus resp)) (payload_bytes (respBody resp)), w')"
  using assms(3) plain_segments_split [OF assms(1)] by (simp add: loopback_def assms(2))

lemma loopback_delivery:
  assumes "base \<noteq> []" and "last base \<noteq> CHR ''/''" and "visible base"
  shows "delivery E base ip (loopback E base ip)"
proof
  show "base \<noteq> [] \<and> last base \<noteq> CHR ''/''" using assms by simp
next
  fix segs assume "plain_segments segs"
  then have "\<forall>c \<in> set (path_of segs). 45 \<le> code c \<and> code c \<le> 122"
    using name_char_range by (auto simp: path_of_def plain_segments_def list_all_iff)
  then show "refuses_url (loopback E base ip) (base @ path_of segs) = None"
    using assms(3) by (fastforce simp: loopback_def visible_def list_all_iff)
next
  fix segs rq token w resp w'
  assume p: "plain_segments segs" and u: "rqURL rq = base @ path_of segs"
    and r: "Routes E (server_request ip rq segs) w = (Ret resp, w')"
  from p have "tl (Split (CHR ''/'') (path_of segs)) = segs" by (simp add: plain_segments_split)
  then show "\<exists>st. send (loopback E base ip) rq w = (Answered (respStatus resp) st (payload_bytes (respBody resp)), w')"
    by (simp add: loopback_def u r)
next
  fix segs rq token w
  assume p: "plain_segments segs" and u: "rqURL rq = base @ path_of segs"
    and r: "\<not> is_ret (fst (Routes E (server_request ip rq segs) w))"
  then have "tl (Split (CHR ''/'') (path_of segs)) = segs" by (simp add: plain_segments_split)
  then show "\<exists>e. send (loopback E base ip) rq w = (Unsent e, snd (Routes E (server_request ip rq segs) w))"
    using r by (auto simp: loopback_def u split: outcome.split prod.split)
qed

interpretation local_server: delivery reference_env "''http://127.0.0.1:8787''" "''127.0.0.1:9''"
    "loopback reference_env ''http://127.0.0.1:8787'' ''127.0.0.1:9''"
  by (rule loopback_delivery) (simp_all add: visible_def)

end
