(* ===== verification/Dbi.thy ===== *)
theory Dbi
  imports Transport GoFlags
begin

text \<open>
  \<open>cmd/dbi/main.go\<close>: the command-line client. A run takes the environment, the arguments and
  the network, and yields what it prints on standard output, what it reports on standard error,
  its exit code and the world behind the network.
\<close>

section \<open>Flags and results\<close>

record globalFlags =
  gURL :: string
  gToken :: string
  gJSON :: bool

text \<open>What goes to standard error: a fixed text, the message of package \<open>flag\<close>, or the error of a
  call.\<close>

datatype diagnostic = DText string | DFlags | DError string

definition usage :: string where
  "usage = Join
     [''dbi '' @ [CHR 0xE2, CHR 0x80, CHR 0x94] @ '' db-isolation CLI'',
      [],
      ''Usage:'',
      ''  dbi list'',
      ''  dbi status <name>'',
      ''  dbi create <name>'',
      ''  dbi rotate <name>'',
      ''  dbi delete <name> --confirm <name>'',
      [],
      ''Flags (before subcommand):'',
      ''  --url URL         Server base URL (default http://127.0.0.1:8787)'',
      ''                    Env: DB_ISOLATION_URL'',
      ''  --token TOKEN     Bearer token (default: $DB_ISOLATION_TOKEN)'',
      ''  --json            Output JSON'',
      [],
      ''Examples:'',
      ''  export DB_ISOLATION_TOKEN=dbi_xxx'',
      ''  dbi create opcos'',
      ''  dbi delete opcos --confirm opcos'']
     [CHR 0x0A]"

record 'w run =
  runOut :: string
  runErr :: "diagnostic list"
  runExit :: nat
  runWorld :: 'w

definition finish :: "string \<Rightarrow> diagnostic list \<Rightarrow> nat \<Rightarrow> 'w \<Rightarrow> 'w run" where
  "finish o' e x w = \<lparr>runOut = o', runErr = e, runExit = x, runWorld = w\<rparr>"

lemma finish_simps [simp]:
  "runOut (finish o' e x w) = o'" "runErr (finish o' e x w) = e" "runExit (finish o' e x w) = x" "runWorld (finish o' e x w) = w"
  by (simp_all add: finish_def)

definition envDefault :: "(string \<rightharpoonup> string) \<Rightarrow> string \<Rightarrow> string \<Rightarrow> string" where
  "envDefault env key def = (case env key of Some v \<Rightarrow> v | None \<Rightarrow> def)"

section \<open>Calls\<close>

text \<open>A call exits the process when the token is missing, fails with an error text, or yields the
  decoded response.\<close>

datatype 'a call = Exits diagnostic | Err string | Done 'a

definition missing_token :: diagnostic where
  "missing_token = DText ''error: missing bearer token. Pass --token or set DB_ISOLATION_TOKEN.''"

definition exitErrf :: "string \<Rightarrow> string" where
  "exitErrf msg = ''error: '' @ msg"

definition api_request :: "globalFlags \<Rightarrow> string \<Rightarrow> string \<Rightarrow> json option \<Rightarrow> http_req" where
  "api_request g meth path body =
     \<lparr>rqMethod = meth, rqURL = TrimRight (gURL g) ''/'' @ path,
      rqHeaders = (if body = None then Map.empty else [''Content-Type'' \<mapsto> ''application/json''])
        (''Authorization'' \<mapsto> ''Bearer '' @ gToken g, ''Accept'' \<mapsto> ''application/json''),
      rqBody = map_option Marshal body\<rparr>"

text \<open>What the call makes of the exchange.\<close>

definition read_answer :: "'w net \<Rightarrow> (string \<Rightarrow> 'a option) \<Rightarrow> http_result \<Rightarrow> 'a call" where
  "read_answer N decode res =
     (case res of
        Unsent e \<Rightarrow> Err (exitErrf (''request failed: '' @ e))
      | Answered st status raw \<Rightarrow>
          (if st \<ge> 400 then
             Err (exitErrf (''server returned '' @ status @ '': ''
               @ (if fst (decode_error raw) \<noteq> [] then snd (decode_error raw) else raw)))
           else case decode raw of
             None \<Rightarrow> Err (exitErrf (''decode response: '' @ json_error N raw))
           | Some v \<Rightarrow> Done v))"

definition apiCallT ::
    "'w net \<Rightarrow> globalFlags \<Rightarrow> string \<Rightarrow> string \<Rightarrow> json option \<Rightarrow> (string \<Rightarrow> 'a option) \<Rightarrow> 'w \<Rightarrow> 'a call \<times> 'w" where
  "apiCallT N g meth path body decode w =
     (case refuses_url N (TrimRight (gURL g) ''/'' @ path) of
        Some e \<Rightarrow> (Err (exitErrf (''build request: '' @ e)), w)
      | None \<Rightarrow>
          (if gToken g = [] then (Exits missing_token, w)
           else case send N (api_request g meth path body) w of
             (res, w) \<Rightarrow> (read_answer N decode res, w)))"

text \<open>How a subcommand goes on from a call.\<close>

definition after_call :: "'a call \<times> 'w \<Rightarrow> ('a \<Rightarrow> string) \<Rightarrow> 'w run" where
  "after_call c print =
     (case c of
        (Exits d, w) \<Rightarrow> finish [] [d] 2 w
      | (Err e, w) \<Rightarrow> finish [] [DError e] 1 w
      | (Done v, w) \<Rightarrow> finish (print v) [] 0 w)"

text \<open>The variant that ends the process; no command uses it.\<close>

definition exitf :: "string \<Rightarrow> 'w \<Rightarrow> 'w run" where
  "exitf msg w = finish [] [DError (''error: '' @ msg)] 1 w"

definition apiCall ::
    "'w net \<Rightarrow> globalFlags \<Rightarrow> string \<Rightarrow> string \<Rightarrow> json option \<Rightarrow> (string \<Rightarrow> 'a option) \<Rightarrow> 'w \<Rightarrow> ('w run, 'a \<times> 'w) sum" where
  "apiCall N g meth path body decode w =
     (case apiCallT N g meth path body decode w of
        (Exits d, w) \<Rightarrow> Inl (finish [] [d] 2 w)
      | (Err e, w) \<Rightarrow> Inl (exitf e w)
      | (Done v, w) \<Rightarrow> Inr (v, w))"

section \<open>Views\<close>

record projectView =
  pvName :: string
  pvDatabase :: string
  pvUser :: string
  pvSecretPath :: string
  pvStatus :: string
  pvLastError :: string

definition view_fields :: "string list" where
  "view_fields = [''name'', ''database'', ''user'', ''secret_path'', ''status'', ''last_error'']"

definition view_of :: "(string \<rightharpoonup> string) \<Rightarrow> projectView" where
  "view_of m =
     \<lparr>pvName = field m ''name'', pvDatabase = field m ''database'', pvUser = field m ''user'',
      pvSecretPath = field m ''secret_path'', pvStatus = field m ''status'', pvLastError = field m ''last_error''\<rparr>"

definition decode_view :: "string \<Rightarrow> projectView option" where
  "decode_view raw =
     (case Unmarshal raw of
        None \<Rightarrow> None
      | Some v \<Rightarrow>
          (case decode_strings view_fields v Map.empty of
             (m, ok) \<Rightarrow> if ok then Some (view_of m) else None))"

text \<open>
  \<open>listView\<close>: None is the nil slice. A second array under the key is decoded over the elements
  of the first.
\<close>

fun decode_elems :: "json list \<Rightarrow> (string \<rightharpoonup> string) list \<Rightarrow> ((string \<rightharpoonup> string) \<times> bool) list" where
  "decode_elems [] olds = []"
| "decode_elems (x # xs) olds =
     decode_strings view_fields x (case olds of [] \<Rightarrow> Map.empty | m # _ \<Rightarrow> m) # decode_elems xs (tl olds)"

fun items_field :: "(string \<times> json) list \<Rightarrow> (string \<rightharpoonup> string) list option \<Rightarrow> (string \<rightharpoonup> string) list option option" where
  "items_field [] cur = Some cur"
| "items_field ((k, x) # kvs) cur =
     (if fold_name k \<noteq> fold_name ''items'' then items_field kvs cur
      else case x of
        JNull \<Rightarrow> items_field kvs None
      | JArr xs \<Rightarrow>
          (let ys = decode_elems xs (case cur of None \<Rightarrow> [] | Some ms \<Rightarrow> ms) in
           if list_all snd ys then items_field kvs (Some (map fst ys)) else None)
      | _ \<Rightarrow> None)"

definition decode_list :: "string \<Rightarrow> projectView list option option" where
  "decode_list raw =
     (case Unmarshal raw of
        Some (JObj kvs) \<Rightarrow> map_option (map_option (map view_of)) (items_field kvs None)
      | Some JNull \<Rightarrow> Some None
      | _ \<Rightarrow> None)"

definition projectView_json :: "projectView \<Rightarrow> json" where
  "projectView_json p =
     JObj ([(''name'', JStr (pvName p)), (''database'', JStr (pvDatabase p)), (''user'', JStr (pvUser p)),
            (''secret_path'', JStr (pvSecretPath p)), (''status'', JStr (pvStatus p))]
       @ (if pvLastError p = [] then [] else [(''last_error'', JStr (pvLastError p))]))"

definition listView_json :: "projectView list option \<Rightarrow> json" where
  "listView_json items =
     JObj [(''items'', case items of None \<Rightarrow> JNull | Some ps \<Rightarrow> JArr (map projectView_json ps))]"

text \<open>The error of the encoder is dropped.\<close>

definition printJSON :: "json \<Rightarrow> string" where
  "printJSON v = (case Indent (Encode v) of Some s \<Rightarrow> s | None \<Rightarrow> [])"

section \<open>Subcommands\<close>

definition line :: "string list \<Rightarrow> string" where
  "line ts = concat ts @ [CHR 0x0A]"

text \<open>The check mark in front of the lines of a success.\<close>

definition tick :: string where
  "tick = [CHR 0xE2, CHR 0x9C, CHR 0x93, CHR '' '']"

definition list_row :: "string \<Rightarrow> string \<Rightarrow> string \<Rightarrow> string \<Rightarrow> string" where
  "list_row a b c d = line [Join [pad 20 a, pad 30 b, pad 25 c, pad 10 d] '' '']"

definition cmdList :: "'w net \<Rightarrow> globalFlags \<Rightarrow> string list \<Rightarrow> 'w \<Rightarrow> 'w run" where
  "cmdList N g args w =
     (if args \<noteq> [] then finish [] [DText ''usage: dbi list''] 2 w
      else after_call (apiCallT N g ''GET'' ''/v1/databases'' None decode_list w)
        (\<lambda>items.
          if gJSON g then printJSON (listView_json items)
          else case items of
            Some (p # ps) \<Rightarrow>
              list_row ''NAME'' ''DATABASE'' ''USER'' ''STATUS''
                @ concat (map (\<lambda>p. list_row (pvName p) (pvDatabase p) (pvUser p) (pvStatus p)) (p # ps))
          | _ \<Rightarrow> line [''(no databases)'']))"

definition cmdStatus :: "'w net \<Rightarrow> globalFlags \<Rightarrow> string list \<Rightarrow> 'w \<Rightarrow> 'w run" where
  "cmdStatus N g args w =
     (case args of
        [] \<Rightarrow> finish [] [DText ''usage: dbi status <name>''] 2 w
      | name # _ \<Rightarrow>
          after_call (apiCallT N g ''GET'' (''/v1/databases/'' @ name) None decode_view w)
            (\<lambda>p.
              if gJSON g then printJSON (projectView_json p)
              else line [''Project:    '', pvName p] @ line [''Database:   '', pvDatabase p]
                @ line [''User:       '', pvUser p] @ line [''Secret:     '', pvSecretPath p]
                @ line [''Status:     '', pvStatus p]
                @ (if pvLastError p = [] then [] else line [''LastError:  '', pvLastError p])))"

definition cmdCreate :: "'w net \<Rightarrow> globalFlags \<Rightarrow> string list \<Rightarrow> 'w \<Rightarrow> 'w run" where
  "cmdCreate N g args w =
     (case args of
        [] \<Rightarrow> finish [] [DText ''usage: dbi create <name>''] 2 w
      | name # _ \<Rightarrow>
          after_call (apiCallT N g ''POST'' ''/v1/databases'' (Some (JObj [(''name'', JStr name)])) decode_view w)
            (\<lambda>p.
              if gJSON g then printJSON (projectView_json p)
              else line [tick, ''Project: '', pvName p] @ line [tick, ''Database: '', pvDatabase p]
                @ line [tick, ''User: '', pvUser p] @ line [tick, ''Secret: '', pvSecretPath p]
                @ line [tick, ''Status: '', pvStatus p]))"

definition cmdRotate :: "'w net \<Rightarrow> globalFlags \<Rightarrow> string list \<Rightarrow> 'w \<Rightarrow> 'w run" where
  "cmdRotate N g args w =
     (case args of
        [] \<Rightarrow> finish [] [DText ''usage: dbi rotate <name>''] 2 w
      | name # _ \<Rightarrow>
          after_call (apiCallT N g ''POST'' (''/v1/databases/'' @ name @ ''/rotate'') None decode_view w)
            (\<lambda>p.
              if gJSON g then printJSON (projectView_json p)
              else line [tick, ''Rotated credentials for '', pvName p] @ line [tick, ''Status: '', pvStatus p]))"

text \<open>The value of the first \<open>--confirm\<close> that has one.\<close>

fun find_confirm :: "string list \<Rightarrow> string" where
  "find_confirm [] = []"
| "find_confirm (a # args) =
     (if a = ''--confirm'' \<and> args \<noteq> [] then hd args
      else if HasPrefix a ''--confirm='' then drop 10 a
      else find_confirm args)"

definition cmdDelete :: "'w net \<Rightarrow> globalFlags \<Rightarrow> string list \<Rightarrow> 'w \<Rightarrow> 'w run" where
  "cmdDelete N g args w =
     (case args of
        [] \<Rightarrow> finish [] [DText ''usage: dbi delete <name> --confirm <name>''] 2 w
      | name # rest \<Rightarrow>
          (let confirm = find_confirm rest in
           if confirm = [] then finish [] [DText ''refusing to delete without --confirm <name>''] 2 w
           else after_call
             (apiCallT N g ''DELETE'' (''/v1/databases/'' @ name) (Some (JObj [(''confirm'', JStr confirm)]))
               (\<lambda>_. Some ()) w)
             (\<lambda>_. line [tick, ''Deleted '', name])))"

section \<open>Dispatch\<close>

text \<open>The search for the subcommand: what precedes it, itself, and what follows.\<close>

datatype scan = HelpFlag | NoCommand | Command "string list" string "string list"

function find_command :: "string list \<Rightarrow> string list \<Rightarrow> scan" where
  "find_command pre [] = NoCommand"
| "find_command pre (a # args) =
     (if a = ''--help'' \<or> a = ''-h'' then HelpFlag
      else if HasPrefix a ''-'' then
        (if a = ''--url'' \<or> a = ''--token'' then find_command (pre @ a # take 1 args) (drop 1 args)
         else find_command (pre @ [a]) args)
      else Command pre a args)"
  by pat_completeness auto
termination
  by (relation "measure (\<lambda>(pre, args). length args)") simp_all

declare find_command.simps(2) [simp del]

definition global_flags :: "(string \<times> flag_kind) list" where
  "global_flags = [(''url'', FString), (''token'', FString), (''json'', FBool)]"

definition flags_of :: "(string \<rightharpoonup> string) \<Rightarrow> flag_values \<Rightarrow> globalFlags" where
  "flags_of env vals =
     \<lparr>gURL = string_flag vals ''url'' (envDefault env ''DB_ISOLATION_URL'' ''http://127.0.0.1:8787''),
      gToken = string_flag vals ''token'' (envDefault env ''DB_ISOLATION_TOKEN'' []),
      gJSON = bool_flag vals ''json'' False\<rparr>"

definition run_command :: "'w net \<Rightarrow> globalFlags \<Rightarrow> string \<Rightarrow> string list \<Rightarrow> 'w \<Rightarrow> 'w run" where
  "run_command N g cmd rest w =
     (if cmd = ''list'' then cmdList N g rest w
      else if cmd = ''status'' then cmdStatus N g rest w
      else if cmd = ''create'' then cmdCreate N g rest w
      else if cmd = ''rotate'' then cmdRotate N g rest w
      else if cmd = ''delete'' then cmdDelete N g rest w
      else if cmd = ''help'' then finish [] [DText usage] 0 w
      else finish [] [DText usage] 2 w)"

text \<open>The arguments are those behind the name of the program.\<close>

definition dispatchMain :: "'w net \<Rightarrow> (string \<rightharpoonup> string) \<Rightarrow> string list \<Rightarrow> 'w \<Rightarrow> 'w run" where
  "dispatchMain N env args w =
     (if args = [] then finish [] [DText usage] 2 w
      else case find_command [] args of
        HelpFlag \<Rightarrow> finish [] [DText usage] 0 w
      | NoCommand \<Rightarrow> finish [] [DText usage] 2 w
      | Command pre cmd rest \<Rightarrow>
          (case parse_flags global_flags [] pre of
             None \<Rightarrow> finish [] [DFlags] 2 w
           | Some (vals, _) \<Rightarrow> run_command N (flags_of env vals) cmd rest w))"

section \<open>What a run sends\<close>

text \<open>The request a subcommand stands for, if it stands for one.\<close>

definition command_request :: "globalFlags \<Rightarrow> string \<Rightarrow> string list \<Rightarrow> http_req option" where
  "command_request g cmd args =
     (if cmd = ''list'' then (if args = [] then Some (api_request g ''GET'' ''/v1/databases'' None) else None)
      else case args of
        [] \<Rightarrow> None
      | name # rest \<Rightarrow>
          (if cmd = ''status'' then Some (api_request g ''GET'' (''/v1/databases/'' @ name) None)
           else if cmd = ''create'' then Some (api_request g ''POST'' ''/v1/databases'' (Some (JObj [(''name'', JStr name)])))
           else if cmd = ''rotate'' then Some (api_request g ''POST'' (''/v1/databases/'' @ name @ ''/rotate'') None)
           else if cmd = ''delete'' \<and> find_confirm rest \<noteq> []
             then Some (api_request g ''DELETE'' (''/v1/databases/'' @ name) (Some (JObj [(''confirm'', JStr (find_confirm rest))])))
           else None))"

definition dbi_request :: "(string \<rightharpoonup> string) \<Rightarrow> string list \<Rightarrow> (globalFlags \<times> http_req) option" where
  "dbi_request env args =
     (case find_command [] args of
        Command pre cmd rest \<Rightarrow>
          (case parse_flags global_flags [] pre of
             None \<Rightarrow> None
           | Some (vals, _) \<Rightarrow> map_option (Pair (flags_of env vals)) (command_request (flags_of env vals) cmd rest))
      | _ \<Rightarrow> None)"

text \<open>A run that sends \<open>rq\<close>, if the URL and the token allow it, and succeeds only on an answer below
  400 that its decoder accepts.\<close>

definition sends :: "'w net \<Rightarrow> globalFlags \<Rightarrow> http_req \<Rightarrow> 'w \<Rightarrow> 'w run \<Rightarrow> bool" where
  "sends N g rq w r \<longleftrightarrow>
     (if refuses_url N (rqURL rq) \<noteq> None then runWorld r = w \<and> runExit r = 1
      else if gToken g = [] then runWorld r = w \<and> runExit r = 2
      else runWorld r = snd (send N rq w) \<and> runExit r \<in> {0, 1}
        \<and> (runExit r = 0 \<longrightarrow> (\<exists>st status raw. fst (send N rq w) = Answered st status raw \<and> st < 400)))"

lemma read_answer_Done:
  "read_answer N decode res = Done v \<longleftrightarrow>
     (\<exists>st status raw. res = Answered st status raw \<and> st < 400 \<and> decode raw = Some v)"
  by (cases res) (auto simp: read_answer_def split: option.split)

lemma read_answer_no_exit [simp]: "read_answer N decode res \<noteq> Exits d"
  by (auto simp: read_answer_def split: http_result.split option.split)

lemma after_call_simps [simp]:
  "runWorld (after_call c print) = snd c"
  "runExit (after_call c print) = (case fst c of Exits d \<Rightarrow> 2 | Err e \<Rightarrow> 1 | Done v \<Rightarrow> 0)"
  "runOut (after_call c print) = (case fst c of Done v \<Rightarrow> print v | _ \<Rightarrow> [])"
  by (cases c; cases "fst c"; simp add: after_call_def)+

lemma apiCallT_sent:
  assumes "refuses_url N (TrimRight (gURL g) ''/'' @ path) = None" and "gToken g \<noteq> []"
  shows "apiCallT N g meth path body decode w
    = (read_answer N decode (fst (send N (api_request g meth path body) w)), snd (send N (api_request g meth path body) w))"
  using assms by (simp add: apiCallT_def split: prod.split)

lemma after_call_sends:
  "sends N g (api_request g meth path body) w (after_call (apiCallT N g meth path body decode w) print)"
proof -
  have u: "rqURL (api_request g meth path body) = TrimRight (gURL g) ''/'' @ path" by (simp add: api_request_def)
  show ?thesis
  proof (cases "refuses_url N (TrimRight (gURL g) ''/'' @ path) = None \<and> gToken g \<noteq> []")
    case True
    then have "fst (apiCallT N g meth path body decode w) = read_answer N decode (fst (send N (api_request g meth path body) w))"
      "snd (apiCallT N g meth path body decode w) = snd (send N (api_request g meth path body) w)"
      by (simp_all add: apiCallT_sent)
    with True show ?thesis unfolding sends_def u after_call_simps
      by (auto simp: read_answer_Done split: call.splits)
  next
    case False
    then show ?thesis unfolding sends_def u after_call_simps by (auto simp: apiCallT_def)
  qed
qed

text \<open>A run that sends nothing either prints the usage on request or is an error of usage.\<close>

definition silent :: "'w \<Rightarrow> 'w run \<Rightarrow> bool" where
  "silent w r \<longleftrightarrow> runWorld r = w \<and> runOut r = [] \<and> runExit r \<in> {0, 2} \<and> (runExit r = 0 \<longrightarrow> runErr r = [DText usage])"

lemma silent_usage [simp]: "silent w (finish [] ds 2 w)" "silent w (finish [] [DText usage] 0 w)"
  by (simp_all add: silent_def)

lemma run_command_sends:
  "case command_request g cmd rest of
     None \<Rightarrow> silent w (run_command N g cmd rest w)
   | Some rq \<Rightarrow> sends N g rq w (run_command N g cmd rest w)"
proof -
  note d = cmdList_def cmdStatus_def cmdCreate_def cmdRotate_def cmdDelete_def run_command_def command_request_def
  show ?thesis
  proof (cases "cmd \<in> {''list'', ''status'', ''create'', ''rotate'', ''delete''}")
    case True
    then show ?thesis
      by (elim insertE emptyE; cases rest) (simp_all add: d after_call_sends Let_def)
  next
    case False
    then show ?thesis by (cases rest) (auto simp: d)
  qed
qed

text \<open>C25: a run of the command line sends at most one request, the one its arguments stand for, and
  only with a token; it exits 0 only when the server answered below 400 or the usage was asked
  for, and it exits 2 only when it has sent nothing. A DELETE stands only behind the subcommand
  delete with a name and a confirmation.\<close>

theorem dbi_sends_one_request:
  "case dbi_request env args of
     None \<Rightarrow> silent w (dispatchMain N env args w)
   | Some (g, rq) \<Rightarrow> sends N g rq w (dispatchMain N env args w)
       \<and> (rqMethod rq = ''DELETE'' \<longleftrightarrow>
           (\<exists>pre name rest. find_command [] args = Command pre ''delete'' (name # rest) \<and> find_confirm rest \<noteq> []))"
proof (cases "find_command [] args")
  case (Command pre cmd rest)
  then have "args \<noteq> []" by auto
  show ?thesis
  proof (cases "parse_flags global_flags [] pre")
    case None
    then show ?thesis using Command \<open>args \<noteq> []\<close> by (simp add: dbi_request_def dispatchMain_def)
  next
    case (Some p)
    then obtain vals r where p: "parse_flags global_flags [] pre = Some (vals, r)" by (cases p) auto
    have d: "dispatchMain N env args w = run_command N (flags_of env vals) cmd rest w"
      using Command p \<open>args \<noteq> []\<close> by (simp add: dispatchMain_def)
    have m: "rqMethod rq = ''DELETE'' \<longleftrightarrow> (\<exists>name r. cmd = ''delete'' \<and> rest = name # r \<and> find_confirm r \<noteq> [])"
      if "command_request (flags_of env vals) cmd rest = Some rq" for rq
      using that by (auto simp: command_request_def api_request_def split: list.splits if_splits)
    show ?thesis
      using run_command_sends [where g = "flags_of env vals" and cmd = cmd and rest = rest and w = w and N = N] m
      by (auto simp: dbi_request_def Command p d split: option.splits)
  qed
qed (auto simp: dbi_request_def dispatchMain_def)

section \<open>Reading the server's views\<close>

definition client_view :: "ProjectView \<Rightarrow> projectView" where
  "client_view v =
     \<lparr>pvName = vwName v, pvDatabase = vwDatabase v, pvUser = vwUser v, pvSecretPath = vwSecretPath v,
      pvStatus = vwStatus v, pvLastError = vwLastError v\<rparr>"

definition ascii_view :: "ProjectView \<Rightarrow> bool" where
  "ascii_view v \<longleftrightarrow>
     ascii (vwName v) \<and> ascii (vwDatabase v) \<and> ascii (vwUser v) \<and> ascii (vwSecretPath v) \<and> ascii (vwStatus v)
     \<and> ascii (vwLastError v) \<and> ascii (vwCreatedAt v) \<and> ascii (vwUpdatedAt v)"

lemma view_json_plain: "ascii_view v \<Longrightarrow> plain_json (view_json v) \<and> depth (view_json v) = 1"
  by (simp add: view_json_def ascii_view_def)

lemma decode_view_json:
  "\<exists>m. decode_strings view_fields (view_json v) Map.empty = (m, True) \<and> view_of m = client_view v"
  by (simp add: view_json_def decode_strings_def view_fields_def fold_name_eq view_of_def client_view_def field_def)

lemma decode_elems_views:
  "list_all snd (decode_elems (map view_json vs) []) \<and> map view_of (map fst (decode_elems (map view_json vs) [])) = map client_view vs"
proof (induction vs)
  case (Cons v vs)
  from decode_view_json [of v] obtain m where m: "decode_strings view_fields (view_json v) Map.empty = (m, True)"
    "view_of m = client_view v" by blast
  then show ?case using Cons by simp
qed simp

lemma decode_project_bytes:
  assumes "ascii_view v"
  shows "decode_view (payload_bytes (PProject v)) = Some (client_view v)"
proof -
  have "Unmarshal (payload_bytes (PProject v)) = Some (view_json v)"
    using view_json_plain [OF assms] by (simp add: Unmarshal_Encode max_depth_def)
  then show ?thesis using decode_view_json [of v] by (auto simp: decode_view_def)
qed

text \<open>C36: what the server sends of its projects the client reads back field by field, in one view
  and in a list, whatever ASCII text the fields hold.\<close>

theorem client_reads_server_views:
  assumes "list_all ascii_view (v # vs)"
  shows "decode_view (payload_bytes (PProject v)) = Some (client_view v)
    \<and> decode_list (payload_bytes (PItems vs)) = Some (Some (map client_view vs))"
proof
  have p: "\<forall>x \<in> set (v # vs). plain_json (view_json x) \<and> depth (view_json x) = 1"
    using assms view_json_plain by (auto simp: list_all_iff)
  show "decode_view (payload_bytes (PProject v)) = Some (client_view v)"
    using assms by (simp add: decode_project_bytes del: payload_bytes.simps)
  let ?items = "JObj [(''items'', JArr (map view_json vs))]"
  have "depth ?items \<le> max_depth" using p by (auto simp: foldr_max_le max_depth_def)
  then have "Unmarshal (Encode ?items) = Some ?items"
    using p by (intro Unmarshal_Encode) (simp_all add: list_all_iff)
  then show "decode_list (payload_bytes (PItems vs)) = Some (Some (map client_view vs))"
    using decode_elems_views [of vs] by (simp add: decode_list_def Let_def comp_def)
qed

definition demo_view :: ProjectView where
  "demo_view =
     \<lparr>vwName = ''app'', vwDatabase = ''app_db'', vwUser = ''app_user'', vwSecretPath = ''/etc/app.env'',
      vwStatus = ''ready'', vwLastError = [], vwCreatedAt = [], vwUpdatedAt = []\<rparr>"

theorem client_reads_server_views_witness:
  "decode_view (payload_bytes (PProject demo_view)) = Some (client_view demo_view)"
proof -
  have "list_all ascii_view [demo_view]" by (simp add: demo_view_def ascii_view_def)
  from client_reads_server_views [OF this] show ?thesis by blast
qed

section \<open>The spelling of flags\<close>

definition word :: "string \<Rightarrow> bool" where
  "word a \<longleftrightarrow> a \<noteq> [] \<and> hd a \<noteq> CHR ''-''"

lemma find_word: "word a \<Longrightarrow> find_command pre (a # args) = Command pre a args"
proof -
  assume "word a"
  then have "\<not> HasPrefix a ''-''" "a \<noteq> ''--help''" "a \<noteq> ''-h''"
    by (auto simp: word_def HasPrefix_def) (cases a; simp)
  then show ?thesis by (simp add: find_command.simps(2))
qed

lemma find_flag:
  "find_command pre (''--url'' # u # args) = find_command (pre @ [''--url'', u]) args"
  "find_command pre (''--token'' # u # args) = find_command (pre @ [''--token'', u]) args"
  "find_command pre (''-url'' # args) = find_command (pre @ [''-url'']) args"
  "find_command pre (''-token'' # args) = find_command (pre @ [''-token'']) args"
  by (simp_all add: find_command.simps(2) HasPrefix_def)

lemma parse_one_flag:
  assumes "n = ''url'' \<or> n = ''token''"
  shows "parse_flags global_flags [] [''--'' @ n, u] = Some ([(n, VString u)], [])"
    and "parse_flags global_flags [] [''-'' @ n, u] = Some ([(n, VString u)], [])"
    and "parse_flags global_flags [] [''-'' @ n] = None"
  using assms by (auto simp: parse_flags.simps(2) flag_arg_def global_flags_def add_flag_def HasPrefix_def Let_def)

text \<open>Package flag takes \<open>-url U\<close> for \<open>--url U\<close>, but the search for the subcommand does not:
  behind a single hyphen it takes the value for the subcommand, so the run ends with a flag
  error before anything is sent.\<close>

theorem single_hyphen_flag_fails:
  assumes "word u" and "word cmd" and "n = ''url'' \<or> n = ''token''"
  shows "dispatchMain N env ((''--'' @ n) # u # cmd # rest) w = run_command N (flags_of env [(n, VString u)]) cmd rest w
    \<and> dispatchMain N env ((''-'' @ n) # u # cmd # rest) w = finish [] [DFlags] 2 w
    \<and> parse_flags global_flags [] [''-'' @ n, u] = parse_flags global_flags [] [''--'' @ n, u]"
proof -
  note p = parse_one_flag [OF assms(3)]
  have "find_command [] ((''--'' @ n) # u # cmd # rest) = Command [''--'' @ n, u] cmd rest"
    using assms(3) find_word [OF assms(2)] by (auto simp: find_flag)
  moreover have "find_command [] ((''-'' @ n) # u # cmd # rest) = Command [''-'' @ n] u (cmd # rest)"
    using assms(3) find_word [OF assms(1)] by (auto simp: find_flag)
  ultimately show ?thesis by (simp add: dispatchMain_def p p [simplified])
qed

theorem single_hyphen_flag_fails_witness:
  "runExit (dispatchMain (loopback reference_env ''http://h'' ''c'') Map.empty [''-url'', ''http://h'', ''list''] fresh_world) = 2"
proof -
  have "word ''http://h''" "word ''list''" by (simp_all add: word_def)
  from single_hyphen_flag_fails [OF this, of "''url''" "loopback reference_env ''http://h'' ''c''" Map.empty "[]" fresh_world]
  show ?thesis by simp
qed

end
