(* ===== verification/Mcp.thy ===== *)
theory Mcp
  imports Transport GoFlags
begin

text \<open>
  \<open>cmd/mcp/main.go\<close>: the MCP adapter, a JSON-RPC server on standard input and output that turns
  tool calls into HTTP requests. The input is the text that arrives until its end; a
  \<open>json.RawMessage\<close> is kept as the value it is the text of.
\<close>

section \<open>Requests and responses\<close>

record rpcRequest =
  rpcID :: "json option"
  rpcMethod :: string
  rpcParams :: "json option"

record rpcError =
  errCode :: int
  errMessage :: string
  errData :: "string option"

record rpcResponse =
  resID :: "json option"
  resResult :: "json option"
  resError :: "rpcError option"

definition invalidRequest :: int where "invalidRequest = - 32600"

definition methodNotFound :: int where "methodNotFound = - 32601"

definition omitempty :: "string \<Rightarrow> json option \<Rightarrow> (string \<times> json) list" where
  "omitempty key v = (case v of None \<Rightarrow> [] | Some x \<Rightarrow> [(key, x)])"

definition rpcError_json :: "rpcError \<Rightarrow> json" where
  "rpcError_json e =
     JObj ([(''code'', JNum (Itoa_int (errCode e))), (''message'', JStr (errMessage e))]
       @ omitempty ''data'' (map_option JStr (errData e)))"

definition rpcResponse_json :: "rpcResponse \<Rightarrow> json" where
  "rpcResponse_json r =
     JObj ([(''jsonrpc'', JStr ''2.0'')] @ omitempty ''id'' (resID r) @ omitempty ''result'' (resResult r)
       @ omitempty ''error'' (map_option rpcError_json (resError r)))"

text \<open>
  Decoding a request. An id of \<open>null\<close> is no id; \<open>F\<close> says what a number beyond \<open>2^53\<close>
  or with a fraction becomes. A value of the wrong type is an error.
\<close>

fun rpc_fields :: "(string \<Rightarrow> string option) \<Rightarrow> (string \<times> json) list \<Rightarrow> rpcRequest \<Rightarrow> rpcRequest option" where
  "rpc_fields F [] r = Some r"
| "rpc_fields F ((k, x) # kvs) r =
     (if fold_name k = fold_name ''jsonrpc'' then
        (case x of JStr s \<Rightarrow> rpc_fields F kvs r | JNull \<Rightarrow> rpc_fields F kvs r | _ \<Rightarrow> None)
      else if fold_name k = fold_name ''id'' then
        (case any_value F x of
           None \<Rightarrow> None
         | Some v \<Rightarrow> rpc_fields F kvs (r\<lparr>rpcID := if v = JNull then None else Some v\<rparr>))
      else if fold_name k = fold_name ''method'' then
        (case x of JStr s \<Rightarrow> rpc_fields F kvs (r\<lparr>rpcMethod := s\<rparr>) | JNull \<Rightarrow> rpc_fields F kvs r | _ \<Rightarrow> None)
      else if fold_name k = fold_name ''params'' then rpc_fields F kvs (r\<lparr>rpcParams := Some x\<rparr>)
      else rpc_fields F kvs r)"

definition zeroRequest :: rpcRequest where
  "zeroRequest = \<lparr>rpcID = None, rpcMethod = [], rpcParams = None\<rparr>"

definition decode_request :: "(string \<Rightarrow> string option) \<Rightarrow> json \<Rightarrow> rpcRequest option" where
  "decode_request F v =
     (case v of
        JObj kvs \<Rightarrow> rpc_fields F kvs zeroRequest
      | JNull \<Rightarrow> Some zeroRequest
      | _ \<Rightarrow> None)"

section \<open>Tools\<close>

record toolsCallParams =
  toolName :: string
  toolArguments :: "json option"

record toolsCallResult =
  resText :: string
  resIsError :: bool

fun params_fields :: "(string \<times> json) list \<Rightarrow> toolsCallParams \<Rightarrow> toolsCallParams option" where
  "params_fields [] p = Some p"
| "params_fields ((k, x) # kvs) p =
     (if fold_name k = fold_name ''name'' then
        (case x of JStr s \<Rightarrow> params_fields kvs (p\<lparr>toolName := s\<rparr>) | JNull \<Rightarrow> params_fields kvs p | _ \<Rightarrow> None)
      else if fold_name k = fold_name ''arguments'' then params_fields kvs (p\<lparr>toolArguments := Some x\<rparr>)
      else params_fields kvs p)"

definition decode_params :: "json option \<Rightarrow> toolsCallParams option" where
  "decode_params v =
     (case v of
        Some (JObj kvs) \<Rightarrow> params_fields kvs \<lparr>toolName = [], toolArguments = None\<rparr>
      | Some JNull \<Rightarrow> Some \<lparr>toolName = [], toolArguments = None\<rparr>
      | _ \<Rightarrow> None)"

text \<open>The text of a raw message; an absent one is empty.\<close>

definition raw_text :: "json option \<Rightarrow> string" where
  "raw_text v = (case v of None \<Rightarrow> [] | Some x \<Rightarrow> Marshal x)"

definition toolsCallResult_json :: "toolsCallResult \<Rightarrow> json" where
  "toolsCallResult_json r =
     JObj ([(''content'', JArr [JObj [(''type'', JStr ''text''), (''text'', JStr (resText r))]])]
       @ (if resIsError r then [(''isError'', JBool True)] else []))"

record mcpServer =
  baseURL :: string
  token :: string

definition mcp_request :: "mcpServer \<Rightarrow> string \<Rightarrow> string \<Rightarrow> json option \<Rightarrow> http_req" where
  "mcp_request s meth path body =
     \<lparr>rqMethod = meth, rqURL = baseURL s @ path,
      rqHeaders = [''Authorization'' \<mapsto> ''Bearer '' @ token s, ''Accept'' \<mapsto> ''application/json'']
        ++ (if body = None then Map.empty else [''Content-Type'' \<mapsto> ''application/json'']),
      rqBody = map_option Marshal body\<rparr>"

text \<open>\<open>do\<close>: the text of the answer, indented where it is JSON, or an error text.\<close>

definition read_reply :: "http_result \<Rightarrow> (string, string) sum" where
  "read_reply res =
     (case res of
        Unsent e \<Rightarrow> Inl e
      | Answered st status raw \<Rightarrow>
          (if st \<ge> 400 then
             Inl (if fst (decode_error raw) \<noteq> []
                  then fst (decode_error raw) @ '': '' @ snd (decode_error raw)
                  else ''HTTP '' @ Itoa st @ '': '' @ raw)
           else Inr (case Indent raw of Some t \<Rightarrow> t | None \<Rightarrow> raw)))"

definition do_request :: "'w net \<Rightarrow> mcpServer \<Rightarrow> string \<Rightarrow> string \<Rightarrow> json option \<Rightarrow> 'w \<Rightarrow> (string, string) sum \<times> 'w" where
  "do_request N s meth path body w =
     (case refuses_url N (baseURL s @ path) of
        Some e \<Rightarrow> (Inl e, w)
      | None \<Rightarrow>
          (case send N (mcp_request s meth path body) w of (res, w) \<Rightarrow> (read_reply res, w)))"

text \<open>The arguments as a map; numbers in them must be in range.\<close>

fun decode_args :: "(string \<Rightarrow> string option) \<Rightarrow> (string \<times> json) list \<Rightarrow> (string \<rightharpoonup> json) \<Rightarrow> (string \<rightharpoonup> json) option" where
  "decode_args F [] m = Some m"
| "decode_args F ((k, x) # kvs) m =
     (case any_value F x of None \<Rightarrow> None | Some v \<Rightarrow> decode_args F kvs (m(k \<mapsto> v)))"

definition tool_args :: "(string \<Rightarrow> string option) \<Rightarrow> json option \<Rightarrow> (string \<rightharpoonup> json) option" where
  "tool_args F v =
     (case v of
        None \<Rightarrow> Some Map.empty
      | Some JNull \<Rightarrow> Some Map.empty
      | Some (JObj kvs) \<Rightarrow> decode_args F kvs Map.empty
      | _ \<Rightarrow> None)"

definition string_arg :: "(string \<rightharpoonup> json) \<Rightarrow> string \<Rightarrow> string" where
  "string_arg args k = (case args k of Some (JStr s) \<Rightarrow> s | _ \<Rightarrow> [])"

text \<open>One case of \<open>callTool\<close>: a check of the arguments, then a request.\<close>

definition tool_call :: "bool \<Rightarrow> string \<Rightarrow> ('w \<Rightarrow> (string, string) sum \<times> 'w) \<Rightarrow> 'w \<Rightarrow> (string, string) sum \<times> 'w" where
  "tool_call bad msg k w = (if bad then (Inl msg, w) else k w)"

definition callTool ::
    "'w net \<Rightarrow> (string \<Rightarrow> string option) \<Rightarrow> mcpServer \<Rightarrow> toolsCallParams \<Rightarrow> 'w \<Rightarrow> (string, string) sum \<times> 'w" where
  "callTool N F s p w =
     (if token s = [] then (Inl ''missing DB_ISOLATION_TOKEN'', w)
      else case tool_args F (toolArguments p) of
        None \<Rightarrow> (Inl (''invalid arguments: '' @ json_error N (raw_text (toolArguments p))), w)
      | Some args \<Rightarrow>
          (let name = string_arg args ''name''; confirm = string_arg args ''confirm'' in
           if toolName p = ''database_list'' then do_request N s ''GET'' ''/v1/databases'' None w
           else if toolName p = ''database_status'' then
             tool_call (name = []) ''name is required''
               (do_request N s ''GET'' (''/v1/databases/'' @ name) None) w
           else if toolName p = ''database_create'' then
             tool_call (name = []) ''name is required''
               (do_request N s ''POST'' ''/v1/databases'' (Some (JObj [(''name'', JStr name)]))) w
           else if toolName p = ''database_rotate'' then
             tool_call (name = []) ''name is required''
               (do_request N s ''POST'' (''/v1/databases/'' @ name @ ''/rotate'') None) w
           else if toolName p = ''database_delete'' then
             tool_call (name = [] \<or> confirm = []) ''name and confirm are required''
               (do_request N s ''DELETE'' (''/v1/databases/'' @ name) (Some (JObj [(''confirm'', JStr confirm)]))) w
           else (Inl (''unknown tool: '' @ toolName p), w)))"

text \<open>The descriptions of the tools; the keys of a map are written in order.\<close>

definition stringProp :: "string \<Rightarrow> json" where
  "stringProp desc = JObj [(''description'', JStr desc), (''type'', JStr ''string'')]"

definition mcpTool :: "string \<Rightarrow> string \<Rightarrow> (string \<times> json) list \<Rightarrow> string list \<Rightarrow> json" where
  "mcpTool name desc props required =
     JObj [(''name'', JStr name), (''description'', JStr desc),
       (''inputSchema'', JObj ([(''type'', JStr ''object''), (''properties'', JObj props)]
          @ (if required = [] then [] else [(''required'', JArr (map JStr required))])))]"

text \<open>The dash in the description of \<open>database_create\<close> is not ASCII.\<close>

definition tools :: "json list" where
  "tools =
     [mcpTool ''database_list''
        (''List all provisioned database projects. Returns name, database, user, status. ''
         @ ''Never returns passwords.'') [] [],
      mcpTool ''database_status''
        (''Get the status of a single database project by name. Returns name, database, user, ''
         @ ''secret_path, status. Never returns passwords.'')
        [(''name'', stringProp ''project name (e.g. opcos)'')] [''name''],
      mcpTool ''database_create''
        (''Create a new database project. The server provisions a dedicated MySQL database and ''
         @ ''user. The response NEVER contains the password '' @ [CHR 0xE2, CHR 0x80, CHR 0x94]
         @ '' applications must read the on-disk secret '' @ ''file (0600) on the server to obtain their credentials.'')
        [(''name'', stringProp ''project name (a-z, 0-9, -, _)'')] [''name''],
      mcpTool ''database_rotate''
        (''Rotate the database user password and rewrite the on-disk secret file. The new ''
         @ ''password is never returned.'')
        [(''name'', stringProp ''project name'')] [''name''],
      mcpTool ''database_delete''
        (''DESTRUCTIVE: drop the database, user, secret file, and metadata. ''
         @ ''Only call this when the user has explicitly asked to delete a database. ''
         @ ''Requires BOTH `name` and `confirm` to match exactly.'')
        [(''confirm'', stringProp ''must equal the project name exactly''), (''name'', stringProp ''project name'')]
        [''name'', ''confirm'']]"

section \<open>The server\<close>

definition initializeResult :: json where
  "initializeResult =
     JObj [(''protocolVersion'', JStr ''2024-11-05''),
       (''serverInfo'', JObj [(''name'', JStr ''db-isolation''), (''version'', JStr ''0.1.0'')]),
       (''capabilities'', JObj [(''tools'', JObj [])])]"

definition mkErr :: "rpcRequest \<Rightarrow> int \<Rightarrow> string \<Rightarrow> string option \<Rightarrow> rpcResponse" where
  "mkErr req ec msg dat =
     \<lparr>resID = rpcID req, resResult = None, resError = Some \<lparr>errCode = ec, errMessage = msg, errData = dat\<rparr>\<rparr>"

definition mkOK :: "rpcRequest \<Rightarrow> json \<Rightarrow> rpcResponse" where
  "mkOK req v = \<lparr>resID = rpcID req, resResult = Some v, resError = None\<rparr>"

definition handle ::
    "'w net \<Rightarrow> (string \<Rightarrow> string option) \<Rightarrow> mcpServer \<Rightarrow> rpcRequest \<Rightarrow> 'w \<Rightarrow> rpcResponse option \<times> 'w" where
  "handle N F s req w =
     (if rpcMethod req = ''initialize'' then (Some (mkOK req initializeResult), w)
      else if rpcMethod req = ''notifications/initialized'' then (None, w)
      else if rpcMethod req = ''tools/list'' then (Some (mkOK req (JObj [(''tools'', JArr tools)])), w)
      else if rpcMethod req = ''tools/call'' then
        (case decode_params (rpcParams req) of
           None \<Rightarrow> (Some (mkErr req invalidRequest ''invalid params'' (Some (json_error N (raw_text (rpcParams req))))), w)
         | Some p \<Rightarrow>
             (case callTool N F s p w of
                (Inl e, w) \<Rightarrow> (Some (mkOK req (toolsCallResult_json \<lparr>resText = ''error: '' @ e, resIsError = True\<rparr>)), w)
              | (Inr t, w) \<Rightarrow> (Some (mkOK req (toolsCallResult_json \<lparr>resText = t, resIsError = False\<rparr>)), w)))
      else if rpcMethod req = ''ping'' then (Some (mkOK req (JObj [])), w)
      else (Some (mkErr req methodNotFound (''unknown method: '' @ rpcMethod req) None), w))"

text \<open>How \<open>run\<close> ends: at the end of the input, on an input it cannot decode, or on an output
  that fails; \<open>writes k\<close> says whether the output number \<open>k\<close> is written.\<close>

datatype ending = EndOfInput | DecodeFailed | EncodeFailed

definition run_step ::
    "'w net \<Rightarrow> (string \<Rightarrow> string option) \<Rightarrow> mcpServer \<Rightarrow> string \<Rightarrow> 'w
      \<Rightarrow> (ending, rpcResponse option \<times> 'w \<times> string) sum" where
  "run_step N F s inp w =
     (if skip inp = [] then Inl EndOfInput
      else case DecodeValue inp of
        None \<Rightarrow> Inl DecodeFailed
      | Some (v, rest) \<Rightarrow>
          (case decode_request F v of
             None \<Rightarrow> Inl DecodeFailed
           | Some req \<Rightarrow> (case handle N F s req w of (resp, w') \<Rightarrow> Inr (resp, w', rest))))"

lemma DecodeValue_length: "DecodeValue s = Some (v, t) \<Longrightarrow> length t < length s"
  unfolding DecodeValue_def by (rule read_length)

lemma run_step_length: "run_step N F s inp w = Inr (resp, w', rest) \<Longrightarrow> length rest < length inp"
  by (auto simp: run_step_def dest!: DecodeValue_length split: if_splits option.splits prod.splits)

function mcp_loop ::
    "'w net \<Rightarrow> (string \<Rightarrow> string option) \<Rightarrow> mcpServer \<Rightarrow> (nat \<Rightarrow> bool) \<Rightarrow> nat \<Rightarrow> string \<Rightarrow> 'w
      \<Rightarrow> rpcResponse list \<times> ending \<times> 'w" where
  "mcp_loop N F s writes k inp w =
     (case run_step N F s inp w of
        Inl e \<Rightarrow> ([], e, w)
      | Inr (None, w', rest) \<Rightarrow> mcp_loop N F s writes k rest w'
      | Inr (Some resp, w', rest) \<Rightarrow>
          (if writes k then
             (case mcp_loop N F s writes (Suc k) rest w' of (rs, x) \<Rightarrow> (resp # rs, x))
           else ([], EncodeFailed, w')))"
  by pat_completeness auto
termination
  by (relation "measure (\<lambda>(N, F, s, writes, k, inp, w). length inp)") (auto dest: run_step_length)

declare mcp_loop.simps [simp del]

text \<open>What \<open>run\<close> writes, each response on a line of its own, and how it ends.\<close>

definition mcp_run ::
    "'w net \<Rightarrow> (string \<Rightarrow> string option) \<Rightarrow> mcpServer \<Rightarrow> (nat \<Rightarrow> bool) \<Rightarrow> string \<Rightarrow> 'w \<Rightarrow> string \<times> ending \<times> 'w" where
  "mcp_run N F s writes inp w =
     (case mcp_loop N F s writes 0 inp w of
        (rs, x) \<Rightarrow> (concat (map (Encode \<circ> rpcResponse_json) rs), x))"

section \<open>The process\<close>

definition envOr :: "(string \<rightharpoonup> string) \<Rightarrow> string \<Rightarrow> string \<Rightarrow> string" where
  "envOr env key def = (case env key of Some v \<Rightarrow> if v \<noteq> [] then v else def | None \<Rightarrow> def)"

text \<open>The adapter that the command line and the environment set up. None: package \<open>flag\<close> ended the
  process.\<close>

definition mcp_setup :: "(string \<rightharpoonup> string) \<Rightarrow> string list \<Rightarrow> mcpServer option" where
  "mcp_setup env args =
     (case parse_flags [(''url'', FString), (''token'', FString)] [] args of
        None \<Rightarrow> None
      | Some (vals, _) \<Rightarrow>
          (let url = string_flag vals ''url'' (envOr env ''DB_ISOLATION_URL'' ''http://127.0.0.1:8787'');
               tok = string_flag vals ''token'' (envOr env ''DB_ISOLATION_TOKEN'' []) in
           Some \<lparr>baseURL = TrimRight url ''/'', token = tok\<rparr>))"

text \<open>The output, the exit code and the world.\<close>

definition mcp_main ::
    "'w net \<Rightarrow> (string \<Rightarrow> string option) \<Rightarrow> (nat \<Rightarrow> bool) \<Rightarrow> (string \<rightharpoonup> string) \<Rightarrow> string list \<Rightarrow> string \<Rightarrow> 'w
      \<Rightarrow> (string \<times> nat \<times> 'w) option" where
  "mcp_main N F writes env args inp w =
     (case mcp_setup env args of
        None \<Rightarrow> None
      | Some s \<Rightarrow>
          (case mcp_run N F s writes inp w of
             (o', e, w') \<Rightarrow> Some (o', if e = EndOfInput then 0 else 1, w')))"

section \<open>Every request is answered\<close>

text \<open>The line a client writes for a request.\<close>

definition request_json :: "rpcRequest \<Rightarrow> json" where
  "request_json r =
     JObj ([(''jsonrpc'', JStr ''2.0'')] @ omitempty ''id'' (rpcID r) @ [(''method'', JStr (rpcMethod r))]
       @ omitempty ''params'' (rpcParams r))"

text \<open>An id that survives decoding: a text, or an integer up to \<open>2^53\<close>.\<close>

fun exact_id :: "json \<Rightarrow> bool" where
  "exact_id (JStr s) = ascii s"
| "exact_id (JNum n) = (int_text n \<and> nat_of_digits (if HasPrefix n ''-'' then tl n else n) \<le> 2 ^ 53)"
| "exact_id _ = False"

definition plain_request :: "rpcRequest \<Rightarrow> bool" where
  "plain_request r \<longleftrightarrow>
     ascii (rpcMethod r) \<and> pred_option exact_id (rpcID r)
     \<and> pred_option (\<lambda>p. plain_json p \<and> depth p < max_depth) (rpcParams r)"

lemma exact_id_value: "exact_id v \<Longrightarrow> any_value F v = Some v \<and> plain_json v \<and> depth v = 0 \<and> v \<noteq> JNull"
  by (cases v) (auto simp: number_text_def int_text_def Let_def)

lemma decode_request_json: "plain_request r \<Longrightarrow> decode_request F (request_json r) = Some r"
  by (cases r; cases "rpcID r"; cases "rpcParams r")
    (simp_all add: plain_request_def decode_request_def request_json_def omitempty_def fold_name_eq zeroRequest_def
      exact_id_value)

lemma request_json_plain: "plain_request r \<Longrightarrow> plain_json (request_json r) \<and> depth (request_json r) \<le> max_depth"
  by (cases "rpcID r"; cases "rpcParams r")
    (auto simp: plain_request_def request_json_def omitempty_def max_depth_def dest: exact_id_value)

lemma DecodeValue_space: "json_space c \<Longrightarrow> DecodeValue (c # t) = DecodeValue t"
proof -
  assume c: "json_space c"
  have "2 * length (c # t) + 2 = Suc (2 * length t + 3)" by simp
  then have "DecodeValue (c # t) = read_value (Suc (2 * length t + 3)) max_depth (c # t)"
    unfolding DecodeValue_def by (rule arg_cong)
  also have "\<dots> = read_value (Suc (2 * length t + 3)) max_depth t"
    using c by (simp only: read_value.simps skip_def dropWhile.simps if_True)
  also have "\<dots> = DecodeValue t"
    unfolding DecodeValue_def by (rule read_value_enough) simp
  finally show ?thesis .
qed

lemma DecodeValue_request:
  assumes "plain_request r"
  shows "DecodeValue (Encode (request_json r) @ t) = Some (request_json r, CHR 0x0A # t)"
    and "skip (Encode (request_json r) @ t) \<noteq> []"
proof -
  note p = request_json_plain [OF assms]
  have "DecodeValue (Marshal (request_json r) @ CHR 0x0A # t) = Some (request_json r, CHR 0x0A # t)"
    using p by (intro DecodeValue_Marshal) simp_all
  moreover have "skip (Marshal (request_json r) @ CHR 0x0A # t) \<noteq> []"
    using skip_Marshal [of "request_json r"] Marshal_hd [of "request_json r"] p by auto
  ultimately show "DecodeValue (Encode (request_json r) @ t) = Some (request_json r, CHR 0x0A # t)"
    "skip (Encode (request_json r) @ t) \<noteq> []" by (simp_all add: Encode_def)
qed

text \<open>The requests that the decoder reads from an input, and where it stops.\<close>

function requests_in :: "(string \<Rightarrow> string option) \<Rightarrow> string \<Rightarrow> rpcRequest list \<times> ending" where
  "requests_in F inp =
     (if skip inp = [] then ([], EndOfInput)
      else case DecodeValue inp of
        None \<Rightarrow> ([], DecodeFailed)
      | Some (v, rest) \<Rightarrow>
          (case decode_request F v of
             None \<Rightarrow> ([], DecodeFailed)
           | Some req \<Rightarrow> (case requests_in F rest of (rs, e) \<Rightarrow> (req # rs, e))))"
  by pat_completeness auto
termination
  by (relation "measure (\<lambda>(F, inp). length inp)") (auto dest: DecodeValue_length)

declare requests_in.simps [simp del]

lemma requests_in_space: "json_space c \<Longrightarrow> requests_in F (c # t) = requests_in F t"
  by (subst (1 2) requests_in.simps) (simp add: DecodeValue_space skip_def)

text \<open>Lines of requests are read as these requests, whatever follows.\<close>

definition request_lines :: "rpcRequest list \<Rightarrow> string" where
  "request_lines rs = concat (map (\<lambda>r. Encode (request_json r)) rs)"

lemma requests_in_lines:
  "list_all plain_request rs \<Longrightarrow>
     requests_in F (request_lines rs @ t) = (rs @ fst (requests_in F t), snd (requests_in F t))"
proof (induction rs)
  case (Cons r rs)
  then have r: "plain_request r" by simp
  have "json_space (CHR 0x0A)" by (simp add: json_space_def)
  from requests_in_space [OF this] Cons have
    "requests_in F (CHR 0x0A # (request_lines rs @ t)) = (rs @ fst (requests_in F t), snd (requests_in F t))" by simp
  moreover have "request_lines (r # rs) @ t = Encode (request_json r) @ (request_lines rs @ t)"
    by (simp add: request_lines_def)
  ultimately show ?case
    by (subst requests_in.simps)
      (simp only: DecodeValue_request [OF r] decode_request_json [OF r] option.case prod.case if_False,
        simp)
qed (simp add: request_lines_def)

text \<open>The requests handled one after the other.\<close>

fun handle_all ::
    "'w net \<Rightarrow> (string \<Rightarrow> string option) \<Rightarrow> mcpServer \<Rightarrow> rpcRequest list \<Rightarrow> 'w \<Rightarrow> rpcResponse list \<times> 'w" where
  "handle_all N F s [] w = ([], w)"
| "handle_all N F s (r # rs) w =
     (case handle N F s r w of
        (resp, w1) \<Rightarrow>
          (case handle_all N F s rs w1 of
             (out, w2) \<Rightarrow> (case resp of None \<Rightarrow> out | Some a \<Rightarrow> a # out, w2)))"

definition response_lines :: "rpcResponse list \<Rightarrow> string" where
  "response_lines rs = concat (map (\<lambda>r. Encode (rpcResponse_json r)) rs)"

lemma mcp_loop_all:
  assumes "\<And>k. writes k"
  shows "mcp_loop N F s writes k inp w
    = (fst (handle_all N F s (fst (requests_in F inp)) w), snd (requests_in F inp),
       snd (handle_all N F s (fst (requests_in F inp)) w))"
proof (induction F inp arbitrary: k w rule: requests_in.induct)
  case (1 F inp)
  show ?case
  proof (cases "skip inp = []")
    case True
    then show ?thesis by (simp add: mcp_loop.simps requests_in.simps run_step_def)
  next
    case False
    show ?thesis
    proof (cases "DecodeValue inp")
      case None
      with False show ?thesis by (simp add: mcp_loop.simps requests_in.simps run_step_def)
    next
      case (Some a)
      obtain v rest where a: "a = (v, rest)" by fastforce
      show ?thesis
      proof (cases "decode_request F v")
        case None
        with False Some a show ?thesis by (simp add: mcp_loop.simps requests_in.simps run_step_def)
      next
        case (Some req)
        note IH = 1 [OF False \<open>DecodeValue inp = Some a\<close> a [symmetric] Some]
        obtain resp w1 where h: "handle N F s req w = (resp, w1)" by (metis surj_pair)
        have st: "run_step N F s inp w = Inr (resp, w1, rest)"
          using False \<open>DecodeValue inp = Some a\<close> a Some h by (simp add: run_step_def)
        obtain rs e where rest: "requests_in F rest = (rs, e)" by (metis surj_pair)
        have rq: "requests_in F inp = (req # rs, e)"
          using False \<open>DecodeValue inp = Some a\<close> a Some rest by (subst requests_in.simps) simp
        show ?thesis
          by (subst mcp_loop.simps)
            (cases resp; cases "handle_all N F s rs w1"; simp add: st rq h assms IH rest)
      qed
    qed
  qed
qed

lemma handle_answer:
  "case fst (handle N F s r w) of
     None \<Rightarrow> rpcMethod r = ''notifications/initialized''
   | Some a \<Rightarrow> rpcMethod r \<noteq> ''notifications/initialized'' \<and> resID a = rpcID r \<and> (resResult a = None) \<noteq> (resError a = None)"
  by (auto simp: handle_def mkOK_def mkErr_def split: option.split sum.split prod.split)

lemma handle_all_answers:
  "map resID (fst (handle_all N F s rs w)) = map rpcID (filter (\<lambda>r. rpcMethod r \<noteq> ''notifications/initialized'') rs)
   \<and> list_all (\<lambda>a. (resResult a = None) \<noteq> (resError a = None)) (fst (handle_all N F s rs w))"
proof (induction rs arbitrary: w)
  case (Cons r rs)
  obtain resp w1 where h: "handle N F s r w = (resp, w1)" by (metis surj_pair)
  show ?case using Cons.IH [of w1] handle_answer [where N = N and F = F and s = s and r = r and w = w]
    by (auto simp: h split: option.splits prod.splits)
qed simp

text \<open>C24: while its output can be written, the adapter answers every request it reads, in order: for
  any input, it reads requests up to the end or the first text that is no request, writes one
  line for each that is not the initialized notification, with the id of the request and
  either a result or an error, and leaves the world that handling the requests one after the
  other leaves. Of lines that an encoder writes for requests, with an ASCII method, a text or an
  integer up to \<open>2^53\<close> as id, and parameters of ASCII texts, each one is read.\<close>

theorem mcp_answers_every_request:
  assumes "\<forall>k. writes k" and "requests_in F inp = (rs, e)"
  shows "(\<exists>as. mcp_run N F s writes inp w = (response_lines as, e, snd (handle_all N F s rs w))
      \<and> map resID as = map rpcID (filter (\<lambda>r. rpcMethod r \<noteq> ''notifications/initialized'') rs)
      \<and> list_all (\<lambda>a. (resResult a = None) \<noteq> (resError a = None)) as)
    \<and> (list_all plain_request ps \<longrightarrow> requests_in F (request_lines ps @ inp) = (ps @ rs, e))"
proof -
  have "mcp_run N F s writes inp w = (response_lines (fst (handle_all N F s rs w)), e, snd (handle_all N F s rs w))"
    using mcp_loop_all [of writes N F s 0 inp w] assms by (simp add: mcp_run_def response_lines_def comp_def)
  moreover have "list_all plain_request ps \<longrightarrow> requests_in F (request_lines ps @ inp) = (ps @ rs, e)"
    using requests_in_lines [of ps F inp] assms(2) by simp
  ultimately show ?thesis using handle_all_answers [of N F s rs w] by blast
qed

definition demo_rpc :: "rpcRequest list" where
  "demo_rpc =
     [\<lparr>rpcID = Some (JNum ''1''), rpcMethod = ''ping'', rpcParams = None\<rparr>,
      \<lparr>rpcID = None, rpcMethod = ''notifications/initialized'', rpcParams = None\<rparr>]"

theorem mcp_answers_every_request_witness:
  "\<exists>as. mcp_run (loopback reference_env ''http://h'' ''c'') (\<lambda>_. None) \<lparr>baseURL = ''http://h'', token = ''t''\<rparr> (\<lambda>_. True)
      (request_lines demo_rpc) fresh_world
    = (response_lines as, EndOfInput, fresh_world) \<and> map resID as = [Some (JNum ''1'')]"
proof -
  have p: "list_all plain_request demo_rpc"
    by (simp add: demo_rpc_def plain_request_def int_text_def HasPrefix_def char_class_defs nat_of_digits_def digit_val_def)
  have a: "snd (handle_all N F s demo_rpc w) = w" for N :: "'w net" and F s and w :: 'w
    by (simp add: demo_rpc_def handle_def split: prod.split)
  have f: "map rpcID (filter (\<lambda>r. rpcMethod r \<noteq> ''notifications/initialized'') demo_rpc) = [Some (JNum ''1'')]"
    by (simp add: demo_rpc_def)
  have e: "requests_in F [] = ([], EndOfInput)" for F by (simp add: requests_in.simps skip_def)
  have "\<forall>k. (\<lambda>_ :: nat. True) k" by simp
  note t = mcp_answers_every_request [OF this, where N = "loopback reference_env ''http://h'' ''c''"
      and F = "\<lambda>_. None" and s = "\<lparr>baseURL = ''http://h'', token = ''t''\<rparr>" and w = fresh_world]
  from t [OF e, of demo_rpc] p have "requests_in (\<lambda>_. None) (request_lines demo_rpc) = (demo_rpc, EndOfInput)" by simp
  from t [OF this, THEN conjunct1, unfolded a f]
  show ?thesis by (elim exE conjE) (intro exI conjI; assumption)
qed

text \<open>An input that is no request, a line of broken JSON or a method that is not a string,
  ends the adapter: everything behind it stays unread and unanswered.\<close>

theorem bad_input_ends_server:
  assumes "list_all plain_request rs" and "\<forall>k. writes k"
    and "skip bad \<noteq> []" and "DecodeValue bad = None \<or> (\<exists>v rest. DecodeValue bad = Some (v, rest) \<and> decode_request F v = None)"
  shows "mcp_run N F s writes (request_lines rs @ bad) w
    = (response_lines (fst (handle_all N F s rs w)), DecodeFailed, snd (handle_all N F s rs w))"
proof -
  have "requests_in F bad = ([], DecodeFailed)" using assms(3,4) by (auto simp: requests_in.simps)
  with requests_in_lines [OF assms(1), of F bad] mcp_loop_all [of writes N F s 0 "request_lines rs @ bad" w] assms(2)
  show ?thesis by (simp add: mcp_run_def response_lines_def comp_def)
qed

theorem bad_input_ends_server_witness:
  "fst (snd (mcp_run (loopback reference_env ''http://h'' ''c'') (\<lambda>_. None) \<lparr>baseURL = ''http://h'', token = ''t''\<rparr> (\<lambda>_. True)
      (request_lines [] @ ''{'' @ request_lines demo_rpc) fresh_world)) = DecodeFailed"
proof -
  have "DecodeValue (''{'' @ request_lines demo_rpc) = None \<or> (\<exists>v rest. DecodeValue (''{'' @ request_lines demo_rpc) = Some (v, rest)
      \<and> decode_request (\<lambda>_. None) v = None)"
    by (simp add: DecodeValue_def request_lines_def demo_rpc_def Encode_def request_json_def skip_def json_space_def HasPrefix_def)
  moreover have "skip (''{'' @ request_lines demo_rpc) \<noteq> []" by (simp add: skip_def json_space_def)
  moreover have "list_all plain_request []" "\<forall>k. (\<lambda>_ :: nat. True) k" by simp_all
  ultimately show ?thesis using bad_input_ends_server by (metis fst_conv snd_conv)
qed

end
