(* ===== verification/Clients.thy ===== *)
theory Clients
  imports Dbi Mcp
begin

text \<open>
  The two clients against each other, and the command line against the server: the adapter and
  the command line send the same requests, and what a successful run of the command line means
  for the projects, when the network delivers its requests to \<open>Routes\<close>.
\<close>

section \<open>The same requests\<close>

datatype operation =
    OpList
  | OpStatus string
  | OpCreate string
  | OpRotate string
  | OpDelete string string

fun command_line :: "operation \<Rightarrow> string list" where
  "command_line OpList = [''list'']"
| "command_line (OpStatus n) = [''status'', n]"
| "command_line (OpCreate n) = [''create'', n]"
| "command_line (OpRotate n) = [''rotate'', n]"
| "command_line (OpDelete n c) = [''delete'', n, ''--confirm'', c]"

fun tool_params :: "operation \<Rightarrow> toolsCallParams" where
  "tool_params OpList = \<lparr>toolName = ''database_list'', toolArguments = None\<rparr>"
| "tool_params (OpStatus n) = \<lparr>toolName = ''database_status'', toolArguments = Some (JObj [(''name'', JStr n)])\<rparr>"
| "tool_params (OpCreate n) = \<lparr>toolName = ''database_create'', toolArguments = Some (JObj [(''name'', JStr n)])\<rparr>"
| "tool_params (OpRotate n) = \<lparr>toolName = ''database_rotate'', toolArguments = Some (JObj [(''name'', JStr n)])\<rparr>"
| "tool_params (OpDelete n c) =
     \<lparr>toolName = ''database_delete'', toolArguments = Some (JObj [(''name'', JStr n), (''confirm'', JStr c)])\<rparr>"

fun named :: "operation \<Rightarrow> bool" where
  "named OpList = True"
| "named (OpStatus n) = (n \<noteq> [])"
| "named (OpCreate n) = (n \<noteq> [])"
| "named (OpRotate n) = (n \<noteq> [])"
| "named (OpDelete n c) = (n \<noteq> [] \<and> c \<noteq> [])"

text \<open>Both clients set up by the same environment.\<close>

definition client_env :: "string \<Rightarrow> string \<Rightarrow> (string \<rightharpoonup> string)" where
  "client_env url tok = [''DB_ISOLATION_URL'' \<mapsto> url, ''DB_ISOLATION_TOKEN'' \<mapsto> tok]"

definition dbi_flags :: "string \<Rightarrow> string \<Rightarrow> globalFlags" where
  "dbi_flags url tok = \<lparr>gURL = url, gToken = tok, gJSON = False\<rparr>"

text \<open>The adapter with a URL and a token.\<close>

definition mcp_server :: "string \<Rightarrow> string \<Rightarrow> mcpServer" where
  "mcp_server url tok = \<lparr>baseURL = TrimRight url ''/'', token = tok\<rparr>"

lemma flags_of_any_env:
  "flags_of env [] = dbi_flags (envDefault env ''DB_ISOLATION_URL'' ''http://127.0.0.1:8787'')
     (envDefault env ''DB_ISOLATION_TOKEN'' [])"
  by (simp add: flags_of_def dbi_flags_def string_flag_def bool_flag_def)

lemma flags_of_env: "flags_of (client_env url tok) [] = dbi_flags url tok"
  by (simp add: flags_of_any_env client_env_def envDefault_def)

text \<open>The two defaults differ only on a variable that is set and empty.\<close>

lemma envOr_envDefault: "env key \<noteq> Some [] \<Longrightarrow> envOr env key d = envDefault env key d"
  by (auto simp: envOr_def envDefault_def split: option.split)

lemma mcp_setup_env:
  "mcp_setup env [] = Some (mcp_server (envOr env ''DB_ISOLATION_URL'' ''http://127.0.0.1:8787'')
     (envOr env ''DB_ISOLATION_TOKEN'' []))"
  by (simp add: mcp_setup_def mcp_server_def string_flag_def)

lemma dispatch_any_operation:
  "dispatchMain N env (command_line op) w
   = run_command N (flags_of env []) (hd (command_line op)) (tl (command_line op)) w"
  by (cases op) (simp_all add: dispatchMain_def find_word word_def)

lemmas dispatch_operation = dispatch_any_operation [where env = "client_env url tok" for url tok, unfolded flags_of_env]

lemma same_request: "mcp_request (mcp_server url tok) meth path body = api_request (dbi_flags url tok) meth path body"
  by (auto simp: mcp_request_def api_request_def mcp_server_def dbi_flags_def fun_eq_iff map_add_def)

text \<open>What the adapter makes of the same exchange.\<close>

lemma do_request_world:
  assumes "tok \<noteq> []"
  shows "snd (do_request N (mcp_server url tok) meth path body w)
      = runWorld (after_call (apiCallT N (dbi_flags url tok) meth path body decode w) print)"
    and "runExit (after_call (apiCallT N (dbi_flags url tok) meth path body decode w) print) = 0
      \<Longrightarrow> \<exists>t. fst (do_request N (mcp_server url tok) meth path body w) = Inr t"
proof -
  have b: "baseURL (mcp_server url tok) = TrimRight (gURL (dbi_flags url tok)) ''/''" "gToken (dbi_flags url tok) = tok"
    by (simp_all add: mcp_server_def dbi_flags_def)
  have a: "\<exists>t. read_reply res = Inr t" if "read_answer N decode res = Done v" for res v
    using that by (auto simp: read_answer_Done read_reply_def)
  show "snd (do_request N (mcp_server url tok) meth path body w)
      = runWorld (after_call (apiCallT N (dbi_flags url tok) meth path body decode w) print)"
    using assms unfolding do_request_def apiCallT_def same_request b after_call_simps
    by (simp split: option.split prod.split)
  show "\<exists>t. fst (do_request N (mcp_server url tok) meth path body w) = Inr t"
    if "runExit (after_call (apiCallT N (dbi_flags url tok) meth path body decode w) print) = 0"
    using that assms unfolding do_request_def apiCallT_def same_request b after_call_simps
    by (auto split: option.splits prod.splits call.splits dest: a)
qed

text \<open>The same operation, by the adapter and by the command line.\<close>

lemma same_operation:
  assumes "tok \<noteq> []" and "named op"
  shows "snd (callTool N F (mcp_server url tok) (tool_params op) w)
      = runWorld (run_command N (dbi_flags url tok) (hd (command_line op)) (tl (command_line op)) w)"
    and "runExit (run_command N (dbi_flags url tok) (hd (command_line op)) (tl (command_line op)) w) = 0
      \<Longrightarrow> \<exists>t. fst (callTool N F (mcp_server url tok) (tool_params op) w) = Inr t"
proof -
  note w = do_request_world [OF assms(1)]
  let ?run = "run_command N (dbi_flags url tok) (hd (command_line op)) (tl (command_line op)) w"
  have t: "token (mcp_server url tok) = tok" by (simp add: mcp_server_def)
  note d = run_command_def callTool_def t tool_args_def string_arg_def tool_call_def Let_def
  have "snd (callTool N F (mcp_server url tok) (tool_params op) w) = runWorld ?run
    \<and> (runExit ?run = 0 \<longrightarrow> (\<exists>t. fst (callTool N F (mcp_server url tok) (tool_params op) w) = Inr t))"
  proof (cases op)
    case OpList
    then show ?thesis using assms(1) by (auto simp: d cmdList_def simp del: after_call_simps intro: w(1) dest: w(2))
  next
    case (OpStatus n)
    then show ?thesis using assms by (auto simp: d cmdStatus_def simp del: after_call_simps intro: w(1) dest: w(2))
  next
    case (OpCreate n)
    then show ?thesis using assms by (auto simp: d cmdCreate_def simp del: after_call_simps intro: w(1) dest: w(2))
  next
    case (OpRotate n)
    then show ?thesis using assms by (auto simp: d cmdRotate_def simp del: after_call_simps intro: w(1) dest: w(2))
  next
    case (OpDelete n c)
    then show ?thesis using assms by (auto simp: d cmdDelete_def simp del: after_call_simps intro: w(1) dest: w(2))
  qed
  then show "snd (callTool N F (mcp_server url tok) (tool_params op) w) = runWorld ?run"
    "runExit ?run = 0 \<Longrightarrow> \<exists>t. fst (callTool N F (mcp_server url tok) (tool_params op) w) = Inr t"
    by blast+
qed

text \<open>C10: started without flags in the same environment, one that does not set the URL to the empty
  text and does set a token, the adapter and the command line do the same: for each of the five
  operations, with names that are not empty, they send the same request, so that the world
  behind the network ends up the same, and where the command line succeeds the tool call does
  not fail.\<close>

theorem clients_do_the_same:
  assumes "env ''DB_ISOLATION_URL'' \<noteq> Some []" and "env ''DB_ISOLATION_TOKEN'' = Some tok" and "tok \<noteq> []"
    and "named op"
  shows "\<exists>s. mcp_setup env [] = Some s
    \<and> snd (callTool N F s (tool_params op) w) = runWorld (dispatchMain N env (command_line op) w)
    \<and> (runExit (dispatchMain N env (command_line op) w) = 0
        \<longrightarrow> (\<exists>t. fst (callTool N F s (tool_params op) w) = Inr t))"
proof -
  let ?url = "envDefault env ''DB_ISOLATION_URL'' ''http://127.0.0.1:8787''"
  have t: "envOr env ''DB_ISOLATION_TOKEN'' [] = tok" "envDefault env ''DB_ISOLATION_TOKEN'' [] = tok"
    using assms(2,3) by (simp_all add: envOr_def envDefault_def)
  have "mcp_setup env [] = Some (mcp_server ?url tok)"
    using assms(1) by (simp add: mcp_setup_env envOr_envDefault t)
  then show ?thesis
    using same_operation [OF assms(3,4), where N = N and F = F and url = ?url and w = w] by (simp add: dispatch_any_operation flags_of_any_env t)
qed

theorem clients_do_the_same_witness:
  "\<exists>s. mcp_setup (client_env ''http://h'' ''t'') [] = Some s
    \<and> snd (callTool (loopback reference_env ''http://h'' ''c'') (\<lambda>_. None) s (tool_params (OpDelete ''app'' ''app'')) fresh_world)
      = runWorld (dispatchMain (loopback reference_env ''http://h'' ''c'') (client_env ''http://h'' ''t'') (command_line (OpDelete ''app'' ''app'')) fresh_world)"
proof -
  have "named (OpDelete ''app'' ''app'')" "''t'' \<noteq> []" "client_env ''http://h'' ''t'' ''DB_ISOLATION_URL'' \<noteq> Some []"
    "client_env ''http://h'' ''t'' ''DB_ISOLATION_TOKEN'' = Some ''t''" by (simp_all add: client_env_def)
  from clients_do_the_same [OF this(3,4,2,1), where N = "loopback reference_env ''http://h'' ''c''"
      and F = "\<lambda>_. None" and w = fresh_world]
  show ?thesis by (elim exE conjE) (intro exI conjI)
qed

section \<open>From the command line to the projects\<close>

lemma ascii_digits_of: "ascii (digits_of k n)"
proof -
  have "list_all is_digit (digits_of k n)" by (rule digits_of_digit)
  then show ?thesis by (auto simp: ascii_def list_all_iff char_class_defs)
qed

lemma ascii_time: "ascii (formatRFC3339 t)"
  by (simp add: formatRFC3339_def format_secs_def ascii_digits_of Let_def del: digits_of.simps digits_of_numeral)

lemma valid_name_ascii: "valid_name n \<Longrightarrow> ascii n \<and> n \<noteq> []"
  using name_char_range by (force simp: valid_name_iff ascii_def list_all_iff)

lemma identifiers_ascii: "valid_name n \<Longrightarrow> ascii (db_of n) \<and> ascii (user_of n)"
proof -
  assume v: "valid_name n"
  have "code c < 0x80" if "c \<in> set (db_of n) \<union> set (user_of n)" for c
    using identifier_chars [OF v, of c] that by (auto simp: db_of_def user_of_def char_class_defs)
  then show ?thesis by (simp add: ascii_def list_all_iff)
qed

text \<open>The requests of a creation and of a deletion, as the server sees them.\<close>

definition create_http :: "string \<Rightarrow> string \<Rightarrow> string \<Rightarrow> http_req" where
  "create_http url tok n = api_request (dbi_flags url tok) ''POST'' ''/v1/databases'' (Some (JObj [(''name'', JStr n)]))"

definition delete_http :: "string \<Rightarrow> string \<Rightarrow> string \<Rightarrow> string \<Rightarrow> http_req" where
  "delete_http url tok n c =
     api_request (dbi_flags url tok) ''DELETE'' (''/v1/databases/'' @ n) (Some (JObj [(''confirm'', JStr c)]))"

lemma body_value:
  "ascii s \<Longrightarrow> ascii k \<Longrightarrow> DecodeValue (Marshal (JObj [(k, JStr s)])) = Some (JObj [(k, JStr s)], [])"
  using DecodeValue_Marshal [of "JObj [(k, JStr s)]" "[]"] by (simp add: max_depth_def del: Marshal.simps)

lemma plain_paths:
  "plain_segments [''v1'', ''databases'']" "valid_name n \<Longrightarrow> plain_segments [''v1'', ''databases'', n]"
  by (auto simp: plain_segments_def name_char_def char_class_defs valid_name_iff valid_name_ascii)

context delivery
begin

lemma create_http_simps:
  "rqMethod (create_http base tok n) = ''POST''"
  "rqURL (create_http base tok n) = base @ path_of [''v1'', ''databases'']"
  "rqHeaders (create_http base tok n) ''Authorization'' = Some (''Bearer '' @ tok)"
  by (simp_all add: create_http_def api_request_def dbi_flags_def TrimRight_base path_of_def)

lemma create_server_request:
  assumes "ascii n"
  shows "Authorization (server_request ip (create_http base tok n) segs) = ''Bearer '' @ tok"
    and "decode_struct ''name'' (BodyValue (server_request ip (create_http base tok n) segs)) = Some n"
    and "find_route (Method (server_request ip (create_http base tok n) [''v1'', ''databases'']))
        (Segments (server_request ip (create_http base tok n) [''v1'', ''databases''])) = Inr RCreate"
proof -
  have "rqBody (create_http base tok n) = Some (Marshal (JObj [(''name'', JStr n)]))"
    by (simp add: create_http_def api_request_def)
  then show "decode_struct ''name'' (BodyValue (server_request ip (create_http base tok n) segs)) = Some n"
    by (simp add: server_request_def body_value [OF assms] decode_struct_exact del: Marshal.simps)
qed (simp_all add: server_request_def field_def create_http_simps find_route_def patterns_def)

text \<open>A run that creates: its exit code is 0 exactly when the server answered below 400 and the
  client could read the view.\<close>

lemma create_run:
  assumes "tok \<noteq> []"
  shows "dispatchMain N (client_env base tok) [''create'', n] w
    = after_call (read_answer N decode_view (fst (send N (create_http base tok n) w)), snd (send N (create_http base tok n) w))
        (\<lambda>p. line [tick, ''Project: '', pvName p] @ line [tick, ''Database: '', pvDatabase p]
          @ line [tick, ''User: '', pvUser p] @ line [tick, ''Secret: '', pvSecretPath p]
          @ line [tick, ''Status: '', pvStatus p])"
proof -
  have "refuses_url N (TrimRight (gURL (dbi_flags base tok)) ''/'' @ ''/v1/databases'') = None"
    using accepts [OF plain_paths(1)] by (simp add: path_of_def dbi_flags_def TrimRight_base)
  moreover have "gToken (dbi_flags base tok) \<noteq> []" "\<not> gJSON (dbi_flags base tok)"
    using assms by (simp_all add: dbi_flags_def)
  ultimately show ?thesis
    using dispatch_operation [of N base tok "OpCreate n" w]
    by (simp add: run_command_def cmdCreate_def apiCallT_sent create_http_def)
qed

lemma delete_run:
  assumes "tok \<noteq> []" and "c \<noteq> []" and "valid_name n"
  shows "dispatchMain N (client_env base tok) [''delete'', n, ''--confirm'', c] w
    = after_call (read_answer N (\<lambda>_. Some ()) (fst (send N (delete_http base tok n c) w)), snd (send N (delete_http base tok n c) w))
        (\<lambda>_. line [tick, ''Deleted '', n])"
proof -
  have "refuses_url N (TrimRight (gURL (dbi_flags base tok)) ''/'' @ ''/v1/databases/'' @ n) = None"
    using accepts [OF plain_paths(2) [OF assms(3)]] by (simp add: path_of_def dbi_flags_def TrimRight_base)
  moreover have "gToken (dbi_flags base tok) \<noteq> []" using assms by (simp add: dbi_flags_def)
  ultimately show ?thesis
    using dispatch_operation [of N base tok "OpDelete n c" w] assms(2)
    by (simp add: run_command_def cmdDelete_def apiCallT_sent delete_http_def)
qed

text \<open>A deletion, as the server sees it.\<close>

lemma delete_http_simps:
  "rqMethod (delete_http base tok n c) = ''DELETE''"
  "rqURL (delete_http base tok n c) = base @ path_of [''v1'', ''databases'', n]"
  "rqHeaders (delete_http base tok n c) ''Authorization'' = Some (''Bearer '' @ tok)"
  by (simp_all add: delete_http_def api_request_def dbi_flags_def TrimRight_base path_of_def)

lemma delete_server_request:
  assumes "ascii c" and "n \<noteq> []"
  shows "Authorization (server_request ip (delete_http base tok n c) segs) = ''Bearer '' @ tok"
    and "confirmation (server_request ip (delete_http base tok n c) segs) = Some c"
    and "find_route (Method (server_request ip (delete_http base tok n c) [''v1'', ''databases'', n]))
        (Segments (server_request ip (delete_http base tok n c) [''v1'', ''databases'', n])) = Inr (RDelete n)"
proof -
  have "rqBody (delete_http base tok n c) = Some (Marshal (JObj [(''confirm'', JStr c)]))"
    by (simp add: delete_http_def api_request_def)
  then have "BodyValue (server_request ip (delete_http base tok n c) segs) = Some (JObj [(''confirm'', JStr c)])"
    "0 < ContentLength (server_request ip (delete_http base tok n c) segs)"
    using body_value [OF assms(1), of "''confirm''"] by (simp_all add: server_request_def)
  then show "confirmation (server_request ip (delete_http base tok n c) segs) = Some c"
    by (simp add: confirmation_def decode_struct_exact)
qed (use assms in \<open>simp_all add: server_request_def field_def delete_http_simps find_route_def patterns_def\<close>)

end

lemma complete_view:
  assumes "service E view cat" and "service.complete E view cat n pw sts c res w" and "valid_name n" and "ascii (Path (e_dir E) n)"
  shows "ascii_view (toView (Project res))" and "vwName (toView (Project res)) = n"
    and "vwDatabase (toView (Project res)) = db_of n" and "vwUser (toView (Project res)) = user_of n"
    and "vwSecretPath (toView (Project res)) = Path (e_dir E) n" and "vwStatus (toView (Project res)) = StatusReady"
proof -
  note cd = assms(2) [unfolded service.complete_def [OF assms(1)]]
  have nm: "Name (Project res) = n" using cd project_map_name by blast
  with cd show "ascii_view (toView (Project res))"
    using valid_name_ascii [OF assms(3)] identifiers_ascii [OF assms(3)] assms(4)
    by (simp add: ascii_view_def toView_def ascii_time StatusReady_def)
  from cd nm show "vwName (toView (Project res)) = n" "vwDatabase (toView (Project res)) = db_of n"
    "vwUser (toView (Project res)) = user_of n" "vwSecretPath (toView (Project res)) = Path (e_dir E) n"
    "vwStatus (toView (Project res)) = StatusReady"
    by (simp_all add: toView_def)
qed

text \<open>C8: a command \<open>dbi create NAME\<close> that exits 0 against a server reached over a delivering network
  was let in by its token; if the project, of a valid name, did not exist before, it is ready
  now, its database is there, both accounts may use it, and the env file is complete, with the
  password just drawn, which is that of every account that was not there before. The output
  names what was made. The password is not in it.\<close>

theorem dbi_create_end_to_end:
  assumes "service E view cat" and "delivery E base ip N"
    and "valid_name n" and "tok \<noteq> []" and "visible tok" and "ascii (Path (e_dir E) n)"
    and "project_map (view (w_sql w)) n = None"
    and "r = dispatchMain N (client_env base tok) [''create'', n] w" and "runExit r = 0"
  shows "accepted (view (w_sql w)) (''Bearer '' @ tok)
    \<and> (\<exists>p pw. project_map (view (w_sql (runWorld r))) n = Some p \<and> Status p = StatusReady
        \<and> RandomPassword (e_entropy E) (w_draws w) = (Ret pw, w_draws w + 2)
        \<and> provisioned n pw (cat (w_my w)) (cat (w_my (runWorld r)))
        \<and> files (w_disk (runWorld r)) (Path (e_dir E) n) = Some \<lparr>content = renderEnv (secret_of n pw), mode = m0600\<rparr>)
    \<and> runOut r = line [tick, ''Project: '', n] @ line [tick, ''Database: '', db_of n] @ line [tick, ''User: '', user_of n]
        @ line [tick, ''Secret: '', Path (e_dir E) n] @ line [tick, ''Status: '', StatusReady]"
proof -
  note run = delivery.create_run [OF assms(2,4), of n w, folded assms(8)]
  have world: "runWorld r = snd (send N (create_http base tok n) w)" by (simp add: run)
  note rq = delivery.create_http_simps [OF assms(2), of tok n]
  have n: "ascii n" "TrimSpace n = n" using valid_name_ascii valid_name_TrimSpace assms(3) by auto
  note sr = delivery.create_server_request [OF assms(2) n(1), where tok = tok]
  obtain ac st raw p where a: "fst (send N (create_http base tok n) w) = Answered ac st raw" and ok: "ac < 400"
    and p: "decode_view raw = Some p"
    using assms(9) unfolding run by (auto simp: read_answer_Done split: call.splits)
  then have s: "send N (create_http base tok n) w = (Answered ac st raw, runWorld r)" using world by (metis prod.collapse)
  have "rqMethod (create_http base tok n) \<in> {''POST'', ''DELETE''}" by (simp add: rq(1))
  from delivery.answered [OF assms(2) s plain_paths(1) rq(2) this rq(3) assms(5)]
  obtain resp where r: "Routes E (server_request ip (create_http base tok n) [''v1'', ''databases'']) w = (Ret resp, runWorld r)"
    and x: "respStatus resp = ac" "raw = payload_bytes (respBody resp)" .
  from service.Routes_create [OF assms(1) r sr(3)] x(1) ok sr n(2) assms(7) obtain res pw where
    acc: "accepted (view (w_sql w)) (''Bearer '' @ tok)"
    and body: "respBody resp = PProject (toView (Project res))"
    and drawn: "RandomPassword (e_entropy E) (w_draws w) = (Ret pw, w_draws w + 2)"
    and dn: "service.complete E view cat n pw (create_stmts n pw (e_allowDrop E)) (cat (w_my w)) res (runWorld r)"
    by (auto split: if_splits)
  note cd = dn [unfolded service.complete_def [OF assms(1)]] and v = complete_view [OF assms(1) dn assms(3,6)]
  from v(1) have "p = client_view (toView (Project res))"
    using decode_project_bytes p x(2) body by simp
  then have "runOut r = line [tick, ''Project: '', n] @ line [tick, ''Database: '', db_of n] @ line [tick, ''User: '', user_of n]
        @ line [tick, ''Secret: '', Path (e_dir E) n] @ line [tick, ''Status: '', StatusReady]"
    using a ok p v unfolding run by (simp add: client_view_def read_answer_def)
  with acc cd drawn show ?thesis by (auto simp: create_stmts_provisioned [OF assms(3)] env_file_def)
qed

abbreviation local_url :: string where "local_url \<equiv> ''http://127.0.0.1:8787''"

definition local_net :: "(tables, catalog) world net" where
  "local_net = loopback reference_env local_url ''127.0.0.1:9''"

lemma local_delivery: "delivery reference_env local_url ''127.0.0.1:9'' local_net"
  unfolding local_net_def by (rule local_server.delivery_axioms)

lemma local_send:
  assumes "plain_segments segs" and "rqURL rq = local_url @ path_of segs"
    and "Routes reference_env (server_request ''127.0.0.1:9'' rq segs) w = (Ret resp, w')"
  shows "fst (send local_net rq w) = Answered (respStatus resp) (Itoa (respStatus resp)) (payload_bytes (respBody resp))"
  unfolding local_net_def loopback_send [OF assms] by simp

lemma app_names: "valid_name ''app''" "visible ''dbi_x''" "ascii ''app''" "ascii (Path ''/s'' ''app'')"
  using fresh_app(1) by (simp_all add: visible_def Path_def JoinPath_def Clean_def Let_def HasPrefix_def dir_elems_def base_name_def)

theorem dbi_create_end_to_end_witness:
  "\<exists>p. project_map (w_sql (runWorld (dispatchMain local_net (client_env local_url ''dbi_x'') [''create'', ''app'']
      (fresh_world\<lparr>w_sql := one_token\<rparr>)))) ''app'' = Some p \<and> Status p = StatusReady"
proof -
  let ?w = "fresh_world\<lparr>w_sql := one_token\<rparr>"
  let ?rq = "create_http local_url ''dbi_x'' ''app''"
  have sr: "server_request ''127.0.0.1:9'' ?rq [''v1'', ''databases''] = create_request"
    using body_value [of "''app''" "''name''"]
    by (simp add: server_request_def create_http_def api_request_def create_request_def dbi_flags_def field_def
        json_string_def escape_string_ASCII_Cons escape_ascii_def)
  obtain resp w' where r: "Routes reference_env create_request ?w = (Ret resp, w')" "respStatus resp = 201"
    using create_request_created by blast
  have f: "find_route (Method create_request) (Segments create_request) = Inr RCreate"
    by (simp add: find_route_def patterns_def create_request_def)
  have d: "decode_struct ''name'' (BodyValue create_request) = Some ''app''"
    by (simp add: create_request_def decode_struct_exact)
  have none: "project_map (w_sql ?w) ''app'' = None"
    by (simp add: store_op_state table_engine_def table_exec_def one_token_def empty_tables_def
        project_map_def select_project_def)
  from reference_service.Routes_create [OF r(1) f] r(2) d none valid_name_TrimSpace [OF app_names(1)]
  obtain res pw c where b: "respBody resp = PProject (toView (Project res))"
    and "service.complete reference_env (\<lambda>t. t) (\<lambda>c. c) ''app'' pw (create_stmts ''app'' pw False) c res w'"
    by (auto split: if_splits)
  from complete_view(1) [OF reference_service.service_axioms this(2) app_names(1)] app_names(4)
  have "decode_view (payload_bytes (respBody resp)) = Some (client_view (toView (Project res)))"
    by (simp add: b decode_project_bytes del: payload_bytes.simps)
  moreover have "fst (send local_net ?rq ?w) = Answered 201 (Itoa 201) (payload_bytes (respBody resp))"
    using local_send [OF plain_paths(1) delivery.create_http_simps(2) [OF local_delivery] r(1) [folded sr]] r(2) by simp
  ultimately have "runExit (dispatchMain local_net (client_env local_url ''dbi_x'') [''create'', ''app''] ?w) = 0"
    by (simp add: delivery.create_run [OF local_delivery] read_answer_def)
  from dbi_create_end_to_end [OF reference_service.service_axioms local_delivery app_names(1) _ app_names(2) _ none refl this] app_names(4)
  show ?thesis by auto
qed

text \<open>C9: a command \<open>dbi delete NAME --confirm TEXT\<close>, with a valid name and an ASCII text, that exits 0
  against a server reached over a delivering network had a token the server accepts, and the
  name of an existing project as its text, and leaves nothing of the project: no row, no
  database, no account, no grant and no env file.\<close>

theorem dbi_delete_end_to_end:
  assumes "service E view cat" and "delivery E base ip N" and "rows_ok (view (w_sql w))"
    and "valid_name n" and "c \<noteq> []" and "ascii c" and "tok \<noteq> []" and "visible tok"
    and "r = dispatchMain N (client_env base tok) [''delete'', n, ''--confirm'', c] w" and "runExit r = 0"
  shows "accepted (view (w_sql w)) (''Bearer '' @ tok) \<and> c = n
    \<and> project_map (view (w_sql w)) n \<noteq> None \<and> project_map (view (w_sql (runWorld r))) n = None
    \<and> db_of n \<notin> databases (cat (w_my (runWorld r)))
    \<and> (\<forall>h. h \<notin> set hosts \<or> accounts (cat (w_my (runWorld r))) (user_of n, h) = None
         \<and> (\<forall>d. \<not> may_use (cat (w_my (runWorld r))) (user_of n, h) d))
    \<and> files (w_disk (runWorld r)) (Path (e_dir E) n) = None
    \<and> runOut r = line [tick, ''Deleted '', n]"
proof -
  note run = delivery.delete_run [OF assms(2,7,5,4), of w, folded assms(9)]
  note rq = delivery.delete_http_simps [OF assms(2), of tok n c]
  have n: "n \<noteq> []" "TrimSpace n = n" using valid_name_ascii valid_name_TrimSpace assms(4) by auto
  note sr = delivery.delete_server_request [OF assms(2,6) n(1), where tok = tok]
  obtain ac st raw where a: "fst (send N (delete_http base tok n c) w) = Answered ac st raw" and ok: "ac < 400"
    using assms(10) unfolding run by (auto simp: read_answer_Done split: call.splits)
  moreover have "runWorld r = snd (send N (delete_http base tok n c) w)" by (simp add: run)
  ultimately have s: "send N (delete_http base tok n c) w = (Answered ac st raw, runWorld r)" by (metis prod.collapse)
  have "rqMethod (delete_http base tok n c) \<in> {''POST'', ''DELETE''}" by (simp add: rq(1))
  from delivery.answered [OF assms(2) s plain_paths(2) [OF assms(4)] rq(2) this rq(3) assms(8)]
  obtain resp where r: "Routes E (server_request ip (delete_http base tok n c) [''v1'', ''databases'', n]) w = (Ret resp, runWorld r)"
    and x: "respStatus resp = ac" .
  have "respStatus resp < 400" using x ok by simp
  from service.Routes_delete [OF assms(1) r sr(3) this assms(3)] sr(1,2) n(2)
  have "accepted (view (w_sql w)) (''Bearer '' @ tok) \<and> c = n
    \<and> project_map (view (w_sql w)) n \<noteq> None \<and> project_map (view (w_sql (runWorld r))) n = None
    \<and> files (w_disk (runWorld r)) (Path (e_dir E) n) = None
    \<and> (\<exists>k. cat (w_my (runWorld r)) = effects (SDropDatabase (db_of n) # drop_user_stmts (user_of n)) k)"
    by auto
  moreover have "runOut r = line [tick, ''Deleted '', n]"
    using a ok unfolding run by (simp add: read_answer_def)
  ultimately show ?thesis by (auto simp: stmts_defs may_use_def)
qed

definition app_row :: DatabaseProject where
  "app_row = zeroProject\<lparr>Name := ''app'', DatabaseName := db_of ''app'', DatabaseUser := user_of ''app'', Status := StatusReady\<rparr>"

definition app_world :: "(tables, catalog) world" where
  "app_world = fresh_world\<lparr>w_sql := snd (CreateProject table_engine zeroTime app_row one_token)\<rparr>"

lemma app_world_sql:
  "tokens (w_sql app_world) = tokens one_token" "rows_ok (w_sql app_world)"
  "\<exists>p. project_map (w_sql app_world) ''app'' = Some p \<and> DatabaseName p = db_of ''app'' \<and> DatabaseUser p = user_of ''app''"
  using app_names(1)
  by (simp_all add: app_world_def app_row_def zeroProject_def store_op_state table_engine_def table_exec_def one_token_def
      empty_tables_def rows_ok_def project_map_def select_project_def scanProject_def)

theorem dbi_delete_end_to_end_witness:
  "project_map (w_sql app_world) ''app'' \<noteq> None
    \<and> project_map (w_sql (runWorld (dispatchMain local_net (client_env local_url ''dbi_x'')
        [''delete'', ''app'', ''--confirm'', ''app''] app_world))) ''app'' = None"
proof -
  let ?rq = "delete_http local_url ''dbi_x'' ''app'' ''app''"
  let ?r = "server_request ''127.0.0.1:9'' ?rq [''v1'', ''databases'', ''app'']"
  have "''app'' \<noteq> []" by simp
  note sr = delivery.delete_server_request [OF local_delivery app_names(3) this, of "''dbi_x''"]
  obtain p where p: "project_map (w_sql app_world) ''app'' = Some p" "DatabaseName p = db_of ''app''" "DatabaseUser p = user_of ''app''"
    using app_world_sql(3) by blast
  obtain w2 where a: "\<And>k. requireAuth reference_env k ?r app_world = k ?r w2"
    and pm: "project_map (w_sql w2) = project_map (w_sql app_world)"
    by (rule ref_requireAuth [of ?r app_world]) (simp_all add: sr app_world_sql)
  have "\<exists>w3. Service_Delete reference_env ''app'' ''app'' (clientIP ?r) w2 = (Ret (), w3)"
    by (rule ref_Delete [OF app_names(1) _ _ p(2,3)]) (simp_all add: pm p(1))
  then obtain w3 where d: "Service_Delete reference_env ''app'' ''app'' (clientIP ?r) w2 = (Ret (), w3)" ..
  have "ValidateProjectName ''app'' = None" using app_names(1) by simp
  then have "deleteDatabase reference_env ''app'' ?r w2 = (Ret \<lparr>respStatus = 204, respBody = PEmpty\<rparr>, w3)"
    using d sr(2) by (simp add: deleteDatabase_def valid_name_TrimSpace [OF app_names(1)])
  then have "mux reference_env ?r app_world = (Ret \<lparr>respStatus = 204, respBody = PEmpty\<rparr>, w3)"
    unfolding mux_def sr(3) by (simp add: a)
  then have "\<exists>w4. Routes reference_env ?r app_world = (Ret \<lparr>respStatus = 204, respBody = PEmpty\<rparr>, w4)"
    by (simp add: Routes_def logRequest_def)
  then obtain w4 where "Routes reference_env ?r app_world = (Ret \<lparr>respStatus = 204, respBody = PEmpty\<rparr>, w4)" ..
  from local_send [OF plain_paths(2) [OF app_names(1)] delivery.delete_http_simps(2) [OF local_delivery] this]
  have "runExit (dispatchMain local_net (client_env local_url ''dbi_x'') [''delete'', ''app'', ''--confirm'', ''app''] app_world) = 0"
    using delivery.delete_run [OF local_delivery _ _ app_names(1), of "''dbi_x''" "''app''" app_world] by (simp add: read_answer_def)
  from dbi_delete_end_to_end [OF reference_service.service_axioms local_delivery app_world_sql(2) app_names(1) _ app_names(3) _ app_names(2) refl this]
  show ?thesis by simp
qed

end
