(* ===== verification/Opening.thy ===== *)
theory Opening
  imports ServerMain World
begin

text \<open>
  The constructors the server command calls before it serves, and their \<open>Close\<close> methods:
  \<open>store.Open\<close> with its schema, \<open>audit.New\<close>, \<open>mysqlx.New\<close>, \<open>secrets.New\<close> and
  \<open>provision.New\<close>. What the operating system and the drivers answer is an argument; a
  constructor answers its value or error with the list of what it did, so that one can say
  which handles it leaves open.
\<close>

section \<open>What the constructors call\<close>

text \<open>\<open>filepath.Dir\<close>: the path up to its last slash, cleaned.\<close>

definition Dir :: "string \<Rightarrow> string" where
  "Dir p = Clean (rev (dropWhile (\<lambda>c. c \<noteq> slash) (rev p)))"

text \<open>A \<open>*sql.DB\<close> of a driver and a data source, or an open file.\<close>

datatype handle = HDB string string | HFile string

datatype action = Mkdir string nat | Opens handle | Closes handle | Exec string

text \<open>The fields of \<open>mysql.Config\<close> that the sources set; the driver's others are the extension.\<close>

record my_config =
  ParseTime :: bool
  MultiStatements :: bool

record 'z opener =
  op_mkdir :: "string \<Rightarrow> nat \<Rightarrow> string option"
  op_sql :: "string \<Rightarrow> string \<Rightarrow> string option"
  op_ping :: "string \<Rightarrow> string \<Rightarrow> string option"
  op_parse :: "string \<Rightarrow> string + 'z my_config_scheme"
  op_format :: "'z my_config_scheme \<Rightarrow> string"
  op_append :: "string \<Rightarrow> nat \<Rightarrow> string option"
  op_close :: "handle \<Rightarrow> string option"

type_synonym 'q ddl = "string \<Rightarrow> 'q \<Rightarrow> string option \<times> 'q"

definition wrap :: "string \<Rightarrow> string \<Rightarrow> 'a outcome" where
  "wrap what e = Fail (ErrText (what @ '': '' @ e))"

text \<open>The octal modes 0755, 0750, 0700 and 0640.\<close>

definition octal :: "nat \<Rightarrow> nat \<Rightarrow> nat \<Rightarrow> nat" where
  "octal u g o' = u * 64 + g * 8 + o'"

section \<open>The metadata store\<close>

definition create_table :: "string \<Rightarrow> string list \<Rightarrow> string" where
  "create_table name cols =
     (let nl = (\<lambda>tabs. CHR 0x0A # replicate tabs (CHR 0x09))
      in ''CREATE TABLE IF NOT EXISTS '' @ name @ '' (''
           @ Join (map (\<lambda>c. nl 3 @ c) cols) '','' @ nl 2 @ '')'')"

definition quoted :: "string \<Rightarrow> string" where
  "quoted s = squote # s @ [squote]"

definition project_columns :: "string list" where
  "project_columns =
     [''id            INTEGER PRIMARY KEY AUTOINCREMENT'',
      ''name          TEXT NOT NULL UNIQUE'',
      ''engine        TEXT NOT NULL DEFAULT '' @ quoted ''mysql'',
      ''database_name TEXT NOT NULL'',
      ''database_user TEXT NOT NULL'',
      ''secret_path   TEXT NOT NULL'',
      ''status        TEXT NOT NULL'',
      ''last_error    TEXT NOT NULL DEFAULT '' @ quoted [],
      ''created_at    TEXT NOT NULL'',
      ''updated_at    TEXT NOT NULL'']"

definition token_columns :: "string list" where
  "token_columns =
     [''id          INTEGER PRIMARY KEY AUTOINCREMENT'',
      ''name        TEXT NOT NULL'',
      ''token_hash  TEXT NOT NULL UNIQUE'',
      ''created_at  TEXT NOT NULL'',
      ''last_used_at TEXT'',
      ''revoked_at  TEXT'']"

definition audit_columns :: "string list" where
  "audit_columns =
     [''id            INTEGER PRIMARY KEY AUTOINCREMENT'',
      ''action        TEXT NOT NULL'',
      ''resource      TEXT NOT NULL'',
      ''resource_name TEXT NOT NULL DEFAULT '' @ quoted [],
      ''success       INTEGER NOT NULL'',
      ''message       TEXT NOT NULL DEFAULT '' @ quoted [],
      ''remote_ip     TEXT NOT NULL DEFAULT '' @ quoted [],
      ''created_at    TEXT NOT NULL'']"

definition schema :: "string list" where
  "schema =
     [create_table ''projects'' project_columns, create_table ''tokens'' token_columns,
      create_table ''audit_logs'' audit_columns,
      ''CREATE INDEX IF NOT EXISTS idx_audit_action ON audit_logs(action)'',
      ''CREATE INDEX IF NOT EXISTS idx_audit_created_at ON audit_logs(created_at)'']"

text \<open>The loop of \<open>migrate\<close>: it stops at the first error.\<close>

fun exec_all :: "'q ddl \<Rightarrow> string list \<Rightarrow> 'q \<Rightarrow> unit outcome \<times> action list \<times> 'q" where
  "exec_all ddl [] q = (Ret (), [], q)"
| "exec_all ddl (s # ss) q =
     (case ddl s q of
        (Some e, q) \<Rightarrow> (wrap (''exec '' @ Quote s) e, [Exec s], q)
      | (None, q) \<Rightarrow> (case exec_all ddl ss q of (r, acts, q) \<Rightarrow> (r, Exec s # acts, q)))"

definition migrate :: "'q ddl \<Rightarrow> 'q \<Rightarrow> unit outcome \<times> action list \<times> 'q" where
  "migrate ddl q = exec_all ddl schema q"

record opened_store =
  st_db :: handle
  st_max_conns :: nat

definition store_dsn :: "string \<Rightarrow> string" where
  "store_dsn path =
     ''file:'' @ path @ ''?_pragma=journal_mode(WAL)&_pragma=foreign_keys(ON)&_pragma=busy_timeout(5000)''"

definition Open :: "('z opener) \<Rightarrow> 'q ddl \<Rightarrow> string \<Rightarrow> 'q \<Rightarrow> opened_store outcome \<times> action list \<times> 'q" where
  "Open O' ddl path q =
     (let dir = Dir path; dsn = store_dsn path; db = HDB ''sqlite'' dsn; mk = [Mkdir dir (octal 7 5 5)]
      in case op_mkdir O' dir (octal 7 5 5) of
           Some e \<Rightarrow> (wrap (''mkdir '' @ Quote dir) e, mk, q)
         | None \<Rightarrow>
             (case op_sql O' ''sqlite'' dsn of
                Some e \<Rightarrow> (wrap ''open sqlite'' e, mk, q)
              | None \<Rightarrow>
                  (case op_ping O' ''sqlite'' dsn of
                     Some e \<Rightarrow> (wrap ''ping sqlite'' e, mk @ [Opens db], q)
                   | None \<Rightarrow>
                       (case migrate ddl q of
                          (Fail e, acts, q) \<Rightarrow> (wrap ''migrate'' (errText e), mk @ Opens db # acts, q)
                        | (Panic p, acts, q) \<Rightarrow> (Panic p, mk @ Opens db # acts, q)
                        | (Ret _, acts, q) \<Rightarrow>
                            (Ret \<lparr>st_db = db, st_max_conns = 1\<rparr>, mk @ Opens db # acts, q)))))"

definition Store_Close :: "('z opener) \<Rightarrow> opened_store \<Rightarrow> unit outcome \<times> action list" where
  "Store_Close O' s =
     (case op_close O' (st_db s) of
        Some e \<Rightarrow> (Fail (ErrText e), [Closes (st_db s)])
      | None \<Rightarrow> (Ret (), [Closes (st_db s)]))"

section \<open>The audit log\<close>

record opened_logger =
  lg_cfg :: AuditConfig
  lg_store :: opened_store
  lg_out :: "handle option"
  lg_closers :: "handle list"

definition audit_New ::
    "('z opener) \<Rightarrow> AuditConfig \<Rightarrow> opened_store \<Rightarrow> opened_logger outcome \<times> action list" where
  "audit_New O' cfg st =
     (let l = \<lparr>lg_cfg = cfg, lg_store = st, lg_out = None, lg_closers = []\<rparr>;
          dir = Dir (auFile cfg); f = HFile (auFile cfg); mk = [Mkdir dir (octal 7 5 0)]
      in if auToFile cfg \<and> auFile cfg \<noteq> [] then
           (case op_mkdir O' dir (octal 7 5 0) of
              Some e \<Rightarrow> (wrap ''mkdir audit dir'' e, mk)
            | None \<Rightarrow>
                (case op_append O' (auFile cfg) (octal 6 4 0) of
                   Some e \<Rightarrow> (wrap ''open audit file'' e, mk)
                 | None \<Rightarrow> (Ret (l\<lparr>lg_out := Some f, lg_closers := lg_closers l @ [f]\<rparr>), mk @ [Opens f])))
         else (Ret l, []))"

text \<open>\<open>errors.Join\<close> of the errors collected: nil when there is none.\<close>

definition errors_Join :: "string list \<Rightarrow> goerr option" where
  "errors_Join es = (if es = [] then None else Some (ErrText (Join es [CHR 0x0A])))"

definition Logger_Close :: "('z opener) \<Rightarrow> opened_logger \<Rightarrow> goerr option \<times> action list" where
  "Logger_Close O' l =
     (errors_Join (List.map_filter (op_close O') (lg_closers l)), map Closes (lg_closers l))"

section \<open>The MySQL connection\<close>

record Provisioner =
  pvDB :: handle
  pvAllowDrop :: bool

definition mysqlx_New :: "('z opener) \<Rightarrow> string \<Rightarrow> Provisioner outcome \<times> action list" where
  "mysqlx_New O' adminDSN =
     (if adminDSN = [] then (Fail (ErrText ''admin DSN is required''), [])
      else case op_parse O' adminDSN of
        Inl e \<Rightarrow> (wrap ''parse admin DSN'' e, [])
      | Inr cfg \<Rightarrow>
          (let cfg = cfg\<lparr>ParseTime := True, MultiStatements := True\<rparr>;
               dsn = op_format O' cfg; conn = HDB ''mysql'' dsn
           in case op_sql O' ''mysql'' dsn of
                Some e \<Rightarrow> (wrap ''open admin connection'' e, [])
              | None \<Rightarrow>
                  (case op_ping O' ''mysql'' dsn of
                     Some e \<Rightarrow> (wrap ''ping MySQL'' e, [Opens conn, Closes conn])
                   | None \<Rightarrow> (Ret \<lparr>pvDB = conn, pvAllowDrop = False\<rparr>, [Opens conn]))))"

definition Provisioner_Close :: "('z opener) \<Rightarrow> Provisioner \<Rightarrow> unit outcome \<times> action list" where
  "Provisioner_Close O' p =
     (case op_close O' (pvDB p) of
        Some e \<Rightarrow> (Fail (ErrText e), [Closes (pvDB p)])
      | None \<Rightarrow> (Ret (), [Closes (pvDB p)]))"

definition SetAllowDrop :: "bool \<Rightarrow> Provisioner \<Rightarrow> Provisioner" where
  "SetAllowDrop b p = p\<lparr>pvAllowDrop := b\<rparr>"

section \<open>The secret writer and the service\<close>

definition secrets_New :: "('z opener) \<Rightarrow> string \<Rightarrow> string outcome \<times> action list" where
  "secrets_New O' dir =
     (if dir = [] then (Fail (ErrText ''secrets dir is required''), [])
      else case op_mkdir O' dir (octal 7 0 0) of
        Some e \<Rightarrow> (wrap (''mkdir '' @ Quote dir) e, [Mkdir dir (octal 7 0 0)])
      | None \<Rightarrow> (Ret dir, [Mkdir dir (octal 7 0 0)]))"

text \<open>\<open>provision.New\<close> puts the parts together; what lies outside the program comes with them.\<close>

definition provision_New ::
    "'q sqlite \<Rightarrow> 'm run \<Rightarrow> os \<Rightarrow> (nat \<Rightarrow> gotime) \<Rightarrow> entropy \<Rightarrow> string \<Rightarrow> opened_logger \<Rightarrow> bool \<Rightarrow> MySQLConfig
      \<Rightarrow> ('q, 'm) env" where
  "provision_New Q run os time ent sc au log cfg =
     \<lparr>e_sql = Q, e_run = run, e_os = os, e_dir = sc, e_time = time, e_entropy = ent,
      e_allowDrop = myAllowDrop cfg, e_toFile = (lg_out au \<noteq> None), e_logger = log\<rparr>"

section \<open>The schema and the rows\<close>

text \<open>A column text declares its column unique; the first word is its name.\<close>

definition unique_columns :: "string list \<Rightarrow> string list" where
  "unique_columns cols =
     map (takeWhile (\<lambda>c. c \<noteq> CHR '' '')) (filter (\<lambda>c. HasSuffix c '' UNIQUE'') cols)"

text \<open>The schema declares exactly the constraints that \<open>constraint_ok\<close> of the engine contract asks
  for: the name of a project and the hash of a token.\<close>

lemma schema_unique:
  "unique_columns project_columns = [''name'']" "unique_columns token_columns = [''token_hash'']"
  "unique_columns audit_columns = []"
  by (simp_all add: unique_columns_def project_columns_def token_columns_def audit_columns_def
      HasSuffix_def quoted_def squote_def)

definition if_not_exists :: "string \<Rightarrow> bool" where
  "if_not_exists s \<longleftrightarrow>
     HasPrefix s ''CREATE TABLE IF NOT EXISTS '' \<or> HasPrefix s ''CREATE INDEX IF NOT EXISTS ''"

lemma schema_if_not_exists: "list_all if_not_exists schema"
  by (simp add: schema_def create_table_def if_not_exists_def HasPrefix_def)

text \<open>The contract of the engine for these statements: creating what exists changes no row, and a
  new table is empty.\<close>

locale sqlite_ddl =
  fixes ddl :: "'q ddl" and view :: "'q \<Rightarrow> tables"
  assumes keeps_rows: "if_not_exists s \<Longrightarrow> view (snd (ddl s q)) = view q"
begin

lemma exec_all_view:
  "list_all if_not_exists ss \<Longrightarrow> view (snd (snd (exec_all ddl ss q))) = view q"
proof (induction ss arbitrary: q)
  case (Cons s ss)
  obtain e q1 where d: "ddl s q = (e, q1)" by (metis surj_pair)
  with keeps_rows [of s q] Cons.prems have "view q1 = view q" by simp
  with Cons.IH [of q1] Cons.prems d show ?case
    by (cases "exec_all ddl ss q1") (auto split: option.split)
qed simp

lemma migrate_view: "view (snd (snd (migrate ddl q))) = view q"
  by (simp add: migrate_def exec_all_view schema_if_not_exists)

lemma Open_view: "view (snd (snd (Open O' ddl path q))) = view q"
  using migrate_view [of q]
  by (cases "migrate ddl q") (auto simp: Open_def Let_def split: option.split outcome.split)

end

text \<open>The reference engine remembers what it has created.\<close>

definition ref_ddl :: "(string list \<times> tables) ddl" where
  "ref_ddl s q = (None, if s \<in> set (fst q) then q else (fst q @ [s], snd q))"

interpretation reference_ddl: sqlite_ddl ref_ddl snd
  by unfold_locales (simp add: ref_ddl_def)

text \<open>What the loop runs is a prefix of the statements, all of them when it succeeds.\<close>

lemma exec_all_sent:
  assumes "exec_all ddl ss q = (r, acts, q')"
  shows "\<exists>k \<le> length ss. acts = map Exec (take k ss) \<and> (r = Ret () \<longrightarrow> k = length ss)"
  using assms
proof (induction ss arbitrary: q r acts q')
  case (Cons s ss)
  obtain e q1 where d: "ddl s q = (e, q1)" by (metis surj_pair)
  show ?case
  proof (cases e)
    case None
    obtain r1 acts1 q2 where x: "exec_all ddl ss q1 = (r1, acts1, q2)" by (metis prod_cases3)
    from Cons.IH [OF x] obtain k where "k \<le> length ss" "acts1 = map Exec (take k ss)" "r1 = Ret () \<longrightarrow> k = length ss"
      by blast
    with Cons.prems d None x show ?thesis by (intro exI [of _ "Suc k"]) auto
  next
    case (Some x)
    with Cons.prems d show ?thesis by (intro exI [of _ 1]) (auto simp: wrap_def)
  qed
qed simp

section \<open>What stays open\<close>

fun left_open :: "handle list \<Rightarrow> action list \<Rightarrow> handle list" where
  "left_open hs [] = hs"
| "left_open hs (Opens h # acts) = left_open (h # hs) acts"
| "left_open hs (Closes h # acts) = left_open (remove1 h hs) acts"
| "left_open hs (Mkdir d m # acts) = left_open hs acts"
| "left_open hs (Exec s # acts) = left_open hs acts"

lemma left_open_append [simp]: "left_open hs (as @ bs) = left_open (left_open hs as) bs"
  by (induction hs as rule: left_open.induct) simp_all

lemma left_open_Exec [simp]: "left_open hs (map Exec ss) = hs"
  by (induction ss) simp_all

lemma left_open_migrate [simp]: "left_open hs (fst (snd (migrate ddl q))) = hs"
proof -
  obtain r acts q' where m: "migrate ddl q = (r, acts, q')" by (metis prod_cases3)
  from exec_all_sent [OF m [unfolded migrate_def]] m show ?thesis by auto
qed

text \<open>The handle of a store whose data source has been opened.\<close>

definition store_leak :: "'z opener \<Rightarrow> string \<Rightarrow> handle list" where
  "store_leak O' path =
     (if op_mkdir O' (Dir path) (octal 7 5 5) = None \<and> op_sql O' ''sqlite'' (store_dsn path) = None
      then [HDB ''sqlite'' (store_dsn path)] else [])"

lemma Open_left_open:
  "left_open hs (fst (snd (Open O' ddl path q))) = store_leak O' path @ hs"
proof (cases "op_mkdir O' (Dir path) (octal 7 5 5) = None \<and> op_sql O' ''sqlite'' (store_dsn path) = None")
  case True
  obtain r acts q' where m: "migrate ddl q = (r, acts, q')" by (metis prod_cases3)
  have "left_open hs' acts = hs'" for hs' using left_open_migrate [of hs' ddl q] m by simp
  with True m show ?thesis
    by (simp add: Open_def store_leak_def Let_def wrap_def split: option.split outcome.split)
qed (auto simp: Open_def store_leak_def Let_def split: option.splits)

lemma Open_Ret:
  "fst (Open O' ddl path q) = Ret s \<Longrightarrow> store_leak O' path = [st_db s]"
  by (auto simp: Open_def store_leak_def Let_def wrap_def split: option.splits prod.splits outcome.splits)

lemma audit_New_left_open:
  "left_open hs (snd (audit_New O' cfg st))
     = (case fst (audit_New O' cfg st) of Ret l \<Rightarrow> lg_closers l @ hs | _ \<Rightarrow> hs)"
  by (simp add: audit_New_def Let_def wrap_def split: option.split)

lemma mysqlx_New_left_open:
  "left_open hs (snd (mysqlx_New O' dsn))
     = (case fst (mysqlx_New O' dsn) of Ret p \<Rightarrow> pvDB p # hs | _ \<Rightarrow> hs)"
  by (simp add: mysqlx_New_def Let_def wrap_def split: option.split sum.split)

lemma secrets_New_left_open [simp]: "left_open hs (snd (secrets_New O' dir)) = hs"
  by (simp add: secrets_New_def split: option.split)

lemma close_left_open [simp]:
  "left_open (pvDB p # hs) (snd (Provisioner_Close O' p)) = hs"
  "left_open (st_db s # hs) (snd (Store_Close O' s)) = hs"
  by (simp_all add: Provisioner_Close_def Store_Close_def split: option.split)

lemma Logger_Close_left_open [simp]: "left_open (lg_closers l @ hs) (snd (Logger_Close O' l)) = hs"
proof -
  have "left_open (cs @ hs) (map Closes cs) = hs" for cs by (induction cs) simp_all
  then show ?thesis by (simp add: Logger_Close_def)
qed

section \<open>The server command over its constructors\<close>

definition failure :: "'a outcome \<Rightarrow> goerr option" where
  "failure r = (case r of Ret _ \<Rightarrow> None | Fail e \<Rightarrow> Some e | Panic p \<Rightarrow> Some (ErrText p))"

lemma failure_None: "failure r = None \<longleftrightarrow> (\<exists>x. r = Ret x)"
  by (cases r) (simp_all add: failure_def)

text \<open>The constructors in the places of the server command; \<open>st\<close> is the store that \<open>Open\<close> answered.\<close>

definition startup_of ::
    "'z opener \<Rightarrow> 'q ddl \<Rightarrow> 'q \<Rightarrow> opened_store \<Rightarrow> (string \<Rightarrow> goerr option \<times> Config)
      \<Rightarrow> (string \<Rightarrow> (string, string \<times> string option) sum) \<Rightarrow> (string \<Rightarrow> served) \<Rightarrow> startup" where
  "startup_of O' ddl q st load cnf srv =
     \<lparr>su_load = load, su_store = (\<lambda>p. (store_leak O' p \<noteq> [], failure (fst (Open O' ddl p q)))),
      su_audit = (\<lambda>a. failure (fst (audit_New O' a st))), su_cnf = cnf,
      su_mysql = (\<lambda>d. failure (fst (mysqlx_New O' d))),
      su_secrets = (\<lambda>d. failure (fst (secrets_New O' d))), su_serve = srv\<rparr>"

text \<open>What a constructor has done when it succeeds, and the \<open>Close\<close> of what it answered.\<close>

definition opening_of :: "'a outcome \<times> action list \<Rightarrow> action list" where
  "opening_of c = snd c"

definition closing_of :: "('a \<Rightarrow> action list) \<Rightarrow> 'a outcome \<times> action list \<Rightarrow> action list" where
  "closing_of cl c = (case fst c of Ret x \<Rightarrow> cl x | _ \<Rightarrow> [])"

text \<open>The actions behind an event of the run: those of the constructor that has succeeded, or that
  has failed with the logged message.\<close>

definition event_actions ::
    "'z opener \<Rightarrow> 'q ddl \<Rightarrow> 'q \<Rightarrow> opened_store \<Rightarrow> Config \<Rightarrow> string \<Rightarrow> event \<Rightarrow> action list" where
  "event_actions O' ddl q st cfg dsn ev =
     (let sto = Open O' ddl (cfgStoragePath cfg) q; sto = (fst sto, fst (snd sto));
          aud = audit_New O' (cfgAudit cfg) st; my = mysqlx_New O' dsn; sec = secrets_New O' (cfgSecretsDir cfg)
      in case ev of
           Opened HStore \<Rightarrow> opening_of sto
         | Opened HAudit \<Rightarrow> opening_of aud
         | Opened HMySQL \<Rightarrow> opening_of my
         | Closed HStore \<Rightarrow> closing_of (\<lambda>s. snd (Store_Close O' s)) sto
         | Closed HAudit \<Rightarrow> closing_of (\<lambda>l. snd (Logger_Close O' l)) aud
         | Closed HMySQL \<Rightarrow> closing_of (\<lambda>p. snd (Provisioner_Close O' p)) my
         | Served _ \<Rightarrow> opening_of sec
         | Logged what _ \<Rightarrow>
             (if what = ''open store'' then (if store_leak O' (cfgStoragePath cfg) = [] then opening_of sto else [])
              else if what = ''init audit'' then opening_of aud
              else if what = ''connect MySQL'' then opening_of my
              else if what = ''init secrets'' then opening_of sec else []))"

definition run_actions ::
    "'z opener \<Rightarrow> 'q ddl \<Rightarrow> 'q \<Rightarrow> opened_store \<Rightarrow> Config \<Rightarrow> string \<Rightarrow> event list \<Rightarrow> action list" where
  "run_actions O' ddl q st cfg dsn evs = concat (map (event_actions O' ddl q st cfg dsn) evs)"

lemma run_actions_simps:
  "run_actions O' ddl q st cfg dsn [] = []"
  "run_actions O' ddl q st cfg dsn (e # es) = event_actions O' ddl q st cfg dsn e @ run_actions O' ddl q st cfg dsn es"
  "run_actions O' ddl q st cfg dsn (es @ es') = run_actions O' ddl q st cfg dsn es @ run_actions O' ddl q st cfg dsn es'"
  by (simp_all add: run_actions_def)

text \<open>A part of the run is neat when it leaves open what was open before.\<close>

definition neat :: "(event list \<Rightarrow> action list) \<Rightarrow> nat \<times> event list \<Rightarrow> bool" where
  "neat f c \<longleftrightarrow> (\<forall>hs. left_open hs (f (snd c)) = hs)"

lemma neat_nothing: "f = run_actions O' ddl q st cfg dsn \<Longrightarrow> neat f (k, [])"
  by (simp add: neat_def run_actions_simps)

lemma neat_serve:
  "f = run_actions O' ddl q st cfg dsn \<Longrightarrow> neat f (serve S addr)"
  by (simp add: neat_def serve_def run_actions_simps event_actions_def opening_of_def
      split: served.split option.split)

lemma neat_or_fail:
  "neat f c \<Longrightarrow> (\<And>e hs. err = Some e \<Longrightarrow> left_open hs (f [Logged what (errText e)]) = hs) \<Longrightarrow>
     neat f (or_fail what err c)"
  by (cases err) (simp_all add: or_fail_def neat_def)

lemma neat_holding:
  assumes "f = run_actions O' ddl q st cfg dsn" and "neat f c"
    and "\<And>hs. left_open hs (f [Opened r]) = new @ hs" and "\<And>hs. left_open (new @ hs) (f [Closed r]) = hs"
  shows "neat f (holding r c)"
proof -
  have "f (Opened r # es @ [Closed r]) = f [Opened r] @ f es @ f [Closed r]" for es
    by (simp add: assms(1) run_actions_simps)
  with assms(2-4) show ?thesis by (simp add: neat_def holding_def)
qed

lemma event_held:
  assumes "f = run_actions O' ddl q st cfg dsn"
  shows "fst (Open O' ddl (cfgStoragePath cfg) q) = Ret s \<Longrightarrow>
      left_open hs (f [Opened HStore]) = st_db s # hs \<and> left_open (st_db s # hs) (f [Closed HStore]) = hs"
    and "fst (audit_New O' (cfgAudit cfg) st) = Ret l \<Longrightarrow>
      left_open hs (f [Opened HAudit]) = lg_closers l @ hs \<and> left_open (lg_closers l @ hs) (f [Closed HAudit]) = hs"
    and "fst (mysqlx_New O' dsn) = Ret p \<Longrightarrow>
      left_open hs (f [Opened HMySQL]) = pvDB p # hs \<and> left_open (pvDB p # hs) (f [Closed HMySQL]) = hs"
  using Open_left_open [of hs O' ddl "cfgStoragePath cfg" q] Open_Ret [of O' ddl "cfgStoragePath cfg" q s]
    audit_New_left_open [of hs O' "cfgAudit cfg" st] mysqlx_New_left_open [of hs O' dsn]
  by (simp_all add: assms run_actions_simps event_actions_def opening_of_def closing_of_def Let_def)

lemma event_failed:
  assumes "f = run_actions O' ddl q st cfg dsn"
  shows "failure (fst (audit_New O' (cfgAudit cfg) st)) = Some e \<Longrightarrow> left_open hs (f [Logged ''init audit'' m]) = hs"
    and "failure (fst (mysqlx_New O' dsn)) = Some e \<Longrightarrow> left_open hs (f [Logged ''connect MySQL'' m]) = hs"
    and "left_open hs (f [Logged ''init secrets'' m]) = hs"
    and "left_open hs (f [Logged ''resolve admin DSN'' m]) = hs"
  using audit_New_left_open [of hs O' "cfgAudit cfg" st] mysqlx_New_left_open [of hs O' dsn]
  by (simp_all add: assms run_actions_simps event_actions_def opening_of_def failure_def Let_def split: outcome.splits)

lemma store_failed:
  "left_open hs (run_actions O' ddl q st cfg dsn
      ((if store_leak O' (cfgStoragePath cfg) \<noteq> [] then [Opened HStore] else []) @ [Logged ''open store'' m]))
    = store_leak O' (cfgStoragePath cfg) @ hs"
  using Open_left_open [of hs O' ddl "cfgStoragePath cfg" q]
  by (simp add: run_actions_simps event_actions_def opening_of_def Let_def)

lemma neat_connect:
  assumes f: "f = run_actions O' ddl q st cfg dsn"
    and dsn: "\<And>d. resolveAdminDSN cnf (cfgMySQL cfg) = Ret d \<Longrightarrow> d = dsn"
  shows "neat f (connect (startup_of O' ddl q st load cnf srv) cfg addr)"
proof (cases "resolveAdminDSN cnf (cfgMySQL cfg)")
  case (Ret d)
  with dsn have d: "resolveAdminDSN cnf (cfgMySQL cfg) = Ret dsn" by simp
  let ?S = "startup_of O' ddl q st load cnf srv"
  show ?thesis
  proof (cases "fst (mysqlx_New O' dsn)")
    case (Ret p)
    have "neat f (holding HMySQL (or_fail ''init secrets'' (su_secrets ?S (cfgSecretsDir cfg)) (serve ?S addr)))"
      by (rule neat_holding [OF f, where new = "[pvDB p]"])
         (use event_held(3) [OF f Ret] in \<open>auto intro!: neat_or_fail neat_serve [OF f] event_failed(3) [OF f]\<close>)
    with Ret d show ?thesis by (simp add: connect_def startup_of_def failure_def)
  qed (use d event_failed(2) [OF f] in \<open>simp_all add: connect_def startup_of_def failure_def neat_def\<close>)
qed (use event_failed(4) [OF f] in \<open>simp_all add: connect_def startup_of_def neat_def neat_nothing [OF f]
  f run_actions_simps\<close>)

text \<open>The server command leaves no database or file open, whichever constructor fails, with one
  exception: when the store cannot be pinged or migrated, the SQLite handle it has opened is
  not closed.\<close>

theorem server_leaves_store_open:
  assumes "parse_flags [(''config'', FString), (''addr'', FString)] [] args = Some (vals, rest)"
    and "load (string_flag vals ''config'' default_config) = (None, cfg)"
    and "\<And>d. resolveAdminDSN cnf (cfgMySQL cfg) = Ret d \<Longrightarrow> d = dsn"
  shows "left_open [] (run_actions O' ddl q st cfg dsn (snd (runServer (startup_of O' ddl q st load cnf srv) args)))
    = (if failure (fst (Open O' ddl (cfgStoragePath cfg) q)) = None then [] else store_leak O' (cfgStoragePath cfg))"
proof -
  define f where f: "f = run_actions O' ddl q st cfg dsn"
  let ?S = "startup_of O' ddl q st load cnf srv"
  have audit: "neat f (or_fail ''init audit'' (su_audit ?S (cfgAudit cfg)) (holding HAudit (connect ?S cfg a)))" for a
  proof (cases "fst (audit_New O' (cfgAudit cfg) st)")
    case (Ret l)
    have "neat f (holding HAudit (connect ?S cfg a))"
      by (rule neat_holding [OF f, where new = "lg_closers l"])
         (use event_held(2) [OF f Ret] neat_connect [OF f assms(3)] in auto)
    with Ret show ?thesis by (simp add: startup_of_def failure_def or_fail_def)
  qed (use event_failed(1) [OF f] in \<open>simp_all add: startup_of_def failure_def or_fail_def neat_def\<close>)
  show ?thesis
  proof (cases "fst (Open O' ddl (cfgStoragePath cfg) q)")
    case (Ret s)
    have "neat f (holding HStore (or_fail ''init audit'' (su_audit ?S (cfgAudit cfg)) (holding HAudit (connect ?S cfg a))))" for a
      by (rule neat_holding [OF f, where new = "[st_db s]"]) (use event_held(1) [OF f Ret] audit in auto)
    with Ret assms(1,2) show ?thesis
      by (simp add: runServer_def startup_of_def failure_def or_fail_def neat_def Let_def f)
  qed (use assms(1,2) store_failed [of "[]" O' ddl q st cfg dsn]
       in \<open>simp_all add: runServer_def startup_of_def failure_def or_fail_def Let_def\<close>)
qed

text \<open>A machine on which everything works except the ping of SQLite.\<close>

definition locked_opener :: "unit opener" where
  "locked_opener = \<lparr>op_mkdir = (\<lambda>_ _. None), op_sql = (\<lambda>_ _. None),
     op_ping = (\<lambda>d _. if d = ''sqlite'' then Some ''database is locked'' else None),
     op_parse = (\<lambda>_. Inr \<lparr>ParseTime = False, MultiStatements = False\<rparr>), op_format = (\<lambda>_. []),
     op_append = (\<lambda>_ _. None), op_close = (\<lambda>_. None)\<rparr>"

theorem server_leaves_store_open_witness:
  "\<exists>st. left_open [] (run_actions locked_opener ref_ddl ([], empty_tables) st
       (Default\<lparr>cfgStoragePath := ''/v/m.db''\<rparr>) []
       (snd (runServer (startup_of locked_opener ref_ddl ([], empty_tables) st
         (\<lambda>_. (None, Default\<lparr>cfgStoragePath := ''/v/m.db''\<rparr>)) (\<lambda>_. Inl ''no file'') (\<lambda>_. Signalled None)) [])))
   = [HDB ''sqlite'' (store_dsn ''/v/m.db'')]"
proof -
  let ?cfg = "Default\<lparr>cfgStoragePath := ''/v/m.db''\<rparr>"
  have p: "parse_flags [(''config'', FString), (''addr'', FString)] [] [] = Some ([], [])" by simp
  have r: "\<And>d. resolveAdminDSN (\<lambda>_. Inl ''no file'') (cfgMySQL ?cfg) = Ret d \<Longrightarrow> d = []"
    by (auto simp: resolveAdminDSN_def Default_def LoadMycnf_def split: outcome.splits)
  have o: "failure (fst (Open locked_opener ref_ddl ''/v/m.db'' ([], empty_tables))) \<noteq> None"
    "store_leak locked_opener ''/v/m.db'' = [HDB ''sqlite'' (store_dsn ''/v/m.db'')]"
    by (simp_all add: Open_def Let_def locked_opener_def failure_def wrap_def store_leak_def)
  have "left_open [] (run_actions locked_opener ref_ddl ([], empty_tables) st ?cfg []
       (snd (runServer (startup_of locked_opener ref_ddl ([], empty_tables) st (\<lambda>_. (None, ?cfg))
         (\<lambda>_. Inl ''no file'') (\<lambda>_. Signalled None)) [])))
     = [HDB ''sqlite'' (store_dsn ''/v/m.db'')]" for st
    using server_leaves_store_open [where load = "\<lambda>_. (None, ?cfg)", OF p refl r, where O' = locked_opener
      and ddl = ref_ddl and q = "([], empty_tables)" and st = st and srv = "\<lambda>_. Signalled None"] o by simp
  then show ?thesis by blast
qed

end
