(* ===== verification/Isolation.thy ===== *)
theory Isolation
  imports Lifecycle
begin

text \<open>
  \<open>VerifyProjectIsolation\<close> of \<open>internal/mysqlx/provisioner.go\<close>: it opens a connection pool for the
  user of a project and tries four statements. The pool is an argument; the locale
  \<open>project_session\<close> says what its user is allowed, \<open>willing_session\<close> that what is allowed
  succeeds, and a reference session runs the statements on the catalog. The theorem says what
  the check does not see.
\<close>

section \<open>The check\<close>

definition isolation_dsn :: "string \<Rightarrow> string \<Rightarrow> string" where
  "isolation_dsn user password = user @ '':'' @ password @ ''@tcp(127.0.0.1:3306)/?parseTime=true''"

definition use_text :: "string \<Rightarrow> string" where
  "use_text d = ''USE `'' @ d @ ''`''"

definition probe_table :: string where
  "probe_table = ''CREATE TABLE IF NOT EXISTS _isolation_probe (id INT)''"

definition probe_user :: string where
  "probe_user = ''CREATE USER `nope`@`localhost`''"

text \<open>The four statements; of the last two, any error is taken for a refusal.\<close>

definition try_probes :: "'s run \<Rightarrow> string \<Rightarrow> 's \<Rightarrow> unit outcome \<times> 's" where
  "try_probes run dbName s =
     (case run (use_text dbName) s of
        (Some e, s) \<Rightarrow> (Fail (ErrText (''use db: '' @ e)), s)
      | (None, s) \<Rightarrow>
          (case run probe_table s of
             (Some e, s) \<Rightarrow> (Fail (ErrText (''create probe: '' @ e)), s)
           | (None, s) \<Rightarrow>
               (case run probe_user s of
                  (None, s) \<Rightarrow> (Fail (ErrText ''project user was able to CREATE USER (privilege too broad)''), s)
                | (Some _, s) \<Rightarrow>
                    (case run ''USE mysql'' s of
                       (None, s) \<Rightarrow> (Fail (ErrText ''project user was able to USE mysql database''), s)
                     | (Some _, s) \<Rightarrow> (Ret (), s)))))"

text \<open>\<open>open_pool\<close> is \<open>sql.Open\<close> with the data source: an error in its text, or the pool. It does not
  connect: a refused login is an error of the first statement that is run on the pool.\<close>

definition VerifyProjectIsolation ::
    "(string \<Rightarrow> string + 's) \<Rightarrow> 's run \<Rightarrow> string \<Rightarrow> string \<Rightarrow> string \<Rightarrow> unit outcome \<times> 's option" where
  "VerifyProjectIsolation open_pool run dbName user password =
     (let dsn = isolation_dsn user password in
      case assertIdentifier user of
        Some e \<Rightarrow> (Fail e, None)
      | None \<Rightarrow>
          (case assertIdentifier dbName of
             Some e \<Rightarrow> (Fail e, None)
           | None \<Rightarrow>
               (case open_pool dsn of
                  Inl e \<Rightarrow> (Fail (ErrText e), None)
                | Inr s \<Rightarrow> (case try_probes run dbName s of (r, s) \<Rightarrow> (r, Some s)))))"

section \<open>Sessions\<close>

definition may_create :: "catalog \<Rightarrow> string \<times> string \<Rightarrow> string \<Rightarrow> bool" where
  "may_create c acc d \<longleftrightarrow>
     (\<exists>g \<in> grants c. fst g = ''CREATE'' \<and> snd (snd g) = acc \<and> like (fst (snd g)) d)"

text \<open>
  A pool as its statements see it: the catalog behind it, the account it logs in as, and the
  database selected in the connection that runs the next statement. A statement that succeeds
  was allowed: \<open>USE\<close> needs a grant whose pattern matches, and so does a table; neither changes
  the catalog.
\<close>

locale project_session =
  fixes run :: "'s run" and cat :: "'s \<Rightarrow> catalog" and who :: "'s \<Rightarrow> string \<times> string"
    and cur :: "'s \<Rightarrow> string option"
  assumes use_ok: "ident d \<Longrightarrow> run (use_text d) s = (None, s') \<Longrightarrow>
      d \<in> databases (cat s) \<and> may_use (cat s) (who s) d \<and> cur s' = Some d
        \<and> cat s' = cat s \<and> who s' = who s"
    and table_ok: "run probe_table s = (None, s') \<Longrightarrow> \<exists>d. cur s = Some d \<and> may_create (cat s) (who s) d"
begin

text \<open>What an answer without error shows.\<close>

lemma probes_sound:
  assumes "ident d" and "try_probes run d s = (Ret (), s')"
  shows "d \<in> databases (cat s) \<and> may_use (cat s) (who s) d \<and> may_create (cat s) (who s) d"
proof -
  obtain e1 s1 where u: "run (use_text d) s = (e1, s1)" by (metis surj_pair)
  obtain e2 s2 where t: "run probe_table s1 = (e2, s2)" by (metis surj_pair)
  from assms(2) u t have "e1 = None" "e2 = None"
    by (auto simp: try_probes_def split: option.splits)
  with u t use_ok [OF assms(1), of s s1] table_ok [of s1 s2] show ?thesis by auto
qed

end

text \<open>
  What is allowed succeeds, as in a server that is up: the grants of a project account are on
  databases, so it may never create a user.
\<close>

locale willing_session = project_session +
  assumes use_granted: "ident d \<Longrightarrow> d \<in> databases (cat s) \<Longrightarrow> may_use (cat s) (who s) d
      \<Longrightarrow> \<exists>s'. run (use_text d) s = (None, s')"
    and table_granted: "cur s = Some d \<Longrightarrow> may_create (cat s) (who s) d
      \<Longrightarrow> \<exists>s'. run probe_table s = (None, s') \<and> cat s' = cat s \<and> who s' = who s"
    and user_denied: "\<exists>e s'. run probe_user s = (Some e, s') \<and> cat s' = cat s \<and> who s' = who s"
    and mysql_denied: "\<not> may_use (cat s) (who s) ''mysql'' \<Longrightarrow> \<exists>e s'. run ''USE mysql'' s = (Some e, s')"
begin

text \<open>So the four statements are answered as the check wants them whenever the user has its own
  database and not the database \<open>mysql\<close>; nothing else is asked.\<close>

lemma probes_pass:
  assumes "ident d" and "d \<in> databases (cat s)" and "may_use (cat s) (who s) d" and "may_create (cat s) (who s) d"
    and "\<not> may_use (cat s) (who s) ''mysql''"
  shows "fst (try_probes run d s) = Ret ()"
proof -
  obtain s1 where u: "run (use_text d) s = (None, s1)" using use_granted [OF assms(1-3)] by blast
  from use_ok [OF assms(1) u] have s1: "cur s1 = Some d" "cat s1 = cat s" "who s1 = who s" by simp_all
  obtain s2 where t: "run probe_table s1 = (None, s2)" "cat s2 = cat s" "who s2 = who s"
    using table_granted [OF s1(1)] assms(4) s1 by auto
  obtain e s3 where c: "run probe_user s2 = (Some e, s3)" "cat s3 = cat s" "who s3 = who s"
    using user_denied [of s2] t by auto
  obtain e' s4 where "run ''USE mysql'' s3 = (Some e', s4)"
    using mysql_denied [of s3] assms(5) c by auto
  with u t c show ?thesis by (simp add: try_probes_def)
qed

end

section \<open>A reference session\<close>

record session =
  ss_cat :: catalog
  ss_who :: "string \<times> string"
  ss_cur :: "string option"
  ss_tables :: "(string \<times> string) set"

definition ref_use :: "string \<Rightarrow> session \<Rightarrow> string option \<times> session" where
  "ref_use d s =
     (if d \<in> insert ''mysql'' (databases (ss_cat s)) \<and> may_use (ss_cat s) (ss_who s) d
      then (None, s\<lparr>ss_cur := Some d\<rparr>) else (Some ''access denied'', s))"

text \<open>Grants are on databases only, so \<open>CREATE USER\<close> is denied to every account.\<close>

definition ref_session :: "session run" where
  "ref_session q s =
     (if q = probe_table then
        (case ss_cur s of
           Some d \<Rightarrow>
             (if may_create (ss_cat s) (ss_who s) d
              then (None, s\<lparr>ss_tables := insert (d, ''_isolation_probe'') (ss_tables s)\<rparr>)
              else (Some ''access denied'', s))
         | None \<Rightarrow> (Some ''no database selected'', s))
      else if q = ''USE mysql'' then ref_use ''mysql'' s
      else case ticks q of
        [a, d, b] \<Rightarrow> (if a = ''USE '' \<and> b = [] \<and> d \<in> databases (ss_cat s) then ref_use d s
                    else (Some ''unknown database'', s))
      | _ \<Rightarrow> (Some ''access denied'', s))"

lemma ticks_use: "ident d \<Longrightarrow> ticks (use_text d) = [''USE '', d, []]"
  by (simp add: use_text_def ticks_append ident_no_tick)

lemma use_text_other: "use_text d \<noteq> probe_table" "use_text d \<noteq> ''USE mysql''"
  by (simp_all add: use_text_def probe_table_def)

lemma ref_session_use:
  "ident d \<Longrightarrow> ref_session (use_text d) s =
     (if d \<in> databases (ss_cat s) then ref_use d s else (Some ''unknown database'', s))"
  by (simp add: ref_session_def use_text_other ticks_use)

interpretation reference_session: willing_session ref_session ss_cat ss_who ss_cur
proof
  show "\<exists>s'. ref_session (use_text d) s = (None, s')"
    if "ident d" "d \<in> databases (ss_cat s)" "may_use (ss_cat s) (ss_who s) d" for d s
    using that by (simp add: ref_session_use ref_use_def)
  show "\<exists>s'. ref_session probe_table s = (None, s') \<and> ss_cat s' = ss_cat s \<and> ss_who s' = ss_who s"
    if "ss_cur s = Some d" "may_create (ss_cat s) (ss_who s) d" for d s
    using that by (simp add: ref_session_def)
  show "\<exists>e s'. ref_session probe_user s = (Some e, s') \<and> ss_cat s' = ss_cat s \<and> ss_who s' = ss_who s" for s
    by (simp add: ref_session_def probe_user_def probe_table_def)
  show "\<exists>e s'. ref_session ''USE mysql'' s = (Some e, s')" if "\<not> may_use (ss_cat s) (ss_who s) ''mysql''" for s
    using that by (simp add: ref_session_def ref_use_def probe_table_def)
  show "ref_session probe_table s = (None, s') \<Longrightarrow> \<exists>d. ss_cur s = Some d \<and> may_create (ss_cat s) (ss_who s) d" for s s'
    by (auto simp: ref_session_def split: option.splits if_splits)
  show "d \<in> databases (ss_cat s) \<and> may_use (ss_cat s) (ss_who s) d \<and> ss_cur s' = Some d
      \<and> ss_cat s' = ss_cat s \<and> ss_who s' = ss_who s"
    if "ident d" "ref_session (use_text d) s = (None, s')" for d s s'
    using that by (auto simp: ref_session_use ref_use_def split: if_splits)
qed

text \<open>The login over TCP from the same machine.\<close>

definition ref_login :: "catalog \<Rightarrow> string \<Rightarrow> string + session" where
  "ref_login c dsn =
     (case CutPrefix (rev dsn) (rev ''@tcp(127.0.0.1:3306)/?parseTime=true'') of
        None \<Rightarrow> Inl ''invalid DSN''
      | Some up \<Rightarrow>
          (let u = takeWhile (\<lambda>c. c \<noteq> CHR '':'') (rev up); p = drop (Suc (length u)) (rev up)
           in if accounts c (u, ''127.0.0.1'') = Some p
              then Inr \<lparr>ss_cat = c, ss_who = (u, ''127.0.0.1''), ss_cur = None, ss_tables = {}\<rparr>
              else Inl ''access denied''))"

lemma ref_login_dsn:
  assumes "ident u" and "accounts c (u, ''127.0.0.1'') = Some p"
  shows "ref_login c (isolation_dsn u p)
    = Inr \<lparr>ss_cat = c, ss_who = (u, ''127.0.0.1''), ss_cur = None, ss_tables = {}\<rparr>"
proof -
  let ?sfx = "''@tcp(127.0.0.1:3306)/?parseTime=true''"
  have "CHR '':'' \<notin> set u" using assms(1) by (auto simp: ident_iff list_all_iff ident_char_def char_class_defs)
  then have t: "takeWhile (\<lambda>c. c \<noteq> CHR '':'') (u @ CHR '':'' # p) = u"
    by (subst takeWhile_append2) auto
  have "rev (isolation_dsn u p) = rev ?sfx @ rev (u @ CHR '':'' # p)"
    by (simp only: isolation_dsn_def rev_append append_assoc append_Cons append_Nil) simp
  then have "CutPrefix (rev (isolation_dsn u p)) (rev ?sfx) = Some (rev (u @ CHR '':'' # p))"
    by (simp only: CutPrefix_append)
  then show ?thesis unfolding ref_login_def using assms(2) t by (simp only: option.case rev_rev_ident Let_def) simp
qed

section \<open>What the check does not see\<close>

lemma db_not_mysql: "valid_name n \<Longrightarrow> \<not> like (db_of n) ''mysql''"
proof
  assume "valid_name n" and "like (db_of n) ''mysql''"
  then have "list_all2 (\<lambda>a b. a = CHR ''_'' \<or> a = b) (hyphen_fold n @ ''_db'') ''mysql''"
    using like_ident [OF db_ident] by (simp add: db_of_def db_name)
  then have "list_all2 (\<lambda>a b. a = CHR ''_'' \<or> a = b) (rev (hyphen_fold n @ ''_db'')) (rev ''mysql'')"
    by (simp only: list_all2_rev)
  then show False by simp
qed

text \<open>The accounts and grants of a project that has just been created for a new user.\<close>

lemma created_grants:
  assumes "\<forall>g \<in> grants c. fst (snd (snd g)) \<noteq> user_of n"
  shows "g \<in> grants (effects (create_stmts n p a) c) \<and> snd (snd g) = (user_of n, h)
    \<longleftrightarrow> h \<in> set hosts \<and> fst g \<in> set (privs a) \<and> snd g = (db_of n, user_of n, h)"
  using assms by (auto simp: create_stmts_def stmts_defs)

lemma created_may:
  assumes "\<forall>g \<in> grants c. fst (snd (snd g)) \<noteq> user_of n" and "h \<in> set hosts"
  shows "may_use (effects (create_stmts n p a) c) (user_of n, h) d \<longleftrightarrow> like (db_of n) d"
    and "may_create (effects (create_stmts n p a) c) (user_of n, h) d \<longleftrightarrow> like (db_of n) d"
proof -
  let ?c = "effects (create_stmts n p a) c"
  have g: "(''CREATE'', db_of n, user_of n, h) \<in> grants ?c"
    using created_grants [OF assms(1), of "(''CREATE'', db_of n, user_of n, h)" p a h] assms(2)
    by (simp add: privs_def Let_def)
  have only: "fst (snd x) = db_of n" if "x \<in> grants ?c" "snd (snd x) = (user_of n, h)" for x
    using created_grants [OF assms(1), of x p a h] that by simp
  show "may_use ?c (user_of n, h) d \<longleftrightarrow> like (db_of n) d"
    unfolding may_use_def using bexI [OF _ g] only by fastforce
  show "may_create ?c (user_of n, h) d \<longleftrightarrow> like (db_of n) d"
    unfolding may_create_def using bexI [OF _ g] only by fastforce
qed

text \<open>C17: the isolation check accepts every project that was just created for a user without
  grants, over every pool of its user in which what is allowed succeeds. But if the name has a
  hyphen or an underscore, the same user can select the database of another project, where
  that exists: the only foreign database the check tries is \<open>mysql\<close>.\<close>

theorem isolation_check_misses_neighbour:
  assumes "willing_session run cat who cur" and "valid_name n"
    and "\<forall>g \<in> grants c0. fst (snd (snd g)) \<noteq> user_of n" and "cat s = effects (create_stmts n p a) c0"
    and "who s = (user_of n, h)" and "h \<in> set hosts" and "open_pool (isolation_dsn (user_of n) p) = Inr s"
  shows "fst (VerifyProjectIsolation open_pool run (db_of n) (user_of n) p) = Ret ()
    \<and> (list_ex separator n \<and> db_of (neighbour n) \<in> databases (cat s)
        \<longrightarrow> db_of (neighbour n) \<noteq> db_of n \<and> fst (run (use_text (db_of (neighbour n))) s) = None)"
proof
  have d: "ident (db_of n)" "ident (user_of n)" "ident (db_of (neighbour n))"
    using valid_identifiers [OF assms(2)] valid_identifiers [OF neighbour_valid [OF assms(2)]]
    by (simp_all add: db_of_def user_of_def)
  have may: "may_use (cat s) (who s) x \<longleftrightarrow> like (db_of n) x" "may_create (cat s) (who s) x \<longleftrightarrow> like (db_of n) x" for x
    unfolding assms(4,5) by (rule created_may [OF assms(3,6)])+
  have "db_of n \<in> databases (cat s)" unfolding assms(4) by (rule create_stmts_effect(1))
  then have "fst (try_probes run (db_of n) s) = Ret ()"
    using like_refl [OF db_ident [OF assms(2)]] db_not_mysql [OF assms(2)]
    by (intro willing_session.probes_pass [OF assms(1) d(1)]) (simp_all add: may)
  then show "fst (VerifyProjectIsolation open_pool run (db_of n) (user_of n) p) = Ret ()"
    by (simp add: VerifyProjectIsolation_def Let_def d assms(7) split: prod.split) (metis fst_conv)
  show "list_ex separator n \<and> db_of (neighbour n) \<in> databases (cat s)
      \<longrightarrow> db_of (neighbour n) \<noteq> db_of n \<and> fst (run (use_text (db_of (neighbour n))) s) = None"
  proof
    assume a: "list_ex separator n \<and> db_of (neighbour n) \<in> databases (cat s)"
    have "like (db_of n) (db_of (neighbour n))"
      using neighbour_like db_like_iff [OF assms(2)] by (simp add: db_of_def)
    with a willing_session.use_granted [OF assms(1) d(3)] may(1)
    have "\<exists>s'. run (use_text (db_of (neighbour n))) s = (None, s')" by blast
    moreover have "db_of (neighbour n) \<noteq> db_of n"
      using a neighbour_differs [of n] by (simp add: db_of_def db_name)
    ultimately show "db_of (neighbour n) \<noteq> db_of n \<and> fst (run (use_text (db_of (neighbour n))) s) = None" by auto
  qed
qed

definition axb_catalog :: catalog where
  "axb_catalog = empty_catalog\<lparr>databases := {''axb_db''}\<rparr>"

theorem isolation_check_misses_neighbour_witness:
  "fst (VerifyProjectIsolation (ref_login (effects (create_stmts ''a_b'' ''pw'' False) axb_catalog)) ref_session
      ''a_b_db'' ''a_b_user'' ''pw'') = Ret ()
    \<and> (\<exists>s. ref_login (effects (create_stmts ''a_b'' ''pw'' False) axb_catalog) (isolation_dsn ''a_b_user'' ''pw'') = Inr s
         \<and> fst (ref_session ''USE `axb_db`'' s) = None)"
proof -
  have n: "valid_name ''a_b''" by (simp add: valid_name_iff name_char_def char_class_defs)
  have i: "db_of ''a_b'' = ''a_b_db''" "user_of ''a_b'' = ''a_b_user''" "db_of (neighbour ''a_b'') = ''axb_db''"
    by (simp_all add: db_of_def user_of_def neighbour_def separator_def ProjectIdentifiers_def ReplaceByte_def)
  have u: "use_text ''axb_db'' = ''USE `axb_db`''" by (simp add: use_text_def)
  let ?c = "effects (create_stmts ''a_b'' ''pw'' False) axb_catalog"
  let ?s = "\<lparr>ss_cat = ?c, ss_who = (user_of ''a_b'', ''127.0.0.1''), ss_cur = None, ss_tables = {}\<rparr>"
  have f: "\<forall>g \<in> grants axb_catalog. fst (snd (snd g)) \<noteq> user_of ''a_b''" by (simp add: axb_catalog_def empty_catalog_def)
  have "accounts ?c (user_of ''a_b'', ''127.0.0.1'') = Some ''pw''"
    using create_stmts_effect(2) [of "''127.0.0.1''" "''a_b''" "''pw''" False axb_catalog]
    by (simp add: hosts_def axb_catalog_def empty_catalog_def)
  moreover have "ident (user_of ''a_b'')" using valid_identifiers [OF n] by (simp add: user_of_def)
  ultimately have l: "ref_login ?c (isolation_dsn (user_of ''a_b'') ''pw'') = Inr ?s" by (intro ref_login_dsn)
  have "db_of (neighbour ''a_b'') \<in> databases (ss_cat ?s)"
    by (simp add: i create_stmts_def stmts_defs axb_catalog_def)
  moreover have "list_ex separator ''a_b''" by (simp add: separator_def)
  moreover have "ss_cat ?s = ?c" "ss_who ?s = (user_of ''a_b'', ''127.0.0.1'')" "''127.0.0.1'' \<in> set hosts"
    by (simp_all add: hosts_def)
  note t = isolation_check_misses_neighbour [where s = ?s and h = "''127.0.0.1''" and n = "''a_b''" and p = "''pw''"
      and open_pool = "ref_login ?c", OF reference_session.willing_session_axioms n f this l]
  ultimately show ?thesis using t l unfolding i u by blast
qed

end
