(* ===== verification/AuditFile.thy ===== *)
theory AuditFile
  imports AuditTrail Json
begin

text \<open>
  The audit file of \<open>internal/audit/audit.go\<close>: what \<open>Logger.Write\<close> appends for a record is the
  JSON text of its \<open>Entry\<close> and a newline, or a beginning of it when the write fails. The lemmas
  say that no text a record can hold, a malformed one included, puts a newline into its line;
  the theorems, what a record does to the lines of the file.
\<close>

section \<open>No line break inside a line\<close>

lemma hex_digit_not_break: "n < 16 \<Longrightarrow> hex_digit n \<noteq> line_break"
  using hex_value_digit [of n] by (auto simp: hex_value_def line_break_def char_class_defs)

lemma u_escape_not_break: "line_break \<notin> set (u_escape r)"
proof -
  have "line_break \<noteq> hex_digit (m mod 16)" for m using hex_digit_not_break [of "m mod 16"] by auto
  then show ?thesis by (simp add: u_escape_def) (simp add: line_break_def)
qed

lemma escape_ascii_not_break: "line_break \<notin> set (escape_ascii c)"
  using u_escape_not_break [of "code c"]
  by (auto simp: escape_ascii_def line_break_def split: if_splits)

lemma DecodeRune_high:
  assumes "0x80 \<le> fst (DecodeRune (c # s))" and "\<not> (fst (DecodeRune (c # s)) = RuneError \<and> snd (DecodeRune (c # s)) = 1)"
  shows "list_all (\<lambda>x. 0x80 \<le> code x) (take (snd (DecodeRune (c # s))) (c # s))"
proof -
  have "0x80 \<le> code c" using assms by (auto simp: DecodeRune_def Let_def split: if_splits)
  then obtain n lo hi where l: "lead (code c) = Some (n, lo, hi)" and wf: "well_formed (n, lo, hi) (c # s)"
    and w: "snd (DecodeRune (c # s)) = n"
    using assms by (auto simp: DecodeRune_def Let_def split: option.splits if_splits)
  from l have "0x80 \<le> lo" "2 \<le> n" by (auto simp: lead_def split: if_splits)
  with wf obtain d s' where s: "s = d # s'" "0x80 \<le> code d" "list_all continuation (take (n - 2) s')"
    by (cases s) (auto simp: well_formed_def)
  from \<open>2 \<le> n\<close> obtain k where "n = Suc (Suc k)" by (metis Suc_le_D numeral_2_eq_2 le_Suc_eq Suc_n_not_le_n)
  with s w \<open>0x80 \<le> code c\<close> show ?thesis by (auto simp: list_all_iff continuation_def)
qed

lemma escape_string_not_break: "line_break \<notin> set (escape_string s)"
proof (induction s rule: escape_string.induct)
  case (2 c s)
  let ?rw = "DecodeRune (c # s)"
  have "line_break \<notin> set (take (snd ?rw) (c # s))"
    if "0x80 \<le> fst ?rw" "\<not> (fst ?rw = RuneError \<and> snd ?rw = 1)"
    using DecodeRune_high [OF that] by (auto simp: list_all_iff line_break_def)
  with 2 show ?case
    by (subst escape_string.simps(2)) (auto simp: Let_def escape_ascii_not_break u_escape_not_break not_less)
qed simp

lemma entry_not_break: "line_break \<notin> set (Marshal (Entry_json e))"
  using escape_string_not_break
  by (auto simp: Entry_json_def json_string_def line_break_def [symmetric]) (auto simp: line_break_def)

section \<open>The lines of the file\<close>

lemma entry_line_Split:
  "Split line_break (s @ entry_line x)
     = butlast (Split line_break s) @ [last (Split line_break s) @ Marshal (Entry_json x), []]"
proof -
  have "Split line_break ((s @ Marshal (Entry_json x)) @ [line_break]) = Split line_break (s @ Marshal (Entry_json x)) @ [[]]"
    by (rule Split_snoc) simp
  then show ?thesis by (simp add: entry_line_def Split_more [OF entry_not_break])
qed

definition ascii_entry :: "Entry \<Rightarrow> bool" where
  "ascii_entry e \<longleftrightarrow> list_all ascii [Timestamp e, entAction e, entResource e, entResourceName e,
     entMessage e, entRemoteIP e]"

lemma Unmarshal_entry: "ascii_entry e \<Longrightarrow> Unmarshal (Marshal (Entry_json e)) = Some (Entry_json e)"
  by (rule Unmarshal_Marshal) (simp_all add: Entry_json_def ascii_entry_def max_depth_def ascii_def)

text \<open>The record that \<open>Logger.Write\<close> makes of an audit log entry at a clock reading.\<close>

definition entry_of :: "gotime \<Rightarrow> AuditLog \<Rightarrow> Entry" where
  "entry_of now e =
     \<lparr>Timestamp = formatNano (if IsZero (audCreatedAt e) then now else audCreatedAt e), entAction = Action e,
      entResource = Resource e, entResourceName = ResourceName e, entSuccess = Success e,
      entMessage = Message e, entRemoteIP = RemoteIP e\<rparr>"

lemma sql_call_audit: "sql_call E f w = (r, w') \<Longrightarrow> w_audit w' = w_audit w"
  by (auto simp: sql_call_def split: prod.splits)

text \<open>The bytes a record adds, by its fate: all of its line, the first of them, or none.\<close>

lemma Logger_Write_bytes:
  assumes "Logger_Write E e w = (r, w')"
  shows "\<exists>k. w_audit w' = w_audit w @ take k (entry_line (entry_of (e_time E (w_ticks w)) e))"
    and "r = Ret () \<Longrightarrow> e_toFile E \<Longrightarrow> w_audit w' = w_audit w @ entry_line (entry_of (e_time E (w_ticks w)) e)"
    and "\<not> e_toFile E \<Longrightarrow> w_audit w' = w_audit w"
proof -
  let ?e = "if IsZero (audCreatedAt e) then e\<lparr>audCreatedAt := e_time E (w_ticks w)\<rparr> else e"
  obtain x w1 where c: "sql_call E (\<lambda>t. WriteAudit (e_sql E) t ?e) (w\<lparr>w_ticks := Suc (w_ticks w)\<rparr>) = (x, w1)"
    by (metis surj_pair)
  from sql_call_audit [OF c] have w1: "w_audit w1 = w_audit w" by simp
  obtain er d where o: "os_quiet (e_os E) (w_disk w1) = (er, d)" by (metis surj_pair)
  have full: "er = None \<longleftrightarrow> os_fault (e_os E) (calls (w_disk w1)) = None"
    using o by (auto simp: os_quiet_def sys_call_def split: option.splits prod.splits)
  let ?l = "entry_line (entry_of (e_time E (w_ticks w)) e)"
  have "w_audit w' = w_audit w \<or> w_audit w' = w_audit w @ ?l \<or> (\<exists>k. w_audit w' = w_audit w @ take k ?l)"
    using assms c o w1
    by (auto simp: Logger_Write_def Let_def entry_of_def os_append_def
        split: outcome.splits option.splits if_splits)
  then show "\<exists>k. w_audit w' = w_audit w @ take k ?l"
    by (elim disjE exE) (rule exI [of _ 0], simp, rule exI [of _ "length ?l"], simp, rule exI, assumption)
  show "r = Ret () \<Longrightarrow> e_toFile E \<Longrightarrow> w_audit w' = w_audit w @ entry_line (entry_of (e_time E (w_ticks w)) e)"
    using assms c o w1 full
    by (auto simp: Logger_Write_def Let_def entry_of_def os_append_def split: outcome.splits option.splits)
  show "\<not> e_toFile E \<Longrightarrow> w_audit w' = w_audit w"
    using assms c w1 by (auto simp: Logger_Write_def Let_def split: outcome.splits)
qed

text \<open>C21: a record that is written adds its JSON text to the last, unfinished line of the audit file
  and ends that line, whatever bytes its name, message and address hold: one line is added to
  a file that ends in a newline, and no text can forge a second record. A record that fails
  adds a beginning of its line, possibly none of it, and without the file nothing is added.
  The text of a record, read back as JSON, is the record, if its texts are ASCII.\<close>

theorem audit_line_is_record:
  assumes "Logger_Write E e w = (r, w')" and "x = entry_of (e_time E (w_ticks w)) e"
  shows "(r = Ret () \<and> e_toFile E \<longrightarrow>
        Split line_break (w_audit w') = butlast (Split line_break (w_audit w))
          @ [last (Split line_break (w_audit w)) @ Marshal (Entry_json x), []])
    \<and> (\<exists>k. w_audit w' = w_audit w @ take k (Marshal (Entry_json x) @ [line_break]))
    \<and> (e_toFile E \<or> w_audit w' = w_audit w)
    \<and> (ascii_entry x \<longrightarrow> Unmarshal (Marshal (Entry_json x)) = Some (Entry_json x))"
  using Logger_Write_bytes [OF assms(1)] Unmarshal_entry entry_line_Split
  unfolding assms(2) entry_line_def by auto

definition forging_log :: AuditLog where
  "forging_log = (audit_entry ''database.create'' [] ''1.2.3.4'' False (''x'' @ [line_break] @ ''{}''))
     \<lparr>audCreatedAt := zeroTime\<lparr>yr := 2024\<rparr>\<rparr>"

theorem audit_line_is_record_witness:
  "\<exists>w' l. Logger_Write reference_env forging_log fresh_world = (Ret (), w')
    \<and> Split line_break (w_audit w') = [l, []] \<and> Unmarshal l \<noteq> None"
proof -
  obtain w' where w: "Logger_Write reference_env forging_log fresh_world = (Ret (), w')"
    by (simp add: Logger_Write_def Let_def forging_log_def audit_entry_def IsZero_def sql_call_def WriteAudit_def
        reference_env_def fresh_world_def table_engine_def table_exec_def os_append_def os_quiet_def sys_call_def
        no_fault_def empty_disk_def)
  let ?r = "entry_of (e_time reference_env (w_ticks fresh_world)) forging_log"
  have a: "ascii_entry ?r"
    by (simp add: ascii_entry_def entry_of_def forging_log_def audit_entry_def IsZero_def reference_env_def
        fresh_world_def ascii_def line_break_def formatNano_def format_secs_def zeroTime_def frac_def)
  have f: "e_toFile reference_env" "w_audit fresh_world = []"
    by (simp_all add: reference_env_def fresh_world_def)
  from audit_line_is_record [OF w refl] a f w show ?thesis by (auto simp: Split_end)
qed

text \<open>A beginning that a failed record has left stays in front of the next one, on the same line.\<close>

theorem fragment_joins_next_record:
  assumes "w_audit w = whole @ [line_break] @ take k (Marshal (Entry_json y))"
    and "Logger_Write E e w = (Ret (), w')" and "e_toFile E"
  shows "Split line_break (w_audit w') = Split line_break whole
    @ [take k (Marshal (Entry_json y)) @ Marshal (Entry_json (entry_of (e_time E (w_ticks w)) e)), []]"
proof -
  have "line_break \<notin> set (take k (Marshal (Entry_json y)))" using entry_not_break by (meson in_set_takeD)
  from Split_snoc [OF this, of whole] have "Split line_break (w_audit w)
    = Split line_break whole @ [take k (Marshal (Entry_json y))]" by (simp add: assms(1))
  then show ?thesis by (simp add: Logger_Write_bytes(2) [OF assms(2) refl assms(3)] entry_line_Split)
qed

end
