(* ===== verification/AuditOps.thy ===== *)
theory AuditOps
  imports AuditFile Lifecycle
begin

text \<open>
  Which operations of \<open>internal/provision\<close> leave a record. \<open>same_trail\<close> says that a step leaves
  the audit table and the audit file alone; every call of an operation but the audit helpers
  does. So an operation that changes anything and succeeds ends with one success record, and
  no operation leaves more than one record.
\<close>

definition same_trail :: "('q \<Rightarrow> tables) \<Rightarrow> ('q, 'm) world \<Rightarrow> ('q, 'm) world \<Rightarrow> bool" where
  "same_trail view w w' \<longleftrightarrow>
     audit_logs (view (w_sql w')) = audit_logs (view (w_sql w)) \<and> w_audit w' = w_audit w"

lemma same_trail_refl [simp]: "same_trail view w w"
  by (simp add: same_trail_def)

lemma same_trail_trans: "same_trail view w w1 \<Longrightarrow> same_trail view w1 w2 \<Longrightarrow> same_trail view w w2"
  by (simp add: same_trail_def)

lemma same_trail_other:
  "same_trail view w (snd (my_call f w))" "same_trail view w (snd (disk_call g w))"
  "same_trail view w (snd (draw_call E h w))"
  by (simp_all add: same_trail_def my_call_def disk_call_def draw_call_def split: prod.split)

text \<open>An outcome and the world behind it: at most one record since \<open>w\<close>, and on success exactly the
  attempt to write a success record, as the last thing.\<close>

definition audited ::
    "('q, 'm) env \<Rightarrow> ('q \<Rightarrow> tables) \<Rightarrow> string \<Rightarrow> string \<Rightarrow> string \<Rightarrow> ('q, 'm) world
      \<Rightarrow> 'a outcome \<times> ('q, 'm) world \<Rightarrow> bool" where
  "audited E view a n ip w c \<longleftrightarrow>
     (\<exists>w1. same_trail view w w1
        \<and> ((\<exists>msg. snd c = auditSuccess E a n ip msg w1)
           \<or> \<not> is_ret (fst c) \<and> (snd c = w1 \<or> (\<exists>msg. snd c = auditFailure E a n ip msg w1))))"

lemma audited_intros:
  "same_trail view w w1 \<Longrightarrow> audited E view a n ip w (r, auditSuccess E a n ip msg w1)"
  "same_trail view w w1 \<Longrightarrow> audited E view a n ip w (failed E a n ip e w1)"
  "same_trail view w w1 \<Longrightarrow> audited E view a n ip w (Fail e, w1)"
  "same_trail view w w1 \<Longrightarrow> audited E view a n ip w (Panic p, w1)"
  "same_trail view w w1 \<Longrightarrow> audited E view a n ip w (Fail e, auditFailure E a n ip msg w1)"
  by (auto simp: audited_def failed_def)

lemma audited_on_call:
  assumes "same_trail view w (snd c)"
    and "\<And>e w1. same_trail view w w1 \<Longrightarrow> audited E view a n ip w (h e w1)"
    and "\<And>x w1. same_trail view w w1 \<Longrightarrow> audited E view a n ip w (k x w1)"
  shows "audited E view a n ip w (on_call c h k)"
proof (cases c)
  case (Pair r w1)
  with assms show ?thesis by (cases r) (auto intro: audited_intros)
qed

fun audit_free :: "sql_cmd \<Rightarrow> bool" where
  "audit_free (InsertAudit _ _ _ _ _ _ _) \<longleftrightarrow> False"
| "audit_free _ \<longleftrightarrow> True"

lemma cmd_effect_audit_free: "audit_free c \<Longrightarrow> audit_logs (cmd_effect c t) = audit_logs t"
  by (cases c) simp_all

context service
begin

lemma exec_trail:
  "audit_free c \<Longrightarrow> audit_logs (view (snd (sq_exec (e_sql E) c q))) = audit_logs (view q)"
  using db.exec_view [of c q] cmd_effect_audit_free [of c] by auto

lemma sql_trail:
  assumes "\<And>t q. audit_logs (view (snd (f t q))) = audit_logs (view q)" and "same_trail view w w1"
  shows "same_trail view w (snd (sql_call E f w1))"
  using assms(2) assms(1) [of "e_time E (w_ticks w1)" "w_sql w1"]
  by (cases "f (e_time E (w_ticks w1)) (w_sql w1)") (simp add: same_trail_def sql_call_def)

lemma exec_fst_trail:
  "sq_exec (e_sql E) c q = (e, q') \<Longrightarrow> audit_free c \<Longrightarrow> audit_logs (view q') = audit_logs (view q)"
  using exec_trail [of c q] by simp

lemma store_trail:
  "audit_logs (view (snd (UpdateProjectStatus (e_sql E) t n s m q))) = audit_logs (view q)"
  "audit_logs (view (snd (CreateProject (e_sql E) t p q))) = audit_logs (view q)"
  "audit_logs (view (snd (DeleteProject (e_sql E) n q))) = audit_logs (view q)"
  by (simp_all add: UpdateProjectStatus_def CreateProject_def DeleteProject_def Let_def
      split: prod.split option.split) (auto dest!: exec_fst_trail)

lemmas sql_trails = sql_trail [OF store_trail(1)] sql_trail [OF store_trail(2)] sql_trail [OF store_trail(3)]

lemma trail_steps:
  "same_trail view w w1 \<Longrightarrow> same_trail view w (snd (my_call f w1))"
  "same_trail view w w1 \<Longrightarrow> same_trail view w (snd (disk_call g w1))"
  "same_trail view w w1 \<Longrightarrow> same_trail view w (snd (draw_call E h w1))"
  by (rule same_trail_trans, assumption, rule same_trail_other)+

lemma trail_markError: "same_trail view w w1 \<Longrightarrow> same_trail view w (markError E n e w1)"
  unfolding markError_def by (rule sql_trails)

lemmas audited_steps = audited_on_call audited_intros trail_steps sql_trails trail_markError

lemma audited_finish:
  "same_trail view w w1 \<Longrightarrow> audited E view ActionDatabaseCreate n ip w (create_finish E n ip w1)"
  unfolding create_finish_def by (intro audited_steps) (simp_all add: audited_steps)

lemma audited_secret:
  "same_trail view w w1 \<Longrightarrow> audited E view ActionDatabaseCreate n ip w (create_secret E n ip d u p w1)"
  unfolding create_secret_def by (intro audited_steps audited_finish) (simp_all add: audited_steps)

lemma audited_grant:
  "same_trail view w w1 \<Longrightarrow> audited E view ActionDatabaseCreate n ip w (create_grant E n ip d u p w1)"
  unfolding create_grant_def Let_def by (intro audited_steps audited_secret) (simp_all add: audited_steps)

lemma audited_user:
  "same_trail view w w1 \<Longrightarrow> audited E view ActionDatabaseCreate n ip w (create_user E n ip d u p w1)"
  unfolding create_user_def Let_def by (intro audited_steps audited_grant) (simp_all add: audited_steps)

lemma audited_provision:
  "same_trail view w w1 \<Longrightarrow> audited E view ActionDatabaseCreate n ip w (create_provision E n ip d u w1)"
  unfolding create_provision_def by (intro audited_steps audited_user) (simp_all add: audited_steps)

lemma audited_create_new: "audited E view ActionDatabaseCreate n ip w (create_new E n ip w)"
  unfolding create_new_def
proof (rule audited_on_call)
  show "audited E view ActionDatabaseCreate n ip w
      (if e = StoreErrConflict
       then case GetProject (e_sql E) n (w_sql w1) of
              Ret existing \<Rightarrow> idempotent E n ip existing w1
            | Fail _ \<Rightarrow> (Fail ErrAlreadyExists, w1) | Panic p \<Rightarrow> (Panic p, w1)
       else failed E ActionDatabaseCreate n ip e w1)" if "same_trail view w w1" for e w1
    using that by (auto simp: idempotent_def audited_intros split: outcome.split)
qed (simp_all add: audited_steps audited_provision)

lemma audited_Create: "audited E view ActionDatabaseCreate n ip w (Service_Create E n ip w)"
  unfolding Service_Create_def idempotent_def
  by (auto simp: audited_intros audited_create_new split: option.split outcome.split)

lemma audited_Rotate: "audited E view ActionDatabaseRotate n ip w (Service_Rotate E n ip w)"
proof (cases "ValidateProjectName n")
  case None
  then show ?thesis
    unfolding Service_Rotate_def None option.case Let_def
    by (intro audited_on_call) (simp_all add: audited_steps)
qed (simp add: Service_Rotate_def audited_intros)

lemma trail_then_attempt:
  assumes "same_trail view w (snd c)" and "\<And>w1. same_trail view w w1 \<Longrightarrow> same_trail view w (snd (f w1))"
  shows "same_trail view w (snd (then_attempt l f c))"
proof (cases c)
  case (Pair x w1)
  with assms show ?thesis by (cases x; cases "f w1"; cases "fst (f w1)") force+
qed

lemma trail_delete_all: "same_trail view w (snd (delete_all E n p w))"
  unfolding delete_all_def by (intro trail_then_attempt) (simp_all add: trail_steps sql_trails)

lemma audited_Delete: "audited E view ActionDatabaseDelete n ip w (Service_Delete E n c ip w)"
proof (cases "ValidateProjectName n = None \<and> c \<noteq> [] \<and> c = n")
  case True
  have d: "audited E view ActionDatabaseDelete n ip w
      (case delete_all E n p w1 of
         (Inr m, w) \<Rightarrow> (Panic m, w)
       | (Inl partial, w) \<Rightarrow>
           (if partial \<noteq> [] then failed E ActionDatabaseDelete n ip (ErrText (''partial failure: '' @ joinComma partial)) w
            else (Ret (), auditSuccess E ActionDatabaseDelete n ip ''deleted'' w)))"
    if "same_trail view w w1" for p w1
    using same_trail_trans [OF that trail_delete_all [of w1 n p]]
    by (cases "delete_all E n p w1") (simp add: audited_intros split: sum.split)
  from True show ?thesis
    by (simp add: Service_Delete_def audited_on_call audited_intros d)
next
  case False
  then show ?thesis by (auto simp: Service_Delete_def audited_intros split: option.split)
qed

text \<open>What the attempt to write a record leaves in the audit table: the record, or nothing when the
  database has refused the insertion, whose error is dropped.\<close>

lemma Logger_Write_row:
  assumes "Logger_Write E e w = (r, w')" and "IsZero (audCreatedAt e)"
  shows "\<exists>t er. fst (sq_exec (e_sql E) (InsertAudit (Action e) (Resource e) (ResourceName e) (boolToInt (Success e))
              (Message e) (RemoteIP e) (formatNano t)) (w_sql w)) = er
     \<and> audit_logs (view (w_sql w')) = audit_logs (view (w_sql w)) @
         (if er = None then
            [\<lparr>a_id = audit_seq (view (w_sql w)) + 1, a_action = Action e, a_resource = Resource e,
              a_name = ResourceName e, a_success = boolToInt (Success e), a_message = Message e,
              a_ip = RemoteIP e, a_created = formatNano t\<rparr>] else [])"
proof -
  let ?w = "w\<lparr>w_ticks := Suc (w_ticks w)\<rparr>"
  let ?t = "let now = e_time E (w_ticks w) in if IsZero now then e_time E (Suc (w_ticks w)) else now"
  let ?c = "InsertAudit (Action e) (Resource e) (ResourceName e) (boolToInt (Success e)) (Message e) (RemoteIP e)
    (formatNano ?t)"
  obtain er q where x: "sq_exec (e_sql E) ?c (w_sql w) = (er, q)" by (metis surj_pair)
  have "w_sql w' = q"
    using assms x by (auto simp: Logger_Write_def Let_def sql_call_def WriteAudit_def
      split: outcome.splits option.splits prod.splits if_splits)
  moreover have "er = None \<Longrightarrow> view q = cmd_effect ?c (view (w_sql w))" using db.exec_ok x by blast
  moreover have "er \<noteq> None \<Longrightarrow> view q = view (w_sql w)" using db.exec_err x by blast
  ultimately show ?thesis using x by (intro exI [of _ ?t] exI [of _ er]) auto
qed

end

text \<open>
  \<open>recorded E view a n ip w w'\<close>: since \<open>w\<close> one insertion into the audit table was made, with action
  \<open>a\<close>, name \<open>n\<close>, address \<open>ip\<close> and the mark of success, and the table has grown by exactly that
  row, unless SQLite answered the insertion with an error.
\<close>

definition recorded ::
    "('q, 'm) env \<Rightarrow> ('q \<Rightarrow> tables) \<Rightarrow> string \<Rightarrow> string \<Rightarrow> string \<Rightarrow> ('q, 'm) world \<Rightarrow> ('q, 'm) world \<Rightarrow> bool" where
  "recorded E view a n ip w w' \<longleftrightarrow>
     (\<exists>q msg t. let er = fst (sq_exec (e_sql E) (InsertAudit a ''database'' n 1 msg ip t) q) in
        (er = None \<longrightarrow> (\<exists>i. audit_logs (view (w_sql w')) = audit_logs (view (w_sql w)) @
           [\<lparr>a_id = i, a_action = a, a_resource = ''database'', a_name = n, a_success = 1, a_message = msg,
             a_ip = ip, a_created = t\<rparr>]))
      \<and> (er \<noteq> None \<longrightarrow> audit_logs (view (w_sql w')) = audit_logs (view (w_sql w))))"

lemma audited_recorded:
  assumes "service E view cat" and "audited E view a n ip w (Ret x, w')"
  shows "recorded E view a n ip w w'"
proof -
  from assms(2) obtain w1 msg where w1: "same_trail view w w1" and w': "w' = auditSuccess E a n ip msg w1"
    by (auto simp: audited_def)
  obtain r w2 where l: "Logger_Write E (audit_entry a n ip True msg) w1 = (r, w2)" by (metis surj_pair)
  with w' have "w' = w2" by (simp add: auditSuccess_def)
  moreover obtain t where "audit_logs (view (w_sql w2)) = audit_logs (view (w_sql w1)) @
         (if fst (sq_exec (e_sql E) (InsertAudit a ''database'' n 1 msg ip (formatNano t)) (w_sql w1)) = None then
            [\<lparr>a_id = audit_seq (view (w_sql w1)) + 1, a_action = a, a_resource = ''database'', a_name = n,
              a_success = 1, a_message = msg, a_ip = ip, a_created = formatNano t\<rparr>] else [])"
    using service.Logger_Write_row [OF assms(1) l] unfolding audit_entry_def IsZero_def boolToInt_def
    by (simp only: AuditLog.simps simp_thms if_True) blast
  ultimately show ?thesis using w1
    unfolding recorded_def same_trail_def Let_def
    by (intro exI [of _ "w_sql w1"] exI [of _ msg] exI [of _ "formatNano t"]) auto
qed

text \<open>C20: a creation, rotation or deletion that succeeds has added exactly one success record with its
  action, project and client address to the audit table, unless SQLite refused that insertion.
  An operation that is refused because of an unfinished project of that name, or whose
  password cannot be drawn, leaves no record at all.\<close>

theorem successful_changes_are_audited:
  assumes "service E view cat"
  shows "(Service_Create E n ip w = (Ret c, w1) \<longrightarrow> recorded E view ActionDatabaseCreate n ip w w1)
    \<and> (Service_Rotate E n ip w = (Ret p, w2) \<longrightarrow> recorded E view ActionDatabaseRotate n ip w w2)
    \<and> (Service_Delete E n k ip w = (Ret u, w3) \<longrightarrow> recorded E view ActionDatabaseDelete n ip w w3)
    \<and> (valid_name n \<and> GetProject (e_sql E) n (w_sql w) = Ret x \<and> Status x \<noteq> StatusReady
        \<longrightarrow> snd (Service_Create E n ip w) = w)
    \<and> (valid_name n \<and> GetProject (e_sql E) n (w_sql w) = Ret x \<and> fst (RandomPassword (e_entropy E) (w_draws w)) = Fail e
        \<longrightarrow> same_trail view w (snd (Service_Rotate E n ip w)))"
proof (intro conjI impI)
  show "recorded E view ActionDatabaseCreate n ip w w1" if "Service_Create E n ip w = (Ret c, w1)"
    using audited_recorded [OF assms] service.audited_Create [OF assms, of n ip w] that by simp
  show "recorded E view ActionDatabaseRotate n ip w w2" if "Service_Rotate E n ip w = (Ret p, w2)"
    using audited_recorded [OF assms] service.audited_Rotate [OF assms, of n ip w] that by simp
  show "recorded E view ActionDatabaseDelete n ip w w3" if "Service_Delete E n k ip w = (Ret u, w3)"
    using audited_recorded [OF assms] service.audited_Delete [OF assms, of n ip w k] that by simp
qed (auto simp: Service_Create_def Service_Rotate_def same_trail_def draw_call_def split: prod.split)

theorem successful_changes_are_audited_witness:
  "\<exists>w'. audit_logs (w_sql (snd (Service_Create reference_env ''app'' ''ip'' fresh_world))) = [w']
    \<and> a_action w' = ActionDatabaseCreate \<and> a_name w' = ''app'' \<and> a_success w' = 1"
proof -
  have none: "project_map (w_sql fresh_world) ''app'' = None"
    by (simp add: fresh_world_def empty_tables_def project_map_def select_project_def)
  have "valid_name ''app''" by (simp add: valid_name_iff name_char_def char_class_defs)
  then obtain c w1 where w1: "Service_Create reference_env ''app'' ''ip'' fresh_world = (Ret c, w1)"
    using ref_Create [of "''app''" fresh_world "''ip''"] none by (auto simp: fresh_world_def empty_disk_def)
  have "fst (sq_exec (e_sql reference_env) (InsertAudit a r n s m i t) q) = None" for a r n s m i t q
    by (simp add: reference_env_def table_engine_def table_exec_def)
  moreover have "audit_logs (w_sql fresh_world) = []" by (simp add: fresh_world_def empty_tables_def)
  ultimately show ?thesis
    using successful_changes_are_audited [OF reference_service.service_axioms, THEN conjunct1, rule_format, OF w1] w1
    by (auto simp: recorded_def Let_def)
qed

end
