(* ===== verification/Secrecy.thy ===== *)
theory Secrecy
  imports Api
begin

text \<open>
  What can be learnt about the generated passwords. Two runs that differ only in the random
  bytes are compared: \<open>alike\<close> worlds agree on the metadata, the audit records, the log and which
  files exist with which mode, and differ at most in the passwords of MySQL and in the
  contents of files. The locale \<open>blind_server\<close> is the contract of a MySQL server whose answers
  do not depend on a password. The theorem says that then no sequence of requests tells the
  two runs apart.
\<close>

section \<open>Statements up to their password\<close>

fun forget :: "my_stmt \<Rightarrow> my_stmt" where
  "forget (SCreateUser u h p) = SCreateUser u h []"
| "forget (SAlterUser u h p) = SAlterUser u h []"
| "forget st = st"

locale blind_server =
  fixes run :: "'m run" and sim :: "'m \<Rightarrow> 'm \<Rightarrow> bool"
  assumes blind: "stmt_wf st \<Longrightarrow> stmt_wf st' \<Longrightarrow> forget st = forget st' \<Longrightarrow> sim m m' \<Longrightarrow>
      fst (run (stmt_text st) m) = fst (run (stmt_text st') m')
      \<and> sim (snd (run (stmt_text st) m)) (snd (run (stmt_text st') m'))"

text \<open>Outcomes with related states.\<close>

definition related :: "('s \<Rightarrow> 's \<Rightarrow> bool) \<Rightarrow> 'a \<times> 's \<Rightarrow> 'a \<times> 's \<Rightarrow> bool" where
  "related R c c' \<longleftrightarrow> fst c = fst c' \<and> R (snd c) (snd c')"

lemma related_pair [simp]: "related R (r, s) (r', s') \<longleftrightarrow> r = r' \<and> R s s'"
  by (simp add: related_def)

context blind_server
begin

lemma exec_one_related:
  assumes "stmt_wf st" "stmt_wf st'" "forget st = forget st'" "sim m m'"
  shows "related sim (exec_one run w (stmt_text st) m) (exec_one run w (stmt_text st') m')"
  using blind [OF assms] by (auto simp: exec_one_def split: prod.split option.split)

lemma exec_hosts_related:
  assumes "\<And>h. h \<in> set hs \<Longrightarrow> txt h = Ret (stmt_text (st h)) \<and> txt' h = Ret (stmt_text (st' h))
      \<and> stmt_wf (st h) \<and> stmt_wf (st' h) \<and> forget (st h) = forget (st' h)"
    and "sim m m'"
  shows "related sim (exec_hosts run w txt hs m) (exec_hosts run w txt' hs m')"
  using assms
proof (induction hs arbitrary: m m')
  case (Cons h hs)
  obtain r m1 where 1: "exec_one run (w @ ''@'' @ h) (stmt_text (st h)) m = (r, m1)" by (metis surj_pair)
  obtain r' m1' where 2: "exec_one run (w @ ''@'' @ h) (stmt_text (st' h)) m' = (r', m1')" by (metis surj_pair)
  have "related sim (r, m1) (r', m1')"
    using exec_one_related [of "st h" "st' h" m m' "w @ ''@'' @ h"] Cons.prems 1 2 by simp
  then show ?case
    using Cons.IH [of m1 m1'] Cons.prems 1 2 by (cases r) auto
qed simp

lemma EnsureDatabase_related: "sim m m' \<Longrightarrow> related sim (EnsureDatabase run d m) (EnsureDatabase run d m')"
  unfolding EnsureDatabase_def by (cases "assertIdentifier d") (simp_all del: stmt_text.simps add: exec_one_related)

lemma DropDatabase_related: "sim m m' \<Longrightarrow> related sim (DropDatabase run d m) (DropDatabase run d m')"
  unfolding DropDatabase_def by (cases "assertIdentifier d") (simp_all del: stmt_text.simps add: exec_one_related)

lemma DropUser_related: "sim m m' \<Longrightarrow> related sim (DropUser run u m) (DropUser run u m')"
  unfolding DropUser_def
  by (cases "assertIdentifier u") (auto simp del: stmt_text.simps intro!: exec_hosts_related)

lemma with_literal_stmt:
  "isSafePasswordLiteral p \<Longrightarrow> with_literal (create_user_text u h) p = Ret (stmt_text (SCreateUser u h p))"
  "isSafePasswordLiteral p \<Longrightarrow> with_literal (alter_user_text u h) p = Ret (stmt_text (SAlterUser u h p))"
  by (simp_all add: with_literal_def quoteMySQLString_def)

lemma EnsureUser_related:
  assumes "isSafePasswordLiteral p" "isSafePasswordLiteral p'" "sim m m'"
  shows "related sim (EnsureUser run u p m) (EnsureUser run u p' m')"
proof -
  have "p \<noteq> []" "p' \<noteq> []" using assms(1,2) by (auto simp: isSafePasswordLiteral_def)
  moreover have "related sim
      (exec_hosts run w (\<lambda>h. with_literal (create_user_text u h) p) hosts m)
      (exec_hosts run w (\<lambda>h. with_literal (create_user_text u h) p') hosts m')" if "ident u" for w
    using assms that
    by (intro exec_hosts_related [where st = "\<lambda>h. SCreateUser u h p" and st' = "\<lambda>h. SCreateUser u h p'"])
       (simp_all add: with_literal_stmt del: stmt_text.simps)
  ultimately show ?thesis
    using assms(3) by (cases "assertIdentifier u") (simp_all add: EnsureUser_def)
qed

lemma SetUserPassword_related:
  assumes "isSafePasswordLiteral p" "isSafePasswordLiteral p'" "sim m m'"
  shows "related sim (SetUserPassword run u p m) (SetUserPassword run u p' m')"
proof -
  have "p \<noteq> []" "p' \<noteq> []" using assms(1,2) by (auto simp: isSafePasswordLiteral_def)
  moreover have "related sim
      (exec_hosts run w (\<lambda>h. with_literal (alter_user_text u h) p) hosts m)
      (exec_hosts run w (\<lambda>h. with_literal (alter_user_text u h) p') hosts m')" if "ident u" for w
    using assms that
    by (intro exec_hosts_related [where st = "\<lambda>h. SAlterUser u h p" and st' = "\<lambda>h. SAlterUser u h p'"])
       (simp_all add: with_literal_stmt del: stmt_text.simps)
  ultimately show ?thesis
    using assms(3) by (cases "assertIdentifier u") (simp_all add: SetUserPassword_def)
qed

lemma Grant_related:
  assumes "sim m m'"
  shows "related sim (GrantProjectPrivileges run d u a m) (GrantProjectPrivileges run d u a m')"
proof (cases "ident d \<and> ident u")
  case True
  let ?g = "\<lambda>m. exec_hosts run ''grant'' (\<lambda>h. Ret (stmt_text (SGrant a d u h))) hosts m"
  have "related sim (?g m) (?g m')"
    using True assms
    by (intro exec_hosts_related [where st = "SGrant a d u" and st' = "SGrant a d u"]) (simp_all del: stmt_text.simps)
  then show ?thesis
    using True exec_one_related [of SFlush SFlush]
    by (cases "?g m"; cases "?g m'"; cases "fst (?g m)")
       (simp_all add: GrantProjectPrivileges_def del: stmt_text.simps)
next
  case False
  with assms show ?thesis by (auto simp: GrantProjectPrivileges_def split: option.split)
qed

end

section \<open>The reference server is blind\<close>

definition same_accounts :: "catalog \<Rightarrow> catalog \<Rightarrow> bool" where
  "same_accounts c c' \<longleftrightarrow>
     databases c = databases c' \<and> grants c = grants c' \<and> dom (accounts c) = dom (accounts c')"

lemma same_accounts_at: "same_accounts c c' \<Longrightarrow> accounts c a = None \<longleftrightarrow> accounts c' a = None"
  unfolding same_accounts_def by (metis domIff)

lemma forget_effect:
  assumes "forget st = forget st'" and "same_accounts c c'"
  shows "stmt_enabled st c = stmt_enabled st' c' \<and> same_accounts (stmt_effect st c) (stmt_effect st' c')"
  using assms same_accounts_at [OF assms(2)]
  by (cases st; cases st') (auto simp: same_accounts_def)

interpretation reference_blind: blind_server ref_run same_accounts
proof
  show "fst (ref_run (stmt_text st) m) = fst (ref_run (stmt_text st') m')
      \<and> same_accounts (snd (ref_run (stmt_text st) m)) (snd (ref_run (stmt_text st') m'))"
    if "stmt_wf st" "stmt_wf st'" "forget st = forget st'" "same_accounts m m'" for st st' m m'
    using forget_effect [OF that(3,4)] that by (simp add: ref_run_stmt)
qed

section \<open>Disks up to contents\<close>

definition same_modes :: "files \<Rightarrow> files \<Rightarrow> bool" where
  "same_modes f f' \<longleftrightarrow> (\<forall>p. map_option mode (f p) = map_option mode (f' p))"

definition same_files :: "disk \<Rightarrow> disk \<Rightarrow> bool" where
  "same_files d d' \<longleftrightarrow> calls d = calls d' \<and> same_modes (files d) (files d')"

lemma same_modes_at: "same_modes f f' \<Longrightarrow> f p = None \<longleftrightarrow> f' p = None"
  unfolding same_modes_def by (metis option.map_disc_iff)

lemma same_files_at: "same_files d d' \<Longrightarrow> files d p = None \<longleftrightarrow> files d' p = None"
  unfolding same_files_def using same_modes_at by blast

lemma sys_call_related:
  assumes "same_files d d'"
    and "\<And>n f f'. same_modes f f' \<Longrightarrow> same_modes (bad n f) (bad' n f')"
    and "\<And>f f'. same_modes f f' \<Longrightarrow> same_modes (good f) (good' f')"
  shows "related same_files (sys_call os bad good d) (sys_call os bad' good' d')"
  using assms by (auto simp: sys_call_def same_files_def split: option.split)

lemma append_modes: "same_modes f f' \<Longrightarrow> same_modes (append_to q s f) (append_to q s' f')"
  using same_modes_at [of f f' q] by (auto simp: append_to_def same_modes_def split: option.split)
    (metis option.inject option.simps(9))+

lemma set_mode_modes: "same_modes f f' \<Longrightarrow> same_modes (set_mode q m f) (set_mode q m f')"
  using same_modes_at [of f f' q] by (auto simp: set_mode_def same_modes_def split: option.split)

lemma update_modes:
  "same_modes f f' \<Longrightarrow> same_modes (f(p := x)) (f'(p := x))"
  "same_modes f f' \<Longrightarrow> same_modes ((f(q := f p))(p := None)) ((f'(q := f' p))(p := None))"
  by (simp_all add: same_modes_def)

lemmas modes_intros = append_modes set_mode_modes update_modes

lemma os_related:
  assumes "same_files d d'"
  shows "related same_files (os_quiet os d) (os_quiet os d')"
    and "related same_files (os_write os p s d) (os_write os p s' d')"
    and "related same_files (os_chmod os p m d) (os_chmod os p m d')"
    and "related same_files (os_rename os p q d) (os_rename os p q d')"
    and "related same_files (os_remove os p d) (os_remove os p d')"
    and "related same_files (os_create_temp os dir pre suf d) (os_create_temp os dir pre suf d')"
proof -
  show quiet: "related same_files (os_quiet os d) (os_quiet os d')"
    unfolding os_quiet_def using assms by (rule sys_call_related) simp_all
  show "related same_files (os_write os p s d) (os_write os p s' d')"
    unfolding os_write_def using assms by (rule sys_call_related) (simp_all add: modes_intros)
  show "related same_files (os_chmod os p m d) (os_chmod os p m d')"
    unfolding os_chmod_def using assms by (rule sys_call_related) (simp_all add: modes_intros)
  show "related same_files (os_rename os p q d) (os_rename os p q d')"
    unfolding os_rename_def using assms by (rule sys_call_related) (simp_all add: modes_intros)
  have "related same_files (sys_call os (\<lambda>_ f. f) (\<lambda>f. f(p := None)) d) (sys_call os (\<lambda>_ f. f) (\<lambda>f. f(p := None)) d')"
    using assms by (rule sys_call_related) (simp_all add: modes_intros)
  then show "related same_files (os_remove os p d) (os_remove os p d')"
    using same_files_at [OF assms, of p]
    by (auto simp: os_remove_def Let_def split: prod.split option.split)
  have taken: "(\<lambda>r. files d (temp_path dir pre suf r) \<noteq> None) = (\<lambda>r. files d' (temp_path dir pre suf r) \<noteq> None)"
    using same_files_at [OF assms] by simp
  have c: "calls d = calls d'" using assms by (simp add: same_files_def)
  have new: "related same_files (sys_call os (\<lambda>_ f. f) (\<lambda>f. f(t \<mapsto> x)) d) (sys_call os (\<lambda>_ f. f) (\<lambda>f. f(t \<mapsto> x)) d')" for t x
    using assms by (rule sys_call_related) (simp_all add: modes_intros)
  show "related same_files (os_create_temp os dir pre suf d) (os_create_temp os dir pre suf d')"
  proof (cases "pick_free 10000 (os_rand os) (calls d') (\<lambda>r. files d' (temp_path dir pre suf r) \<noteq> None)")
    case None
    with quiet show ?thesis unfolding os_create_temp_def taken c by (simp add: related_def)
  next
    case (Some r)
    let ?new = "\<lambda>d. sys_call os (\<lambda>_ f. f) (\<lambda>f. f(temp_path dir pre suf r \<mapsto> \<lparr>content = [], mode = m0600\<rparr>)) d"
    show ?thesis
      using new [of "temp_path dir pre suf r" "\<lparr>content = [], mode = m0600\<rparr>"]
      unfolding os_create_temp_def taken c Some
      by (cases "?new d"; cases "?new d'") (auto simp: Let_def split: option.split)
  qed
qed

lemma related_snd: "related R c c' \<Longrightarrow> R (snd c) (snd c')"
  by (simp add: related_def)

text \<open>A chain of calls: the second is made in the state of the first.\<close>

lemma related_case_option:
  assumes "related R c c'"
    and "\<And>e d d'. R d d' \<Longrightarrow> related R (h e d) (h' e d')" and "\<And>d d'. R d d' \<Longrightarrow> related R (k d) (k' d')"
  shows "related R (case c of (Some e, d) \<Rightarrow> h e d | (None, d) \<Rightarrow> k d)
    (case c' of (Some e, d) \<Rightarrow> h' e d | (None, d) \<Rightarrow> k' d)"
  using assms by (cases c; cases c'; cases "fst c") auto

lemmas quiet_related = related_snd [OF os_related(1)]

lemma fill_temp_related:
  "same_files d d' \<Longrightarrow> related same_files (fill_temp os t b d) (fill_temp os t b' d')"
  unfolding fill_temp_def
  by (rule related_case_option [OF os_related(2)], assumption, simp add: quiet_related,
      rule related_case_option [OF os_related(3)], assumption, simp add: quiet_related,
      rule related_case_option [OF os_related(1)], assumption, simp add: quiet_related,
      rule related_case_option [OF os_related(1)], assumption, simp_all)

lemma sync_dir_related: "same_files d d' \<Longrightarrow> same_files (sync_dir os d) (sync_dir os d')"
proof -
  assume "same_files d d'"
  with os_related(1) [OF this, of os] show ?thesis
    by (cases "os_quiet os d"; cases "os_quiet os d'") (auto simp: sync_dir_def intro!: quiet_related split: option.split)
qed

lemma replace_file_related:
  "same_files d d' \<Longrightarrow> related same_files (replace_file os f t b d) (replace_file os f t b' d')"
  unfolding replace_file_def
  by (rule related_case_option [OF fill_temp_related], assumption, simp,
      rule related_case_option [OF os_related(4)], assumption, simp_all add: sync_dir_related)

lemma Writer_Write_related:
  assumes "same_files d d'" and "secPassword s \<noteq> []" "p \<noteq> []"
  shows "related same_files (Writer_Write os dir s d) (Writer_Write os dir (s\<lparr>secPassword := p\<rparr>) d')"
proof (cases "secName s = [] \<or> secDatabase s = [] \<or> secUser s = []
    \<or> first_error [validateIdentifier (secName s), validateIdentifier (secDatabase s), validateIdentifier (secUser s)] \<noteq> None")
  case True
  with assms show ?thesis by (auto simp: Writer_Write_def)
next
  case False
  obtain x d1 where t: "os_create_temp os dir (''.'' @ secName s @ ''.'') ''.tmp'' d = (x, d1)" by (metis surj_pair)
  obtain d1' where t': "os_create_temp os dir (''.'' @ secName s @ ''.'') ''.tmp'' d' = (x, d1')" and r: "same_files d1 d1'"
    using os_related(6) [OF assms(1), of os dir "''.'' @ secName s @ ''.''" "''.tmp''"] t
    by (cases "os_create_temp os dir (''.'' @ secName s @ ''.'') ''.tmp'' d'") simp
  show ?thesis
  proof (cases x)
    case (Inr tmp)
    let ?c = "replace_file os (Path dir (secName s)) tmp (renderEnv s) d1"
    let ?c' = "replace_file os (Path dir (secName s)) tmp (renderEnv (s\<lparr>secPassword := p\<rparr>)) d1'"
    have "related same_files ?c ?c'" using r by (rule replace_file_related)
    then have "related same_files (fst ?c, snd (os_remove os tmp (snd ?c))) (fst ?c', snd (os_remove os tmp (snd ?c')))"
      by (simp add: related_def related_snd [OF os_related(5)])
    with False assms(2,3) t t' Inr show ?thesis by (cases ?c; cases ?c') (simp add: Writer_Write_def)
  qed (use False assms t t' r in \<open>simp add: Writer_Write_def\<close>)
qed

lemma Writer_Delete_related:
  assumes "same_files d d'"
  shows "related same_files (Writer_Delete os dir n d) (Writer_Delete os dir n d')"
  using os_related(5) [OF assms, of os "Path dir n"] assms
  by (auto simp: Writer_Delete_def split: option.split prod.split remove_result.split)

section \<open>Worlds up to passwords\<close>

definition alike :: "('m \<Rightarrow> 'm \<Rightarrow> bool) \<Rightarrow> ('q, 'm) world \<Rightarrow> ('q, 'm) world \<Rightarrow> bool" where
  "alike sim w w' \<longleftrightarrow>
     w_sql w = w_sql w' \<and> sim (w_my w) (w_my w') \<and> same_files (w_disk w) (w_disk w')
   \<and> w_ticks w = w_ticks w' \<and> w_draws w = w_draws w' \<and> w_audit w = w_audit w'
   \<and> w_warnings w = w_warnings w' \<and> w_access w = w_access w' \<and> w_errors w = w_errors w'"

abbreviation agree ::
    "('m \<Rightarrow> 'm \<Rightarrow> bool) \<Rightarrow> 'a \<times> ('q, 'm) world \<Rightarrow> 'a \<times> ('q, 'm) world \<Rightarrow> bool" where
  "agree sim \<equiv> related (alike sim)"

text \<open>Random sources whose reads fail at the same places with the same errors.\<close>

definition same_failures :: "entropy \<Rightarrow> entropy \<Rightarrow> bool" where
  "same_failures ent ent' \<longleftrightarrow> (\<forall>k. map_sum id (\<lambda>_. ()) (ent k) = map_sum id (\<lambda>_. ()) (ent' k))"

lemma rand_read_related:
  assumes "same_failures ent ent'"
  shows "(\<exists>e. rand_read ent k n = Inl e \<and> rand_read ent' k n = Inl e)
    \<or> (\<exists>a b. rand_read ent k n = Inr a \<and> rand_read ent' k n = Inr b)"
proof -
  have "map_sum id (\<lambda>_. ()) (ent k) = map_sum id (\<lambda>_. ()) (ent' k)" using assms by (simp add: same_failures_def)
  then show ?thesis by (cases "ent k"; cases "ent' k") (simp_all add: rand_read_def)
qed

lemma RandomPassword_related:
  assumes "same_failures ent ent'"
  shows "(\<exists>e j. RandomPassword ent k = (Fail e, j) \<and> RandomPassword ent' k = (Fail e, j))
    \<or> (\<exists>p p' j. RandomPassword ent k = (Ret p, j) \<and> RandomPassword ent' k = (Ret p', j))"
proof -
  have len: "length (EncodeToString buf) = 32" if "rand_read x k 24 = Inr buf" for x buf
    using rand_read_length [OF that] length_encode3 [of buf 8] by simp
  show ?thesis
    using rand_read_related [OF assms, of k 24] rand_read_related [OF assms, of "Suc k" 4]
    by (auto simp: RandomPassword_def Let_def len)
qed

lemma agree_on_call:
  assumes "agree sim c c'"
    and "\<And>e w w'. alike sim w w' \<Longrightarrow> agree sim (h e w) (h' e w')"
    and "\<And>x w w'. alike sim w w' \<Longrightarrow> agree sim (k x w) (k' x w')"
  shows "agree sim (on_call c h k) (on_call c' h' k')"
  using assms by (cases c; cases c'; cases "fst c") auto

lemma agree_my_call:
  assumes "alike sim w w'" and "\<And>m m'. sim m m' \<Longrightarrow> related sim (f m) (f' m')"
  shows "agree sim (my_call f w) (my_call f' w')"
proof -
  have "related sim (f (w_my w)) (f' (w_my w'))" using assms by (simp add: alike_def)
  with assms(1) show ?thesis
    by (cases "f (w_my w)"; cases "f' (w_my w')") (simp add: my_call_def alike_def)
qed

lemma agree_disk_call:
  assumes "alike sim w w'" and "\<And>d d'. same_files d d' \<Longrightarrow> related same_files (f d) (f' d')"
  shows "agree sim (disk_call f w) (disk_call f' w')"
proof -
  have "related same_files (f (w_disk w)) (f' (w_disk w'))" using assms by (simp add: alike_def)
  with assms(1) show ?thesis
    by (cases "f (w_disk w)"; cases "f' (w_disk w')") (simp add: disk_call_def alike_def)
qed

lemma agree_sql_call:
  assumes "alike sim w w'" and "e_time E' = e_time E"
  shows "agree sim (sql_call E f w) (sql_call E' f w')"
  using assms by (cases "f (e_time E (w_ticks w)) (w_sql w)") (auto simp: sql_call_def alike_def)

lemma alike_logs:
  "alike sim w w' \<Longrightarrow> alike sim (w\<lparr>w_ticks := Suc (w_ticks w)\<rparr>) (w'\<lparr>w_ticks := Suc (w_ticks w')\<rparr>)"
  "alike sim w w' \<Longrightarrow> alike sim (w\<lparr>w_warnings := w_warnings w @ x\<rparr>) (w'\<lparr>w_warnings := w_warnings w' @ x\<rparr>)"
  "alike sim w w' \<Longrightarrow> alike sim (w\<lparr>w_errors := w_errors w @ y\<rparr>) (w'\<lparr>w_errors := w_errors w' @ y\<rparr>)"
  "alike sim w w' \<Longrightarrow> alike sim (w\<lparr>w_access := w_access w @ z\<rparr>) (w'\<lparr>w_access := w_access w' @ z\<rparr>)"
  "alike sim w w' \<Longrightarrow> same_files d d' \<Longrightarrow>
     alike sim (w\<lparr>w_disk := d, w_audit := w_audit w @ es\<rparr>) (w'\<lparr>w_disk := d', w_audit := w_audit w' @ es\<rparr>)"
  "alike sim w w' \<Longrightarrow> same_files d d' \<Longrightarrow> alike sim (w\<lparr>w_disk := d\<rparr>) (w'\<lparr>w_disk := d'\<rparr>)"
  by (simp_all add: alike_def)

section \<open>Two runs of the service\<close>

locale two_runs = blind_server "e_run E" sim
  for E :: "('q, 'm) env" and sim :: "'m \<Rightarrow> 'm \<Rightarrow> bool" +
  fixes ent :: entropy
  assumes failures: "same_failures (e_entropy E) ent"
begin

abbreviation other :: "('q, 'm) env" where
  "other \<equiv> E\<lparr>e_entropy := ent\<rparr>"

abbreviation close_to :: "('q, 'm) world \<Rightarrow> ('q, 'm) world \<Rightarrow> bool" where
  "close_to \<equiv> alike sim"

lemma agree_sql: "close_to w w' \<Longrightarrow> agree sim (sql_call E f w) (sql_call other f w')"
  by (rule agree_sql_call) simp_all

lemma agree_draw:
  assumes "close_to w w'"
    and "\<And>e v v'. close_to v v' \<Longrightarrow> agree sim (h e v) (h' e v')"
    and "\<And>p p' v v'. isSafePasswordLiteral p \<Longrightarrow> isSafePasswordLiteral p' \<Longrightarrow> close_to v v' \<Longrightarrow>
        agree sim (k p v) (k' p' v')"
  shows "agree sim (on_call (draw_call E RandomPassword w) h k) (on_call (draw_call other RandomPassword w') h' k')"
proof -
  have d: "w_draws w' = w_draws w" using assms(1) by (simp add: alike_def)
  have a: "close_to (w\<lparr>w_draws := j\<rparr>) (w'\<lparr>w_draws := j\<rparr>)" for j using assms(1) by (simp add: alike_def)
  from RandomPassword_related [OF failures, of "w_draws w"] show ?thesis
  proof
    assume "\<exists>e j. RandomPassword (e_entropy E) (w_draws w) = (Fail e, j) \<and> RandomPassword ent (w_draws w) = (Fail e, j)"
    with assms(2) [OF a] show ?thesis by (auto simp: draw_call_def d)
  next
    assume "\<exists>p p' j. RandomPassword (e_entropy E) (w_draws w) = (Ret p, j) \<and> RandomPassword ent (w_draws w) = (Ret p', j)"
    then obtain p p' j where p: "RandomPassword (e_entropy E) (w_draws w) = (Ret p, j)"
      "RandomPassword ent (w_draws w) = (Ret p', j)" by blast
    from assms(3) [OF generated_password_safe [OF p(1)] generated_password_safe [OF p(2)] a] p show ?thesis
      by (simp add: draw_call_def d)
  qed
qed

lemma agree_Logger_Write:
  assumes "close_to w w'"
  shows "agree sim (Logger_Write E e w) (Logger_Write other e w')"
proof -
  have t: "w_ticks w' = w_ticks w" using assms by (simp add: alike_def)
  let ?e = "if IsZero (audCreatedAt e) then e\<lparr>audCreatedAt := e_time E (w_ticks w)\<rparr> else e"
  let ?f = "\<lambda>t. WriteAudit (e_sql E) t ?e"
  have s: "agree sim (sql_call E ?f (w\<lparr>w_ticks := Suc (w_ticks w)\<rparr>)) (sql_call other ?f (w'\<lparr>w_ticks := Suc (w_ticks w')\<rparr>))"
    by (rule agree_sql [OF alike_logs(1) [OF assms]])
  obtain r v where v: "sql_call E ?f (w\<lparr>w_ticks := Suc (w_ticks w)\<rparr>) = (r, v)" by (metis surj_pair)
  obtain v' where v': "sql_call other ?f (w'\<lparr>w_ticks := Suc (w_ticks w')\<rparr>) = (r, v')" and c: "close_to v v'"
    using s v by (cases "sql_call other ?f (w'\<lparr>w_ticks := Suc (w_ticks w')\<rparr>)") simp
  have "related same_files (os_quiet (e_os E) (w_disk v)) (os_quiet (e_os E) (w_disk v'))"
    using c by (intro os_related) (simp add: alike_def)
  moreover have calls: "calls (w_disk v') = calls (w_disk v)" using c by (simp add: alike_def same_files_def)
  ultimately obtain x d d' where q: "os_quiet (e_os E) (w_disk v) = (x, d)" "os_quiet (e_os E) (w_disk v') = (x, d')"
    "same_files d d'"
    by (cases "os_quiet (e_os E) (w_disk v)"; cases "os_quiet (e_os E) (w_disk v')") simp
  show ?thesis
    using v v' c alike_logs(5,6) [OF c q(3)] calls unfolding Logger_Write_def
    by (cases r; cases x) (simp_all add: Let_def t os_append_def q(1,2))
qed

lemma agree_audit:
  "close_to w w' \<Longrightarrow> close_to (auditSuccess E a n ip m w) (auditSuccess other a n ip m w')"
  "close_to w w' \<Longrightarrow> close_to (auditFailure E a n ip m w) (auditFailure other a n ip m w')"
  "close_to w w' \<Longrightarrow> agree sim (failed E a n ip e w) (failed other a n ip e w')"
  "close_to w w' \<Longrightarrow> close_to (markError E n e w) (markError other n e w')"
proof -
  note l = related_snd [OF agree_Logger_Write]
  show "close_to w w' \<Longrightarrow> close_to (auditSuccess E a n ip m w) (auditSuccess other a n ip m w')"
    by (simp add: auditSuccess_def l)
  show f: "close_to w w' \<Longrightarrow> close_to (auditFailure E a n ip m w) (auditFailure other a n ip m w')" for m
    by (simp add: auditFailure_def Let_def l alike_logs(2))
  show "close_to w w' \<Longrightarrow> agree sim (failed E a n ip e w) (failed other a n ip e w')"
    using f by (simp add: failed_def)
  show "close_to w w' \<Longrightarrow> close_to (markError E n e w) (markError other n e w')"
    by (simp add: markError_def related_snd [OF agree_sql])
qed

lemma agree_get:
  "close_to w w' \<Longrightarrow> agree sim (GetProject (e_sql E) n (w_sql w), w) (GetProject (e_sql other) n (w_sql w'), w')"
  by (simp add: alike_def)

lemmas agree_provisioner = agree_my_call [OF _ EnsureDatabase_related] agree_my_call [OF _ DropDatabase_related]
  agree_my_call [OF _ EnsureUser_related] agree_my_call [OF _ SetUserPassword_related]
  agree_my_call [OF _ DropUser_related] agree_my_call [OF _ Grant_related]

lemma agree_Writer:
  assumes "close_to w w'" and "isSafePasswordLiteral p" "isSafePasswordLiteral p'"
  shows "agree sim
    (disk_call (Writer_Write os dir \<lparr>secName = n, secDatabase = d, secUser = u, secPassword = p\<rparr>) w)
    (disk_call (Writer_Write os dir \<lparr>secName = n, secDatabase = d, secUser = u, secPassword = p'\<rparr>) w')"
proof (rule agree_disk_call [OF assms(1)])
  have "p \<noteq> []" "p' \<noteq> []" using assms(2,3) by (auto simp: isSafePasswordLiteral_def)
  then show "related same_files
      (Writer_Write os dir \<lparr>secName = n, secDatabase = d, secUser = u, secPassword = p\<rparr> x)
      (Writer_Write os dir \<lparr>secName = n, secDatabase = d, secUser = u, secPassword = p'\<rparr> x')" if "same_files x x'" for x x'
    using Writer_Write_related [OF that, of "\<lparr>secName = n, secDatabase = d, secUser = u, secPassword = p\<rparr>" p' os dir] by simp
qed

lemma agree_finish: "close_to w w' \<Longrightarrow> agree sim (create_finish E n ip w) (create_finish other n ip w')"
  unfolding create_finish_def
  by (rule agree_on_call, simp add: agree_sql, simp add: agree_audit, rule agree_on_call, erule agree_get)
     (simp_all add: agree_audit)

lemma agree_secret:
  assumes "isSafePasswordLiteral p" "isSafePasswordLiteral p'" "close_to w w'"
  shows "agree sim (create_secret E n ip d u p w) (create_secret other n ip d u p' w')"
  unfolding create_secret_def
  by (rule agree_on_call) (simp_all add: assms agree_Writer agree_audit agree_finish)

lemma agree_grant:
  assumes "isSafePasswordLiteral p" "isSafePasswordLiteral p'" "close_to w w'"
  shows "agree sim (create_grant E n ip d u p w) (create_grant other n ip d u p' w')"
  unfolding create_grant_def Let_def
  by (rule agree_on_call)
     (simp_all add: assms agree_provisioner agree_audit agree_secret related_snd [OF agree_provisioner(5)]
        related_snd [OF agree_provisioner(2)])

lemma agree_user:
  assumes "isSafePasswordLiteral p" "isSafePasswordLiteral p'" "close_to w w'"
  shows "agree sim (create_user E n ip d u p w) (create_user other n ip d u p' w')"
  unfolding create_user_def Let_def
  by (rule agree_on_call)
     (simp_all add: assms agree_provisioner agree_audit agree_grant related_snd [OF agree_provisioner(2)])

lemma agree_provision:
  assumes "close_to w w'"
  shows "agree sim (create_provision E n ip d u w) (create_provision other n ip d u w')"
  unfolding create_provision_def
proof (rule agree_draw [OF assms])
  fix p p' v v' assume p: "isSafePasswordLiteral p" "isSafePasswordLiteral p'" and v: "close_to v v'"
  show "agree sim
     (on_call (my_call (EnsureDatabase (e_run E) d) v)
       (\<lambda>err w. failed E ActionDatabaseCreate n ip err (markError E n err w)) (\<lambda>_ w. create_user E n ip d u p w))
     (on_call (my_call (EnsureDatabase (e_run other) d) v')
       (\<lambda>err w. failed other ActionDatabaseCreate n ip err (markError other n err w)) (\<lambda>_ w. create_user other n ip d u p' w))"
    by (rule agree_on_call) (simp_all add: v p agree_provisioner agree_audit agree_user)
qed (simp add: agree_audit)

lemma agree_idempotent: "close_to w w' \<Longrightarrow> agree sim (idempotent E n ip x w) (idempotent other n ip x w')"
  by (simp add: idempotent_def agree_audit)

lemma alike_sql: "close_to w w' \<Longrightarrow> w_sql w' = w_sql w"
  by (simp add: alike_def)

lemma agree_create_new:
  assumes "close_to w w'"
  shows "agree sim (create_new E n ip w) (create_new other n ip w')"
proof -
  have p: "new_project other n = new_project E n" by (simp add: new_project_def)
  show ?thesis
    unfolding create_new_def p
    by (rule agree_on_call)
       (auto simp: assms agree_sql agree_audit agree_provision agree_idempotent alike_sql split: outcome.split)
qed

lemma agree_Create: "close_to w w' \<Longrightarrow> agree sim (Service_Create E n ip w) (Service_Create other n ip w')"
  by (auto simp: Service_Create_def alike_sql agree_audit agree_create_new agree_idempotent
      split: option.split outcome.split)

lemma agree_Rotate:
  assumes "close_to w w'"
  shows "agree sim (Service_Rotate E n ip w) (Service_Rotate other n ip w')"
proof (cases "ValidateProjectName n")
  case None
  have final: "agree sim
      (let w = auditSuccess E ActionDatabaseRotate n ip ''rotated'' v in (GetProject (e_sql E) n (w_sql w), w))
      (let w = auditSuccess other ActionDatabaseRotate n ip ''rotated'' v' in (GetProject (e_sql other) n (w_sql w), w))"
    if "close_to v v'" for v v'
    unfolding Let_def by (rule agree_get [OF agree_audit(1) [OF that]])
  have step: "agree sim
     (on_call (my_call (SetUserPassword (e_run E) u pw) v) (failed E ActionDatabaseRotate n ip)
        (\<lambda>_ w. on_call (disk_call (Writer_Write (e_os E) (e_dir E)
            \<lparr>secName = n, secDatabase = d, secUser = u, secPassword = pw\<rparr>) w) (failed E ActionDatabaseRotate n ip)
          (\<lambda>_ w. let w = auditSuccess E ActionDatabaseRotate n ip ''rotated'' w in (GetProject (e_sql E) n (w_sql w), w))))
     (on_call (my_call (SetUserPassword (e_run other) u pw') v') (failed other ActionDatabaseRotate n ip)
        (\<lambda>_ w. on_call (disk_call (Writer_Write (e_os other) (e_dir other)
            \<lparr>secName = n, secDatabase = d, secUser = u, secPassword = pw'\<rparr>) w) (failed other ActionDatabaseRotate n ip)
          (\<lambda>_ w. let w = auditSuccess other ActionDatabaseRotate n ip ''rotated'' w in (GetProject (e_sql other) n (w_sql w), w))))"
    if "isSafePasswordLiteral pw" "isSafePasswordLiteral pw'" "close_to v v'" for pw pw' v v' u d
    by (rule agree_on_call, simp add: that agree_provisioner, simp add: agree_audit, rule agree_on_call,
        simp add: that agree_Writer, simp add: agree_audit, rule final)
  show ?thesis
    unfolding Service_Rotate_def None option.case
    by (rule agree_on_call, rule agree_get [OF assms], simp add: agree_audit, rule agree_draw, assumption, simp, rule step)
qed (simp add: Service_Rotate_def agree_audit assms)

lemma agree_then_attempt:
  assumes "agree sim c c'" and "\<And>v v'. close_to v v' \<Longrightarrow> agree sim (f v) (f' v')"
  shows "agree sim (then_attempt l f c) (then_attempt l f' c')"
proof (cases "fst c")
  case (Inl ps)
  with assms(1) obtain v v' where c: "c = (Inl ps, v)" "c' = (Inl ps, v')" "close_to v v'"
    by (cases c; cases c') simp
  with assms(2) [OF c(3)] show ?thesis by (cases "f v"; cases "f' v'"; cases "fst (f v)") auto
next
  case (Inr m)
  with assms(1) show ?thesis by (cases c; cases c') simp
qed

lemma agree_delete_all: "close_to w w' \<Longrightarrow> agree sim (delete_all E n p w) (delete_all other n p w')"
  unfolding delete_all_def
  by (intro agree_then_attempt) (simp_all add: agree_provisioner agree_sql agree_disk_call [OF _ Writer_Delete_related])

lemma agree_Delete:
  assumes "close_to w w'"
  shows "agree sim (Service_Delete E n c ip w) (Service_Delete other n c ip w')"
proof -
  have d: "agree sim
      (case delete_all E n p v of (Inr m, w) \<Rightarrow> (Panic m, w)
       | (Inl partial, w) \<Rightarrow>
           (if partial \<noteq> [] then failed E ActionDatabaseDelete n ip (ErrText (''partial failure: '' @ joinComma partial)) w
            else (Ret (), auditSuccess E ActionDatabaseDelete n ip ''deleted'' w)))
      (case delete_all other n p v' of (Inr m, w) \<Rightarrow> (Panic m, w)
       | (Inl partial, w) \<Rightarrow>
           (if partial \<noteq> [] then failed other ActionDatabaseDelete n ip (ErrText (''partial failure: '' @ joinComma partial)) w
            else (Ret (), auditSuccess other ActionDatabaseDelete n ip ''deleted'' w)))"
    if "close_to v v'" for p v v'
    using agree_delete_all [OF that, of n p]
    by (cases "delete_all E n p v"; cases "delete_all other n p v'") (auto simp: agree_audit split: sum.split)
  have "agree sim (on_call (GetProject (e_sql E) n (w_sql w), w)
         (\<lambda>err w. if err = StoreErrNotFound then failed E ActionDatabaseDelete n ip ErrNotFound w else (Fail err, w))
         (\<lambda>p w. case delete_all E n p w of (Inr m, w) \<Rightarrow> (Panic m, w)
           | (Inl partial, w) \<Rightarrow>
               (if partial \<noteq> [] then failed E ActionDatabaseDelete n ip (ErrText (''partial failure: '' @ joinComma partial)) w
                else (Ret (), auditSuccess E ActionDatabaseDelete n ip ''deleted'' w))))
      (on_call (GetProject (e_sql other) n (w_sql w'), w')
         (\<lambda>err w. if err = StoreErrNotFound then failed other ActionDatabaseDelete n ip ErrNotFound w else (Fail err, w))
         (\<lambda>p w. case delete_all other n p w of (Inr m, w) \<Rightarrow> (Panic m, w)
           | (Inl partial, w) \<Rightarrow>
               (if partial \<noteq> [] then failed other ActionDatabaseDelete n ip (ErrText (''partial failure: '' @ joinComma partial)) w
                else (Ret (), auditSuccess other ActionDatabaseDelete n ip ''deleted'' w))))"
    by (rule agree_on_call, rule agree_get [OF assms], simp add: agree_audit, rule d)
  with assms show ?thesis
    by (cases "ValidateProjectName n") (simp_all add: Service_Delete_def agree_audit)
qed

lemma agree_Get: "close_to w w' \<Longrightarrow> agree sim (Service_Get E n ip w) (Service_Get other n ip w')"
  unfolding Service_Get_def
  by (rule agree_on_call, erule agree_get) (simp_all add: agree_audit)

lemma agree_List: "close_to w w' \<Longrightarrow> agree sim (Service_List E w) (Service_List other w')"
  by (simp add: Service_List_def alike_def)

section \<open>Two runs of the server\<close>

lemma agree_errors:
  "close_to w w' \<Longrightarrow> agree sim (writeInternal E e c w) (writeInternal other e c w')"
  "close_to w w' \<Longrightarrow> agree sim (map_or_internal E e w) (map_or_internal other e w')"
  "close_to w w' \<Longrightarrow> agree sim (create_error E e w) (create_error other e w')"
  "close_to w w' \<Longrightarrow> agree sim (rotate_error E e w) (rotate_error other e w')"
  by (auto simp: writeInternal_def map_or_internal_def create_error_def rotate_error_def alike_logs split: option.split)

lemma agree_handlers:
  assumes "close_to w w'"
  shows "agree sim (listDatabases E r w) (listDatabases other r w')"
    and "agree sim (getDatabase E n r w) (getDatabase other n r w')"
    and "agree sim (createDatabase E r w) (createDatabase other r w')"
    and "agree sim (rotateDatabase E n r w) (rotateDatabase other n r w')"
    and "agree sim (deleteDatabase E n r w) (deleteDatabase other n r w')"
proof -
  show "agree sim (listDatabases E r w) (listDatabases other r w')"
    unfolding listDatabases_def by (rule agree_on_call, rule agree_List [OF assms]) (simp_all add: agree_errors)
  have "agree sim (on_call (Service_Get E m ip w) (map_or_internal E) k)
      (on_call (Service_Get other m ip w') (map_or_internal other) k)"
    if "\<And>x v v'. close_to v v' \<Longrightarrow> agree sim (k x v) (k x v')" for m ip k
    by (rule agree_on_call, rule agree_Get [OF assms]) (simp_all add: agree_errors that)
  then show "agree sim (getDatabase E n r w) (getDatabase other n r w')"
    using assms by (simp add: getDatabase_def Let_def split: option.split)
  have "agree sim (on_call (Service_Create E m ip w) (create_error E) k)
      (on_call (Service_Create other m ip w') (create_error other) k)"
    if "\<And>x v v'. close_to v v' \<Longrightarrow> agree sim (k x v) (k x v')" for m ip k
    by (rule agree_on_call, rule agree_Create [OF assms]) (simp_all add: agree_errors that)
  then show "agree sim (createDatabase E r w) (createDatabase other r w')"
    using assms by (simp add: createDatabase_def Let_def split: option.split)
  have "agree sim (on_call (Service_Rotate E m ip w) (rotate_error E) k)
      (on_call (Service_Rotate other m ip w') (rotate_error other) k)"
    if "\<And>x v v'. close_to v v' \<Longrightarrow> agree sim (k x v) (k x v')" for m ip k
    by (rule agree_on_call, rule agree_Rotate [OF assms]) (simp_all add: agree_errors that)
  then show "agree sim (rotateDatabase E n r w) (rotateDatabase other n r w')"
    using assms by (simp add: rotateDatabase_def Let_def split: option.split)
  have "agree sim (on_call (Service_Delete E m c ip w) (map_or_internal E) k)
      (on_call (Service_Delete other m c ip w') (map_or_internal other) k)"
    if "\<And>x v v'. close_to v v' \<Longrightarrow> agree sim (k x v) (k x v')" for m c ip k
    by (rule agree_on_call, rule agree_Delete [OF assms]) (simp_all add: agree_errors that)
  then show "agree sim (deleteDatabase E n r w) (deleteDatabase other n r w')"
    using assms by (simp add: deleteDatabase_def Let_def split: option.split)
qed

lemma agree_requireAuth:
  assumes "close_to w w'" and "\<And>v v'. close_to v v' \<Longrightarrow> agree sim (h r v) (h' r v')"
  shows "agree sim (requireAuth E h r w) (requireAuth other h' r w')"
  unfolding requireAuth_def Let_def
  by (rule agree_on_call) (simp_all add: agree_sql assms related_snd [OF agree_Logger_Write])

lemma agree_route: "close_to w w' \<Longrightarrow> agree sim (route_handler E rt r w) (route_handler other rt r w')"
  by (cases rt) (simp_all add: agree_requireAuth agree_handlers health_def)

lemma agree_Routes:
  assumes "close_to w w'"
  shows "agree sim (Routes E r w) (Routes other r w')"
proof -
  have "agree sim (mux E r w) (mux other r w')"
    using agree_route assms by (simp add: mux_def split: sum.split)
  then show ?thesis
    by (cases "mux E r w"; cases "mux other r w'"; cases "fst (mux E r w)")
       (auto simp: Routes_def logRequest_def alike_logs)
qed

end

text \<open>A server answers requests one after the other; a panic ends its request only.\<close>

fun serve_all ::
    "('q, 'm) env \<Rightarrow> request list \<Rightarrow> ('q, 'm) world \<Rightarrow> response outcome list \<times> ('q, 'm) world" where
  "serve_all E [] w = ([], w)"
| "serve_all E (r # rs) w =
     (case Routes E r w of (x, w) \<Rightarrow> (case serve_all E rs w of (xs, w) \<Rightarrow> (x # xs, w)))"

context two_runs
begin

lemma agree_serve_all: "close_to v v' \<Longrightarrow> agree sim (serve_all E rs v) (serve_all other rs v')"
proof (induction rs arbitrary: v v')
  case (Cons r rs)
  obtain x u x' u' where u: "Routes E r v = (x, u)" "Routes other r v' = (x', u')"
    by (metis surj_pair)
  with agree_Routes [OF Cons.prems, of r] have "x' = x" "close_to u u'" by simp_all
  with Cons.IH [of u u'] u show ?case
    by (cases "serve_all E rs u"; cases "serve_all other rs u'") simp
qed simp

end

definition other_entropy :: entropy where
  "other_entropy k = Inr (if k = 1 then [32] else [])"

interpretation reference_runs: two_runs reference_env same_accounts other_entropy
  by (intro two_runs.intro two_runs_axioms.intro)
     (simp_all add: reference_env_def reference_blind.blind_server_axioms same_failures_def zero_entropy_def
        other_entropy_def)

text \<open>C11: the passwords the server generates have no influence on anything it shows. Take two runs
  that draw different random bytes, from worlds that differ only in passwords and contents of
  files, over a MySQL server whose answers do not depend on passwords: every sequence of
  requests gets the same responses, and leaves the same metadata, audit records, audit lines,
  log lines, and files with their modes.\<close>

theorem passwords_do_not_show:
  assumes "blind_server (e_run E) sim" and "same_failures (e_entropy E) ent" and "alike sim w w'"
    and "serve_all E rs w = (xs, w1)" and "serve_all (E\<lparr>e_entropy := ent\<rparr>) rs w' = (xs', w1')"
  shows "xs' = xs \<and> alike sim w1 w1'"
  using two_runs.agree_serve_all [OF two_runs.intro [OF assms(1) two_runs_axioms.intro [OF assms(2)]] assms(3), of rs]
  by (simp add: assms(4,5))

lemma other_password: "RandomPassword other_entropy 0 = (Ret ''gA0!AAAAAAAAAAAAAAAAAAAAAAAAAAAA'', 2)"
proof -
  have r: "rand_read other_entropy 0 24 = Inr (replicate 24 0)" "rand_read other_entropy (Suc 0) 4 = Inr [32, 0, 0, 0]"
    by (simp_all add: rand_read_def other_entropy_def numeral_eq_Suc)
  have "RandomPassword other_entropy 0 = (Ret (overwrite_classes (replicate 32 (CHR ''A'')) [0,1,2,3] [32, 0, 0, 0]), 2)"
    by (simp add: RandomPassword_def r zero_encode zero_positions)
  also have "overwrite_classes (replicate 32 (CHR ''A'')) [0,1,2,3] [32, 0, 0, 0] = ''gA0!AAAAAAAAAAAAAAAAAAAAAAAAAAAA''"
    by (simp add: overwrite_classes_def replicate_32 lowerSet_def upperSet_def digitSet_def specSet_def)
  finally show ?thesis .
qed

theorem passwords_do_not_show_witness:
  "fst (RandomPassword zero_entropy 0) \<noteq> fst (RandomPassword other_entropy 0)
    \<and> (\<exists>resp. respStatus resp = 201
        \<and> fst (serve_all reference_env [create_request] (fresh_world\<lparr>w_sql := one_token\<rparr>)) = [Ret resp]
        \<and> fst (serve_all (reference_env\<lparr>e_entropy := other_entropy\<rparr>) [create_request]
                (fresh_world\<lparr>w_sql := one_token\<rparr>)) = [Ret resp])"
proof -
  let ?w = "fresh_world\<lparr>w_sql := one_token\<rparr>" and ?E' = "reference_env\<lparr>e_entropy := other_entropy\<rparr>"
  have b: "blind_server (e_run reference_env) same_accounts" by (rule reference_runs.blind_server_axioms)
  have f: "same_failures (e_entropy reference_env) other_entropy" by (rule reference_runs.failures)
  have a: "alike same_accounts ?w ?w"
    by (simp add: alike_def same_accounts_def same_files_def same_modes_def)
  obtain resp w1 where r: "Routes reference_env create_request ?w = (Ret resp, w1)" "respStatus resp = 201"
    using create_request_created by blast
  then have s: "serve_all reference_env [create_request] ?w = ([Ret resp], w1)" by simp
  obtain xs w1' where s': "serve_all ?E' [create_request] ?w = (xs, w1')" by (metis surj_pair)
  from passwords_do_not_show [OF b f a s s'] have "xs = [Ret resp]" by simp
  with r s s' show ?thesis by (simp add: zero_password other_password)
qed

end
