(* ===== verification/Bounds.thy ===== *)
theory Bounds
  imports Lifecycle
begin

text \<open>
  How long the name of a project can be. The policy of \<open>internal/model/name.go\<close> allows 63
  characters; a user name of MySQL has at most 32, and five of them are the suffix. The
  bound is followed through the stages of a creation, and met by every shorter name.
\<close>

lemma user_name_length: "length (user_of n) = length n + 5"
  by (simp add: user_of_def ProjectIdentifiers_def ReplaceByte_def Let_def)

context service
begin

text \<open>A user that was created has a name that MySQL accepts.\<close>

lemma EnsureUser_length:
  assumes "EnsureUser (e_run E) u p m = (Ret (), m')"
  shows "length u \<le> 32"
proof -
  have "my.progress (create_user_stmts u p) m (Ret ()) m'"
    using my.EnsureUser_progress [OF assms] by simp
  from my.progress_ret [OF this] show ?thesis by (simp add: create_user_stmts_def hosts_def)
qed

lemma create_user_length:
  assumes "create_user E n ip d u p w = (Ret res, w')"
  shows "length u \<le> 32"
proof -
  from assms obtain w1 where "my_call (EnsureUser (e_run E) u p) w = (Ret (), w1)"
    unfolding create_user_def by (auto dest!: on_call_Ret)
  then obtain m' where "EnsureUser (e_run E) u p (w_my w) = (Ret (), m')"
    by (auto simp: my_call_def split: prod.splits)
  then show ?thesis by (rule EnsureUser_length)
qed

lemma create_provision_length:
  assumes "create_provision E n ip d u w = (Ret res, w')"
  shows "length u \<le> 32"
proof -
  from assms obtain p w2 where "create_user E n ip d u p w2 = (Ret res, w')"
    unfolding create_provision_def by (auto dest!: on_call_Ret)
  then show ?thesis by (rule create_user_length)
qed

lemma Create_length:
  assumes "Service_Create E n ip w = (Ret res, w')" and "\<not> Idempotent res"
  shows "length n \<le> 27"
proof -
  from assms have c: "create_new E n ip w = (Ret res, w')"
    by (auto simp: Service_Create_def idempotent_def split: option.splits outcome.splits if_splits)
  obtain r w1 where s: "sql_call E (\<lambda>t. CreateProject (e_sql E) t (new_project E n)) w = (r, w1)" by (metis surj_pair)
  have "create_provision E n ip (db_of n) (user_of n) w1 = (Ret res, w')"
    using c s assms(2)
    by (cases r) (auto simp: create_new_def ids idempotent_def failed_def split: outcome.splits if_splits)
  from create_provision_length [OF this] show ?thesis by (simp add: user_name_length)
qed

end

text \<open>C18: a project that was provisioned has a name of at most 27 characters, over every MySQL server
  within the contract, and 27 is exact: on the reference server every valid name up to that
  length is provisioned. The names of 28 to 63 characters, which the policy allows, never are.\<close>

theorem provisioned_names_are_short:
  assumes "service E view cat"
  shows "(Service_Create E n ip w = (Ret res, w') \<and> \<not> Idempotent res \<longrightarrow> length n \<le> 27)
    \<and> (valid_name n \<and> length n \<le> 27 \<longrightarrow>
        (\<exists>res w'. Service_Create reference_env n ip fresh_world = (Ret res, w') \<and> \<not> Idempotent res))
    \<and> (\<exists>k. valid_name k \<and> length k = 63)"
proof (intro conjI impI)
  show "length n \<le> 27" if "Service_Create E n ip w = (Ret res, w') \<and> \<not> Idempotent res"
    using service.Create_length [OF assms] that by blast
  show "\<exists>res w'. Service_Create reference_env n ip fresh_world = (Ret res, w') \<and> \<not> Idempotent res"
    if "valid_name n \<and> length n \<le> 27"
    using that by (intro ref_Create)
      (simp_all add: fresh_world_def empty_tables_def empty_disk_def project_map_def select_project_def)
  have "list_all name_char (replicate 63 (CHR ''a''))" by (simp add: list_all_iff name_char_def char_class_defs)
  then show "\<exists>k. valid_name k \<and> length k = 63"
    by (intro exI [of _ "replicate 63 (CHR ''a'')"]) (simp add: valid_name_iff char_class_defs)
qed

theorem provisioned_names_are_short_witness:
  "(\<exists>res w'. Service_Create reference_env (replicate 27 (CHR ''a'')) ''ip'' fresh_world = (Ret res, w') \<and> \<not> Idempotent res)
    \<and> (\<nexists>res w'. Service_Create reference_env (replicate 28 (CHR ''a'')) ''ip'' fresh_world = (Ret res, w') \<and> \<not> Idempotent res)"
proof -
  have "list_all name_char (replicate k (CHR ''a''))" for k
    by (simp add: list_all_iff name_char_def char_class_defs)
  then have v: "valid_name (replicate 27 (CHR ''a''))" by (simp add: valid_name_iff char_class_defs)
  note t = provisioned_names_are_short [OF reference_service.service_axioms, where ip = "''ip''" and w = fresh_world]
  have "\<exists>res w'. Service_Create reference_env (replicate 27 (CHR ''a'')) ''ip'' fresh_world = (Ret res, w') \<and> \<not> Idempotent res"
    using t [of "replicate 27 (CHR ''a'')"] v by simp
  moreover have "Idempotent res"
    if "Service_Create reference_env (replicate 28 (CHR ''a'')) ''ip'' fresh_world = (Ret res, w')" for res w'
    using t [of "replicate 28 (CHR ''a'')" res w', THEN conjunct1] that by auto
  ultimately show ?thesis by blast
qed

end
