(* ===== verification/Recovery.thy ===== *)
theory Recovery
  imports Lifecycle
begin

text \<open>
  How a project gets out of a failed creation. \<open>Service.Create\<close> of
  \<open>internal/provision/service.go\<close> does not take up a row that is not ready; what repairs it is
  a deletion followed by a new creation. The two are composed here.
\<close>

section \<open>What a deletion does to the disk\<close>

lemma then_attempt_disk:
  assumes "touches P d (w_disk (snd c))" and "\<And>w. touches P (w_disk w) (w_disk (snd (f w)))"
  shows "touches P d (w_disk (snd (then_attempt l f c)))"
proof (cases c)
  case (Pair x w)
  show ?thesis
  proof (cases x)
    case (Inl ps)
    obtain r w2 where "f w = (r, w2)" by (metis surj_pair)
    with Pair Inl assms(1) assms(2) [of w] show ?thesis
      by (cases r) (auto intro: touches_trans)
  next
    case (Inr p)
    with Pair assms(1) show ?thesis by simp
  qed
qed

lemma call_disk:
  "w_disk (snd (my_call f w)) = w_disk w" "w_disk (snd (sql_call E g w)) = w_disk w"
  "w_disk (snd (disk_call h w)) = snd (h (w_disk w))"
  by (simp_all add: my_call_def sql_call_def disk_call_def split: prod.split)

lemma delete_all_disk: "touches {Path (e_dir E) n} (w_disk w) (w_disk (snd (delete_all E n p w)))"
  unfolding delete_all_def
  by (intro then_attempt_disk) (simp_all add: call_disk touches_refl Writer_Delete_touches)

context service
begin

lemma Delete_disk:
  assumes "Service_Delete E n c ip w = (Ret (), w')" and "q \<noteq> Path (e_dir E) n"
  shows "files (w_disk w') q = files (w_disk w) q"
proof -
  from assms(1) obtain p w1 where d: "delete_all E n p w = (Inl [], w1)"
    and w': "w' = auditSuccess E ActionDatabaseDelete n ip ''deleted'' w1"
    by (auto simp: Service_Delete_def failed_def split: option.splits if_splits sum.splits prod.splits
        dest!: on_call_Ret)
  have "unchanged w1 w'" by (simp add: w')
  from unchanged_files [OF this] delete_all_disk [of E n w p] d assms(2) show ?thesis
    by (simp add: touches_files)
qed

lemma Delete_rows:
  assumes "Service_Delete E n c ip w = (Ret (), w')" and "rows_ok (view (w_sql w))"
  shows "rows_ok (view (w_sql w'))"
  using frame_Delete [OF assms(2), of n c ip] assms by (simp add: only_project_def)

text \<open>After the deletion no account is left that could keep an old password.\<close>

lemma Delete_Create:
  assumes r: "rows_ok (view (w_sql w))" and d: "Service_Delete E n c ip w = (Ret (), w1)"
    and k: "Service_Create E n ip w1 = (Ret res, w2)"
  shows "\<exists>p. complete n p (create_stmts n p (e_allowDrop E)) (cat (w_my w1)) res w2"
    and "h \<in> set hosts \<Longrightarrow> accounts (cat (w_my w1)) (user_of n, h) = None"
proof -
  from Delete_ret [OF d r] have n: "projs w1 n = None"
    and c: "cat (w_my w1) = effects (SDropDatabase (db_of n) # drop_user_stmts (user_of n)) (cat (w_my w))"
    by simp_all
  from Create_ret [OF k] n show "\<exists>p. complete n p (create_stmts n p (e_allowDrop E)) (cat (w_my w1)) res w2"
    by auto
  show "accounts (cat (w_my w1)) (user_of n, h) = None" if "h \<in> set hosts"
    using that unfolding c by (auto simp: stmts_defs)
qed

end

section \<open>Deleting and creating again\<close>

lemma ref_recreate:
  assumes v: "valid_name n" "length n \<le> 27" and row: "project_map (w_sql w) n = Some p" and r: "rows_ok (w_sql w)"
    and tmp: "\<And>r. files (w_disk w) (temp_path ''/s'' (''.'' @ n @ ''.'') ''.tmp'' r) = None"
  shows "\<exists>w1 res w2. Service_Delete reference_env n n ip w = (Ret (), w1)
    \<and> Service_Create reference_env n ip w1 = (Ret res, w2)"
proof -
  note ids = reference_service.row_ids [OF _ ref_get [OF row, folded ref_env_simps(1)]]
  from ids r have "DatabaseName p = db_of n" "DatabaseUser p = user_of n" by simp_all
  from ref_Delete [OF v row this] obtain w1 where d: "Service_Delete reference_env n n ip w = (Ret (), w1)" by blast
  have "project_map (w_sql w1) n = None" using reference_service.Delete_ret [OF d] r by simp
  moreover have "files (w_disk w1) (temp_path ''/s'' (''.'' @ n @ ''.'') ''.tmp'' k) = None" for k
  proof -
    have "slash \<notin> set n" using valid_file_names(1) [OF v] by (rule file_chars_no_slash)
    from temp_not_env [OF this this] have "temp_path ''/s'' (''.'' @ n @ ''.'') ''.tmp'' k \<noteq> Path ''/s'' n" by simp
    with reference_service.Delete_disk [OF d] tmp [of k] show ?thesis by simp
  qed
  ultimately show ?thesis using ref_Create [OF v, of w1 ip] d by blast
qed

text \<open>C5: a creation that failed is never taken up again, and a deletion followed by a creation
  repairs it. While the row is not ready, a creation changes nothing and fails. Once a deletion
  and a creation have returned, the project is ready, and both accounts have the very password
  of the env file, whatever the failed creation had left behind. And on the reference
  environment, where no call fails, they do return, for every name that can be provisioned
  at all and every world with a row for it.\<close>

theorem failed_project_recovers:
  assumes "service E view cat" and "rows_ok (view (w_sql w))"
  shows "(valid_name n \<and> GetProject (e_sql E) n (w_sql w) = Ret p \<and> Status p \<noteq> StatusReady \<longrightarrow>
        (\<exists>e. Service_Create E n ip w = (Fail e, w)))
    \<and> (Service_Delete E n c ip w = (Ret (), w1) \<and> Service_Create E n ip w1 = (Ret res, w2) \<longrightarrow>
        \<not> Idempotent res \<and> Status (Project res) = StatusReady
        \<and> project_map (view (w_sql w2)) n = Some (Project res)
        \<and> (\<exists>pw. files (w_disk w2) (Path (e_dir E) n) = Some \<lparr>content = renderEnv (secret_of n pw), mode = m0600\<rparr>
             \<and> (\<forall>h \<in> set hosts. accounts (cat (w_my w2)) (user_of n, h) = Some pw
                  \<and> may_use (cat (w_my w2)) (user_of n, h) (db_of n))))
    \<and> (valid_name n \<and> length n \<le> 27 \<and> rows_ok (w_sql u) \<and> project_map (w_sql u) n \<noteq> None
        \<and> (\<forall>k. files (w_disk u) (temp_path ''/s'' (''.'' @ n @ ''.'') ''.tmp'' k) = None) \<longrightarrow>
        (\<exists>u1 x u2. Service_Delete reference_env n n ip u = (Ret (), u1)
          \<and> Service_Create reference_env n ip u1 = (Ret x, u2)))"
  (is "_ \<and> (?calls \<longrightarrow> _) \<and> _")
proof (intro conjI impI)
  show "\<exists>e. Service_Create E n ip w = (Fail e, w)"
    if "valid_name n \<and> GetProject (e_sql E) n (w_sql w) = Ret p \<and> Status p \<noteq> StatusReady"
    using that by (simp add: Service_Create_def)
  show "\<exists>u1 x u2. Service_Delete reference_env n n ip u = (Ret (), u1) \<and> Service_Create reference_env n ip u1 = (Ret x, u2)"
    if "valid_name n \<and> length n \<le> 27 \<and> rows_ok (w_sql u) \<and> project_map (w_sql u) n \<noteq> None
      \<and> (\<forall>k. files (w_disk u) (temp_path ''/s'' (''.'' @ n @ ''.'') ''.tmp'' k) = None)"
    using that ref_recreate [of n u _ ip] by blast
  assume ?calls
  then have d: "Service_Delete E n c ip w = (Ret (), w1)" and k: "Service_Create E n ip w1 = (Ret res, w2)" by simp_all
  note gone = service.Delete_Create(2) [OF assms d k]
  from service.Delete_Create(1) [OF assms d k] obtain pw where
    c: "service.complete E view cat n pw (create_stmts n pw (e_allowDrop E)) (cat (w_my w1)) res w2"
    by blast
  note c = c [unfolded service.complete_def [OF assms(1)]]
  from c show "\<not> Idempotent res" "Status (Project res) = StatusReady"
    "project_map (view (w_sql w2)) n = Some (Project res)" by simp_all
  have v: "valid_name n" using service.Delete_ret [OF assms(1) d assms(2)] by simp
  show "\<exists>pw. files (w_disk w2) (Path (e_dir E) n) = Some \<lparr>content = renderEnv (secret_of n pw), mode = m0600\<rparr>
     \<and> (\<forall>h \<in> set hosts. accounts (cat (w_my w2)) (user_of n, h) = Some pw
          \<and> may_use (cat (w_my w2)) (user_of n, h) (db_of n))"
    using c gone by (intro exI [of _ pw]) (auto simp: env_file_def create_stmts_effect intro: create_stmts_may_use [OF v])
qed

text \<open>A creation that crashed behind its first statement: the row is there, pending, and nothing else.\<close>

definition crashed_world :: "(tables, catalog) world" where
  "crashed_world =
     snd (sql_call reference_env (\<lambda>t. CreateProject table_engine t (new_project reference_env ''app'')) fresh_world)"

lemma crashed_row:
  "project_map (w_sql crashed_world) ''app'' \<noteq> None" "rows_ok (w_sql crashed_world)"
  "\<And>p. project_map (w_sql crashed_world) ''app'' = Some p \<Longrightarrow> Status p = StatusPending"
  "w_disk crashed_world = empty_disk"
proof -
  let ?p = "new_project reference_env ''app''" and ?t = "e_time reference_env (w_ticks fresh_world)"
  obtain x q where q: "CreateProject table_engine ?t ?p (w_sql fresh_world) = (Ret x, q)"
    using ref_CreateProject [of ?p "w_sql fresh_world" ?t] by (auto simp: fresh_world_def empty_tables_def)
  then have c: "sql_call reference_env (\<lambda>t. CreateProject table_engine t ?p) fresh_world = (Ret x, crashed_world)"
    and w: "w_sql crashed_world = q" "w_disk crashed_world = empty_disk"
    by (simp_all add: crashed_world_def sql_call_def fresh_world_def)
  from reference_sql.repo.create_ret [OF q] w show "project_map (w_sql crashed_world) ''app'' \<noteq> None"
    "\<And>p. project_map (w_sql crashed_world) ''app'' = Some p \<Longrightarrow> Status p = StatusPending"
    by (auto simp: new_project_def)
  have c': "sql_call reference_env (\<lambda>t. CreateProject (e_sql reference_env) t ?p) fresh_world = (Ret x, crashed_world)"
    using c by simp
  have "only_project reference_env (\<lambda>t. t) (\<lambda>c. c) ''app'' fresh_world crashed_world"
    by (rule reference_service.frame_CreateProject [OF fresh_app(1) _ _ _ c'])
       (simp_all add: new_project_def ids)
  with fresh_app(3) show "rows_ok (w_sql crashed_world)" by (simp add: only_project_def)
  show "w_disk crashed_world = empty_disk" by (rule w(2))
qed

theorem failed_project_recovers_witness:
  "(\<exists>e. Service_Create reference_env ''app'' ''ip'' crashed_world = (Fail e, crashed_world))
   \<and> (\<exists>w1 res w2. Service_Delete reference_env ''app'' ''app'' ''ip'' crashed_world = (Ret (), w1)
        \<and> Service_Create reference_env ''app'' ''ip'' w1 = (Ret res, w2) \<and> Status (Project res) = StatusReady)"
proof -
  obtain p where p: "project_map (w_sql crashed_world) ''app'' = Some p" using crashed_row(1) by blast
  note t = failed_project_recovers [OF reference_service.service_axioms crashed_row(2), where n = "''app''" and ip = "''ip''"]
  from ref_get [OF p] crashed_row(3) [OF p] fresh_app(1)
  have "\<exists>e. Service_Create reference_env ''app'' ''ip'' crashed_world = (Fail e, crashed_world)"
    using t [of p] by simp
  moreover obtain w1 x w2 where d: "Service_Delete reference_env ''app'' ''app'' ''ip'' crashed_world = (Ret (), w1)"
    "Service_Create reference_env ''app'' ''ip'' w1 = (Ret x, w2)"
    using t [of _ _ _ _ _ crashed_world, THEN conjunct2, THEN conjunct2] fresh_app(1) crashed_row
    by (auto simp: empty_disk_def)
  moreover have "Status (Project x) = StatusReady" using t [of _ "''app''" w1 x w2] d by blast
  ultimately show ?thesis by blast
qed

end
