(* ===== verification/Spec2Isabelle.thy ===== *)
theory Spec2Isabelle
  imports Names Passwords Store Auth Lifecycle Api ServerMain Locks Clients Opening Isolation AuditOps Secrecy
    Bounds Recovery
begin

text \<open>
  A verification development for db-isolation: a service that gives every project a MySQL
  database, an account that may use nothing else, and an env file with the credentials.

  \<^bold>\<open>The program.\<close> The server binary (\<open>cmd/server\<close>) reads its configuration, opens the metadata
  database, the audit log, the administrator's MySQL connection and the directory of secrets,
  and serves an HTTP API (\<open>internal/api\<close>). A request passes the bearer check
  (\<open>internal/auth\<close>) and reaches the service (\<open>internal/provision\<close>), which changes the metadata
  (\<open>internal/store\<close>, SQLite), MySQL (\<open>internal/mysqlx\<close>) and the env file
  (\<open>internal/secrets\<close>) in turn, undoes some of it when a step fails, and writes an audit
  record (\<open>internal/audit\<close>). Two clients send requests: the command line \<open>cmd/dbi\<close> and the
  MCP adapter \<open>cmd/mcp\<close>.

  \<^bold>\<open>Conventions.\<close> A Go string is a \<open>string\<close>, a list of bytes. A call answers an \<open>outcome\<close>:
  \<open>Ret\<close> a value, \<open>Fail\<close> an error, \<open>Panic\<close> a message; sentinel errors are constructors of
  \<open>goerr\<close>, all others are their text. State is passed explicitly. What is not in the
  repository is an argument: the SQLite engine, the MySQL server, the system calls (each of
  which may fail), the clock, the random source, the YAML parser, the environment, the network,
  and the error texts of libraries. What the code relies on is the assumption list of a
  locale; each locale is interpreted on a reference instance, so none is empty.
\<close>

text \<open>
  \<^bold>\<open>The theories and the code.\<close>

  \<^item> \<open>Prelude\<close>, \<open>Utf8\<close>, \<open>GoTime\<close>, \<open>Paths\<close>, \<open>GoFlags\<close>, \<open>Json\<close>: what the sources use of
    the standard library (\<open>strings\<close>, \<open>strconv\<close>, \<open>unicode/utf8\<close>, \<open>time\<close>, \<open>path/filepath\<close>,
    \<open>flag\<close>, \<open>encoding/json\<close>).
  \<^item> \<open>Model\<close>, \<open>Names\<close>, \<open>Passwords\<close>: \<open>internal/model\<close>. The records, the name policy and the
    identifiers made from a name, tokens and passwords from a stream of random reads.
  \<^item> \<open>Sqlite\<close>, \<open>Store\<close>: \<open>internal/store/store.go\<close>. Tables, one constructor per SQL statement
    with its effect, the contract \<open>sqlite_engine\<close> of an engine, and every query of the store.
    \<open>project_repo\<close> is the contract of a map from names to projects; the store refines it.
  \<^item> \<open>Auth\<close>: \<open>internal/auth/auth.go\<close>, with SHA-256 written out on 32-bit words.
  \<^item> \<open>Disk\<close>, \<open>Secrets\<close>: \<open>internal/secrets/secrets.go\<close> over the system calls. The disk keeps every
    state it went through, so a property can speak of a crash between two calls.
  \<^item> \<open>Mysqlx\<close>, \<open>MysqlServer\<close>, \<open>Isolation\<close>: \<open>internal/mysqlx/provisioner.go\<close>. The statements as
    texts, the reading of a text, the catalog of databases, accounts and grants with the
    wildcards of a grant, the contract \<open>mysql_server\<close>, and the check \<open>VerifyProjectIsolation\<close>.
  \<^item> \<open>World\<close>, \<open>AuditTrail\<close>, \<open>Provision\<close>, \<open>Lifecycle\<close>: \<open>internal/audit/audit.go\<close> and
    \<open>internal/provision/service.go\<close>. \<open>env\<close> is what stays fixed while the server runs, \<open>world\<close>
    what changes; \<open>service\<close> joins the two contracts. Each operation is the body between taking
    and releasing its locks.
  \<^item> \<open>AuditFile\<close>, \<open>AuditOps\<close>: the lines of the audit file, and which operations leave a record.
  \<^item> \<open>Bounds\<close>, \<open>Recovery\<close>, \<open>Secrecy\<close>: the longest name that can be provisioned, a deletion
    followed by a creation, and two runs of the API that
    differ in their random bytes alone (contracts \<open>blind_server\<close> and \<open>two_runs\<close>).
  \<^item> \<open>Locks\<close>: \<open>Service.lock\<close> and \<open>Store.LockCreate\<close> as instructions of concurrent requests.
  \<^item> \<open>Api\<close>: \<open>internal/api\<close>. Routes, middleware, handlers, error envelopes.
  \<^item> \<open>Config\<close>, \<open>Mycnf\<close>: \<open>internal/config\<close>. The configuration and the reader of \<open>my.cnf\<close>.
  \<^item> \<open>ServerMain\<close>, \<open>Opening\<close>: \<open>cmd/server/main.go\<close> and the constructors it calls.
  \<^item> \<open>Transport\<close>, \<open>Dbi\<close>, \<open>Mcp\<close>, \<open>Clients\<close>: the bytes of responses, \<open>cmd/dbi/main.go\<close>,
    \<open>cmd/mcp/main.go\<close>, and the clients composed with \<open>Routes\<close> through the contract \<open>delivery\<close>.
\<close>

text \<open>
  \<^bold>\<open>What the lemmas show.\<close>

  \<^item> \<open>Lifecycle\<close>: a creation that returns has provisioned everything, and makes a row ready only
    then; a deletion that returns leaves nothing; a rotation changes the password everywhere; which partial failures
    leave what behind; no operation touches another project, at any moment a crash could show,
    unless the two names have the same database and user.
  \<^item> \<open>MysqlServer\<close>, \<open>Isolation\<close>: only statements that name the project's own objects are sent;
    a project is isolated from all others exactly when its name has no separator, and the
    isolation check does not see that, over any pool in which what is allowed succeeds.
    \<open>Names\<close>: when two names share their identifiers.
  \<^item> \<open>Secrets\<close>: a reader of an env file sees the old or the new text, never a part; it reads back
    what was written. \<open>Passwords\<close>: the policy of passwords and that they are safe literals.
  \<^item> \<open>Auth\<close>, \<open>Api\<close>: only an unrevoked stored token is let in; a refused request changes nothing
    but the audit trail and the logs, and its answer depends on the method and the path alone;
    error responses come from a fixed list.
  \<^item> \<open>AuditFile\<close>, \<open>AuditOps\<close>: every successful change is recorded once; a record that is written
    ends its line, and a write that fails leaves a beginning of one, which the next record joins.
  \<^item> \<open>Secrecy\<close>: responses, metadata, audit records, logs and file modes do not depend on the
    passwords, if the answers of MySQL do not. \<open>Bounds\<close>: a valid name can be provisioned exactly
    when it has at most 27 characters. \<open>Recovery\<close>: a failed creation is repaired by deleting the
    project and creating it again.
  \<^item> \<open>Locks\<close>: no two requests for a name run their bodies at once, and every schedule ends.
  \<^item> \<open>ServerMain\<close>, \<open>Opening\<close>: resources are closed in reverse order on every path, with the one
    exception of a store that cannot be pinged or migrated; a created token is let in.
  \<^item> \<open>Json\<close>, \<open>Transport\<close>, \<open>Dbi\<close>, \<open>Mcp\<close>, \<open>Clients\<close>: what is marshalled is read back; every
    request the adapter reads is answered; both clients do the same to the world; what exit code 0 means end to end.
  \<^item> \<open>Config\<close>, \<open>Mycnf\<close>, \<open>GoFlags\<close>: a configuration that loads has been checked; the last
    assignment of an option file wins; how flags are spelled.

  \<^bold>\<open>Bounds and fuel.\<close> \<open>pick_free\<close> tries 10000 names, as \<open>os.CreateTemp\<close> does. \<open>schedule\<close> adds the
  48 words of a SHA-256 block; \<open>iroot\<close> finds the roots behind its constants bit by bit, and 37
  bits hold the largest. The reader of JSON has fuel twice the length of the text plus two,
  which \<open>read_value_enough\<close> shows to be enough, and the depth limit 10000 of the library.
  A line of \<open>my.cnf\<close> has at most 64 KiB. Integers that the code keeps in 64 bits are
  range-checked where they are parsed (\<open>GoFlags\<close>). Every loop of the sources is a total function.
\<close>

text \<open>
  \<^bold>\<open>Not modelled.\<close>

  \<^item> HTTP itself: \<open>net/http\<close> parses requests, applies timeouts and redirects unclean paths before
    a handler runs; a request here is what the handlers see.
  \<^item> SQLite, MySQL and their drivers beyond the statements the code sends. The connection pool is
    taken as one session. The pragmas in the data source of the store have no meaning here.
  \<^item> Interleaving inside an operation: \<open>Locks\<close> has every interleaving of lock instructions and
    counted actions, \<open>Lifecycle\<close> the effect of a body that runs alone. Operations on projects
    with different names are shown not to touch each other's state, not to commute.
  \<^item> Contexts and their cancellation: a cancelled call is one of the failures every call may have.
  \<^item> Texts on standard error of the server binary, and the usage texts of package \<open>flag\<close>.
  \<^item> Unicode case folding beyond the runes whose lower case is ASCII, numbers in JSON arguments that
    are not integers (their text through float64 is an argument), and offsets in time texts other
    than the \<open>Z\<close> the program writes.
  \<^item> \<open>ActionDatabaseList\<close> and other constants that no code reads, and the tests.
\<close>

end
